(* ===== verification/Prelude.thy ===== *)
theory Prelude
  imports Complex_Main
begin

text \<open>
  Shared material of the development: the theorem collections the component theories add to,
  the errors a Go function of the repository may return, and generic lemmas on lists, options
  and association lists.

  A Go function with result \<open>(T, error)\<close> is modelled by a function whose result is a pair of the
  value and a \<open>goerr option\<close> (\<open>None\<close> is \<open>nil\<close>); a function with result \<open>error\<close> by one that returns
  a \<open>goerr option\<close>. A Go slice that may be \<open>nil\<close> is a \<open>'a list option\<close>.
\<close>

named_theorems wire_simps \<open>equations of the HTTP layer: requests, response writers\<close>

named_theorems db_simps \<open>equations of the database layer: statements and transactions\<close>

named_theorems strs_simps \<open>equations of the Go string functions\<close>

section \<open>Errors\<close>

text \<open>
  \<open>ErrDriver\<close> carries the text of an error that comes from the PostgreSQL server or the connection;
  \<open>ErrWrap p e\<close> is \<open>fmt.Errorf("p: %w", e)\<close>.
\<close>

datatype goerr =
    ErrNoRows
  | ErrInFailedTransaction
  | ErrDriver string
  | ErrText string
  | ErrWrap string goerr

fun err_text :: "goerr \<Rightarrow> string" where
  "err_text ErrNoRows = ''sql: no rows in result set''"
| "err_text ErrInFailedTransaction = ''pq: could not complete operation in a failed transaction''"
| "err_text (ErrDriver m) = m"
| "err_text (ErrText m) = m"
| "err_text (ErrWrap p e) = p @ '': '' @ err_text e"

fun err_root :: "goerr \<Rightarrow> goerr" where
  "err_root (ErrWrap p e) = err_root e"
| "err_root e = e"

section \<open>Lists and options\<close>

lemma those_map_Some [simp]: "those (map (\<lambda>x. Some (f x)) xs) = Some (map f xs)"
  by (induction xs) auto

lemma those_eq_Some_iff: "those os = Some ys \<longleftrightarrow> os = map Some ys"
proof (induction os arbitrary: ys)
  case Nil
  show ?case by auto
next
  case (Cons a os)
  show ?case by (cases a; cases ys) (auto simp: Cons.IH)
qed

lemma map_of_append_left:
  "map_of xs k = Some v \<Longrightarrow> map_of (xs @ ys) k = Some v"
  by (simp add: map_add_def)

lemma map_of_in_fst: "map_of xs k = Some v \<Longrightarrow> k \<in> fst ` set xs"
  by (force dest: map_of_SomeD)

lemma map_of_eq_Some_distinct:
  "distinct (map fst xs) \<Longrightarrow> (k, v) \<in> set xs \<Longrightarrow> map_of xs k = Some v"
  by simp

lemma map_of_None_fst: "k \<notin> fst ` set xs \<Longrightarrow> map_of xs k = None"
  by (simp add: map_of_eq_None_iff)

lemma filter_map_of_notin:
  "map_of (filter (\<lambda>p. fst p \<notin> S) xs) k = (if k \<in> S then None else map_of xs k)"
  by (induction xs) auto

lemma sort_key_id: "sorted (map f xs) \<Longrightarrow> sort_key f xs = xs"
  by (rule sort_key_id_if_sorted)

lemma sorted_upt_int: "sorted (map int [m..<n])"
proof -
  have "map int [m..<n] = map (\<lambda>i. i) (map int [m..<n])" by simp
  have "sorted [m..<n]" by simp
  then show ?thesis by (induction n) (auto simp: sorted_append)
qed

end
