(* ===== verification/GoLib.thy ===== *)
theory GoLib
  imports Prelude
begin

text \<open>
  The functions of Go's standard library that the server calls on strings: packages \<open>strings\<close>,
  \<open>strconv\<close> and \<open>path/filepath\<close>. A Go string is its bytes, so it is a \<open>string\<close> (a list of 8-bit
  characters) here, and \<open>len\<close> is \<open>length\<close>.
\<close>

section \<open>Prefixes, suffixes, splitting\<close>

definition has_prefix :: "string \<Rightarrow> string \<Rightarrow> bool" where
  "has_prefix s p \<longleftrightarrow> take (length p) s = p"

definition has_suffix :: "string \<Rightarrow> string \<Rightarrow> bool" where
  "has_suffix s p \<longleftrightarrow> length p \<le> length s \<and> drop (length s - length p) s = p"

definition trim_prefix :: "string \<Rightarrow> string \<Rightarrow> string" where
  "trim_prefix s p = (if has_prefix s p then drop (length p) s else s)"

definition trim_suffix :: "string \<Rightarrow> string \<Rightarrow> string" where
  "trim_suffix s p = (if has_suffix s p then take (length s - length p) s else s)"

fun str_contains :: "string \<Rightarrow> string \<Rightarrow> bool" where
  "str_contains [] p = (p = [])"
| "str_contains (c # s) p = (has_prefix (c # s) p \<or> str_contains s p)"

text \<open>\<open>strings.Split s sep\<close> for a separator of one character; \<open>strings.Index\<close> for one character.\<close>

fun split_on :: "char \<Rightarrow> string \<Rightarrow> string list" where
  "split_on c [] = [[]]"
| "split_on c (x # xs) =
     (if x = c then [] # split_on c xs
      else (case split_on c xs of [] \<Rightarrow> [[x]] | y # ys \<Rightarrow> (x # y) # ys))"

fun index_of :: "char \<Rightarrow> string \<Rightarrow> nat option" where
  "index_of c [] = None"
| "index_of c (x # xs) = (if x = c then Some 0 else map_option Suc (index_of c xs))"

lemma has_prefix_append [simp, strs_simps]: "has_prefix (p @ s) p"
  by (simp add: has_prefix_def)

lemma has_prefix_iff: "has_prefix s p \<longleftrightarrow> (\<exists>t. s = p @ t)"
  by (metis append_eq_conv_conj append_take_drop_id has_prefix_def)

lemma has_prefix_Nil [simp]: "has_prefix s []"
  by (simp add: has_prefix_def)

lemma has_suffix_append [simp, strs_simps]: "has_suffix (s @ p) p"
  by (simp add: has_suffix_def)

lemma has_suffix_iff: "has_suffix s p \<longleftrightarrow> (\<exists>t. s = t @ p)"
proof
  assume "has_suffix s p"
  then have "s = take (length s - length p) s @ p"
    by (metis append_take_drop_id has_suffix_def)
  then show "\<exists>t. s = t @ p" ..
qed auto

lemma trim_prefix_append [simp, strs_simps]: "trim_prefix (p @ s) p = s"
  by (simp add: trim_prefix_def)

lemma trim_suffix_append [simp, strs_simps]: "trim_suffix (s @ p) p = s"
  by (simp add: trim_suffix_def)

lemma split_on_ne [simp]: "split_on c s \<noteq> []"
  by (induction s) (auto split: list.splits)

lemma split_on_notin: "c \<notin> set s \<Longrightarrow> split_on c s = [s]"
  by (induction s) auto

lemma split_on_append:
  "c \<notin> set s \<Longrightarrow> split_on c (s @ c # t) = s # split_on c t"
  by (induction s) auto

lemma hd_split_on_append: "c \<notin> set s \<Longrightarrow> hd (split_on c (s @ c # t)) = s"
  by (simp add: split_on_append)

lemma split_on_no_sep: "x \<in> set (split_on c s) \<Longrightarrow> c \<notin> set x"
  by (induction s arbitrary: x) (auto split: list.splits if_splits)

lemma index_of_append: "c \<notin> set s \<Longrightarrow> index_of c (s @ c # t) = Some (length s)"
  by (induction s) auto

lemma index_of_None: "index_of c s = None \<longleftrightarrow> c \<notin> set s"
  by (induction s) auto

section \<open>strings.TrimSpace\<close>

text \<open>
  The UTF-8 encodings of the characters \<open>unicode.IsSpace\<close> accepts. A leading (trailing) rune is a
  space exactly when the string starts (ends) with one of these byte sequences.
\<close>

definition space_runes :: "string list" where
  "space_runes =
     [[CHR 0x09], [CHR 0x0A], [CHR 0x0B], [CHR 0x0C], [CHR 0x0D], [CHR 0x20],
      [CHR 0xC2, CHR 0x85], [CHR 0xC2, CHR 0xA0], [CHR 0xE1, CHR 0x9A, CHR 0x80],
      [CHR 0xE2, CHR 0x80, CHR 0x80], [CHR 0xE2, CHR 0x80, CHR 0x81],
      [CHR 0xE2, CHR 0x80, CHR 0x82], [CHR 0xE2, CHR 0x80, CHR 0x83],
      [CHR 0xE2, CHR 0x80, CHR 0x84], [CHR 0xE2, CHR 0x80, CHR 0x85],
      [CHR 0xE2, CHR 0x80, CHR 0x86], [CHR 0xE2, CHR 0x80, CHR 0x87],
      [CHR 0xE2, CHR 0x80, CHR 0x88], [CHR 0xE2, CHR 0x80, CHR 0x89],
      [CHR 0xE2, CHR 0x80, CHR 0x8A], [CHR 0xE2, CHR 0x80, CHR 0xA8],
      [CHR 0xE2, CHR 0x80, CHR 0xA9], [CHR 0xE2, CHR 0x80, CHR 0xAF],
      [CHR 0xE2, CHR 0x81, CHR 0x9F], [CHR 0xE3, CHR 0x80, CHR 0x80]]"

lemma space_runes_ne: "find P space_runes = Some w \<Longrightarrow> w \<noteq> [] \<and> P w"
  by (auto simp: space_runes_def split: if_splits)

function trim_left :: "string \<Rightarrow> string" where
  "trim_left s =
     (case find (has_prefix s) space_runes of
        None \<Rightarrow> s
      | Some w \<Rightarrow> trim_left (drop (length w) s))"
  by pat_completeness auto
termination
proof (relation "measure length")
  fix s w
  assume "find (has_prefix s) space_runes = Some w"
  then have "w \<noteq> []" and "has_prefix s w"
    using space_runes_ne by blast+
  then show "(drop (length w) s, s) \<in> measure length"
    by (auto simp: has_prefix_iff)
qed simp

function trim_right :: "string \<Rightarrow> string" where
  "trim_right s =
     (case find (has_suffix s) space_runes of
        None \<Rightarrow> s
      | Some w \<Rightarrow> trim_right (take (length s - length w) s))"
  by pat_completeness auto
termination
proof (relation "measure length")
  fix s w
  assume "find (has_suffix s) space_runes = Some w"
  then have "w \<noteq> []" and "has_suffix s w"
    using space_runes_ne by blast+
  then show "(take (length s - length w) s, s) \<in> measure length"
    by (auto simp: has_suffix_iff)
qed simp

declare trim_left.simps [simp del] trim_right.simps [simp del]

definition trim_space :: "string \<Rightarrow> string" where
  "trim_space s = trim_right (trim_left s)"

lemma trim_left_stop:
  "\<forall>w \<in> set space_runes. \<not> has_prefix s w \<Longrightarrow> trim_left s = s"
  by (subst trim_left.simps) (simp add: find_None_iff [THEN iffD2])

lemma trim_right_stop:
  "\<forall>w \<in> set space_runes. \<not> has_suffix s w \<Longrightarrow> trim_right s = s"
  by (subst trim_right.simps) (simp add: find_None_iff [THEN iffD2])

text \<open>A non-empty string with no byte that starts or ends a space encoding is left alone.\<close>

definition trim_safe :: "string \<Rightarrow> bool" where
  "trim_safe s \<longleftrightarrow>
     s = [] \<or> (\<forall>w \<in> set space_runes. hd s \<noteq> hd w \<and> last s \<noteq> last w)"

lemma space_runes_nonempty: "w \<in> set space_runes \<Longrightarrow> w \<noteq> []"
  by (auto simp: space_runes_def)

lemma trim_space_safe: "trim_safe s \<Longrightarrow> trim_space s = s"
proof (cases "s = []")
  case True
  have "trim_left [] = []"
    by (rule trim_left_stop) (auto simp: has_prefix_def dest: space_runes_nonempty)
  moreover have "trim_right [] = []"
    by (rule trim_right_stop) (auto simp: has_suffix_def dest: space_runes_nonempty)
  ultimately show ?thesis using True by (simp add: trim_space_def)
next
  case False
  assume "trim_safe s"
  with False have h: "hd s \<noteq> hd w" "last s \<noteq> last w" if "w \<in> set space_runes" for w
    using that by (auto simp: trim_safe_def)
  have "trim_left s = s"
  proof (rule trim_left_stop, rule ballI, rule notI)
    fix w assume w: "w \<in> set space_runes" and "has_prefix s w"
    then obtain t where "s = w @ t" by (auto simp: has_prefix_iff)
    with w h(1) show False by (metis hd_append2 space_runes_nonempty)
  qed
  moreover have "trim_right s = s"
  proof (rule trim_right_stop, rule ballI, rule notI)
    fix w assume w: "w \<in> set space_runes" and "has_suffix s w"
    then obtain t where "s = t @ w" by (auto simp: has_suffix_iff)
    with w h(2) show False by (metis last_appendR space_runes_nonempty)
  qed
  ultimately show ?thesis by (simp add: trim_space_def)
qed

section \<open>Case mapping\<close>

text \<open>
  \<open>strings.ToLower\<close>: ASCII letters, and the two characters outside ASCII whose lower case is an
  ASCII letter (U+0130 and U+212A). Every other character outside ASCII stays outside ASCII; it is
  kept as it is here, since the code only compares the result with ASCII names.
\<close>

definition lower_char :: "char \<Rightarrow> char" where
  "lower_char c =
     (let n = of_char c :: nat in if 65 \<le> n \<and> n \<le> 90 then char_of (n + 32) else c)"

function to_lower :: "string \<Rightarrow> string" where
  "to_lower s =
     (if has_prefix s [CHR 0xC4, CHR 0xB0] then CHR ''i'' # to_lower (drop 2 s)
      else if has_prefix s [CHR 0xE2, CHR 0x84, CHR 0xAA] then CHR ''k'' # to_lower (drop 3 s)
      else case s of [] \<Rightarrow> [] | c # t \<Rightarrow> lower_char c # to_lower t)"
  by pat_completeness auto
termination
  by (relation "measure length") (auto simp: has_prefix_iff)

declare to_lower.simps [simp del]

section \<open>Decimal numbers\<close>

definition digit_val :: "char \<Rightarrow> nat option" where
  "digit_val c = (let n = of_char c :: nat in if 48 \<le> n \<and> n \<le> 57 then Some (n - 48) else None)"

fun parse_digits :: "nat \<Rightarrow> string \<Rightarrow> nat option" where
  "parse_digits acc [] = Some acc"
| "parse_digits acc (c # cs) =
     (case digit_val c of None \<Rightarrow> None | Some d \<Rightarrow> parse_digits (10 * acc + d) cs)"

text \<open>\<open>strconv.Atoi\<close>: an optional sign, at least one digit, only digits, and in the range of int64.\<close>

definition atoi_range :: "int \<Rightarrow> int option" where
  "atoi_range n = (if - (2 ^ 63) \<le> n \<and> n < 2 ^ 63 then Some n else None)"

definition atoi :: "string \<Rightarrow> int option" where
  "atoi s =
     (let neg = (s \<noteq> [] \<and> hd s = CHR ''-'');
          body = (if s \<noteq> [] \<and> (hd s = CHR ''-'' \<or> hd s = CHR ''+'') then tl s else s)
      in if body = [] then None
         else case parse_digits 0 body of
                None \<Rightarrow> None
              | Some n \<Rightarrow> atoi_range (if neg then - int n else int n))"

text \<open>\<open>fmt\<close>'s \<open>%d\<close>.\<close>

fun show_nat :: "nat \<Rightarrow> string" where
  "show_nat n =
     (if n < 10 then [char_of (48 + n)] else show_nat (n div 10) @ [char_of (48 + n mod 10)])"

declare show_nat.simps [simp del]

definition show_int :: "int \<Rightarrow> string" where
  "show_int n = (if n < 0 then CHR ''-'' # show_nat (nat (- n)) else show_nat (nat n))"

lemma digit_val_digit: "d < 10 \<Longrightarrow> digit_val (char_of (48 + d)) = Some d"
  by (auto simp: digit_val_def Let_def take_bit_eq_mod of_char_of mod_less)

lemma parse_digits_append:
  "parse_digits acc (xs @ ys) =
     (case parse_digits acc xs of None \<Rightarrow> None | Some a \<Rightarrow> parse_digits a ys)"
  by (induction xs arbitrary: acc) (auto split: option.splits)

lemma parse_show_nat: "parse_digits 0 (show_nat n) = Some n"
proof (induction n rule: show_nat.induct)
  case (1 n)
  show ?case
  proof (cases "n < 10")
    case True
    then show ?thesis by (simp add: show_nat.simps [of n] digit_val_digit)
  next
    case False
    then have "parse_digits 0 (show_nat n) = Some (10 * (n div 10) + n mod 10)"
      using "1.IH" by (simp add: show_nat.simps [of n] parse_digits_append digit_val_digit)
    then show ?thesis by simp
  qed
qed

lemma show_nat_ne: "show_nat n \<noteq> []"
  by (subst show_nat.simps) simp

lemma show_nat_digits: "c \<in> set (show_nat n) \<Longrightarrow> digit_val c \<noteq> None"
proof (induction n rule: show_nat.induct)
  case (1 n)
  show ?case
  proof (cases "n < 10")
    case True
    with "1.prems" show ?thesis by (simp add: show_nat.simps [of n] digit_val_digit)
  next
    case False
    then show ?thesis
      using "1.prems" "1.IH" by (auto simp: show_nat.simps [of n] digit_val_digit)
  qed
qed

lemma digit_val_minus: "digit_val (CHR ''-'') = None" "digit_val (CHR ''+'') = None"
  by (simp_all add: digit_val_def)

lemma atoi_digits:
  assumes "s \<noteq> []" and "\<forall>c \<in> set s. digit_val c \<noteq> None"
  shows "atoi s = (case parse_digits 0 s of None \<Rightarrow> None | Some n \<Rightarrow> atoi_range (int n))"
proof -
  from assms have "digit_val (hd s) \<noteq> None" by simp
  then have "hd s \<noteq> CHR ''-''" "hd s \<noteq> CHR ''+''"
    by (metis digit_val_minus(1), metis digit_val_minus(2))
  with assms(1) show ?thesis by (simp add: atoi_def split: option.splits)
qed

lemma atoi_show_nat: "int n < 2 ^ 63 \<Longrightarrow> atoi (show_nat n) = Some (int n)"
  using show_nat_digits [of _ n]
  by (simp add: atoi_digits show_nat_ne parse_show_nat atoi_range_def)

section \<open>Paths\<close>

text \<open>
  \<open>filepath.Ext\<close>: from the last dot of the last path element on. The last
  element is what follows the last slash.
\<close>

definition last_elem :: "string \<Rightarrow> string" where
  "last_elem p = rev (takeWhile (\<lambda>c. c \<noteq> CHR ''/'') (rev p))"

definition file_ext :: "string \<Rightarrow> string" where
  "file_ext p =
     (let r = rev (last_elem p); pre = takeWhile (\<lambda>c. c \<noteq> CHR ''.'') r
      in if CHR ''.'' \<in> set r then CHR ''.'' # rev pre else [])"

lemma takeWhile_rev_no_slash: "CHR ''/'' \<notin> set p \<Longrightarrow> takeWhile (\<lambda>c. c \<noteq> CHR ''/'') (rev p) = rev p"
  by (rule takeWhile_eq_all_conv [THEN iffD2]) auto

lemma last_elem_no_slash: "CHR ''/'' \<notin> set p \<Longrightarrow> last_elem p = p"
  by (simp add: last_elem_def takeWhile_rev_no_slash)

lemma last_elem_append: "CHR ''/'' \<notin> set f \<Longrightarrow> last_elem (d @ CHR ''/'' # f) = f"
proof -
  assume f: "CHR ''/'' \<notin> set f"
  then have "takeWhile (\<lambda>c. c \<noteq> CHR ''/'') (rev f @ CHR ''/'' # rev d) = rev f"
    by (subst takeWhile_append2) auto
  then show ?thesis by (simp add: last_elem_def)
qed

section \<open>UTF-8\<close>

text \<open>The encoding of a code point and of a Go string given by its code points.\<close>

definition utf8_char :: "nat \<Rightarrow> string" where
  "utf8_char n =
     (if n < 0x80 then [char_of n]
      else if n < 0x800 then [char_of (0xC0 + n div 0x40), char_of (0x80 + n mod 0x40)]
      else if n < 0x10000 then
        [char_of (0xE0 + n div 0x1000), char_of (0x80 + n div 0x40 mod 0x40), char_of (0x80 + n mod 0x40)]
      else
        [char_of (0xF0 + n div 0x40000), char_of (0x80 + n div 0x1000 mod 0x40),
         char_of (0x80 + n div 0x40 mod 0x40), char_of (0x80 + n mod 0x40)])"

definition utf8 :: "nat list \<Rightarrow> string" where
  "utf8 ns = concat (map utf8_char ns)"

end
