(* ===== verification/Float64.thy ===== *)
theory Float64
  imports Complex_Main "HOL-Library.Log_Nat"
begin

text \<open>
  Rounding a rational to the nearest binary64 (ties to even), as \<open>strconv.ParseFloat\<close> and the
  operations on \<open>float64\<close> do: the mantissa has 53 bits, the least exponent is \<open>- 1074\<close>, and what
  is too large becomes \<open>2 ^ 1024\<close>, which stands for infinity.
\<close>

definition pow2 :: "int \<Rightarrow> rat" where
  "pow2 e = (if 0 \<le> e then 2 ^ nat e else 1 / 2 ^ nat (- e))"

definition half_even :: "rat \<Rightarrow> int" where
  "half_even x =
     (let f = \<lfloor>x\<rfloor>; r = x - of_int f in
      if r < 1 / 2 then f else if 1 / 2 < r then f + 1 else if even f then f else f + 1)"

text \<open>The exponent \<open>e\<close> with \<open>2 ^ e \<le> x < 2 ^ (e + 1)\<close>, for a positive \<open>x\<close>.\<close>

definition exponent2 :: "rat \<Rightarrow> int" where
  "exponent2 x =
     (let (n, d) = quotient_of x; l = bitlen n - bitlen d in if pow2 l \<le> x then l else l - 1)"

definition round64_pos :: "rat \<Rightarrow> rat" where
  "round64_pos x =
     (let e = max (- 1074) (exponent2 x - 52);
          y = of_int (half_even (x / pow2 e)) * pow2 e
      in if 2 ^ 1024 \<le> y then 2 ^ 1024 else y)"

definition round64 :: "rat \<Rightarrow> rat" where
  "round64 q = (if q = 0 then 0 else if 0 < q then round64_pos q else - round64_pos (- q))"

section \<open>Facts\<close>

lemma pow2_pos [simp]: "0 < pow2 e"
  by (simp add: pow2_def)

lemma pow2_powi: "pow2 e = 2 powi e"
  by (simp add: pow2_def power_int_def power_one_over)

lemma pow2_mono: "i \<le> j \<Longrightarrow> pow2 i \<le> pow2 j"
  unfolding pow2_powi by (rule power_int_increasing) simp_all

lemma pow2_strict: "i < j \<Longrightarrow> pow2 i < pow2 j"
  unfolding pow2_powi by (rule power_int_strict_increasing) simp_all

lemma pow2_add: "pow2 (i + j) = pow2 i * pow2 j"
  unfolding pow2_powi by (rule power_int_add) simp

lemma pow2_nonzero [simp]: "pow2 e \<noteq> 0"
  using pow2_pos [of e] by (metis less_irrefl)

lemma half_even_cases:
  "half_even x = \<lfloor>x\<rfloor> \<and> x - of_int \<lfloor>x\<rfloor> \<le> 1 / 2 \<or> half_even x = \<lfloor>x\<rfloor> + 1 \<and> 1 / 2 \<le> x - of_int \<lfloor>x\<rfloor>"
  by (auto simp: half_even_def Let_def)

lemma half_even_bounds: "x - 1 / 2 \<le> of_int (half_even x)" "of_int (half_even x) \<le> x + 1 / 2"
proof -
  have f: "of_int \<lfloor>x\<rfloor> \<le> x" "x < of_int \<lfloor>x\<rfloor> + 1" by linarith+
  show "x - 1 / 2 \<le> of_int (half_even x)"
    using half_even_cases [of x] by (elim disjE conjE; simp; use f in linarith)
  show "of_int (half_even x) \<le> x + 1 / 2"
    using half_even_cases [of x] by (elim disjE conjE; simp; use f in linarith)
qed

lemma half_even_int [simp]: "half_even (of_int n) = n"
  by (simp add: half_even_def)

lemma exponent2_le:
  assumes "0 < x"
  shows "pow2 (exponent2 x) \<le> x"
proof -
  obtain n d where q: "quotient_of x = (n, d)" by force
  have d: "0 < d" using q by (rule quotient_of_denom_pos)
  have x: "x = of_int n / of_int d" using q by (rule quotient_of_div)
  with assms d have n: "0 < n" by (simp add: zero_less_divide_iff)
  let ?l = "bitlen n - bitlen d"
  have "pow2 (?l - 1) \<le> x"
  proof -
    have bn: "2 ^ nat (bitlen n - 1) \<le> n" using bitlen_bounds [OF n] by simp
    have bd: "d < 2 ^ nat (bitlen d)" using bitlen_bounds [OF d] by simp
    have "1 \<le> bitlen n" using n bitlen_nonneg [of n] bitlen_eq_zero_iff [of n] by linarith
    then have "pow2 (bitlen n - 1) = of_int (2 ^ nat (bitlen n - 1))" by (simp add: pow2_def)
    also have "\<dots> \<le> of_int n" using bn by (simp only: of_int_le_iff)
    finally have "pow2 (bitlen n - 1) \<le> of_int n" .
    moreover have "of_int d \<le> pow2 (bitlen d)"
    proof -
      have "of_int d \<le> (of_int (2 ^ nat (bitlen d)) :: rat)" using bd by (simp only: of_int_le_iff)
      then show ?thesis using bitlen_nonneg [of d] by (simp add: pow2_def)
    qed
    moreover have "pow2 (?l - 1) * pow2 (bitlen d) = pow2 (bitlen n - 1)"
      by (simp flip: pow2_add)
    ultimately have "pow2 (?l - 1) * of_int d \<le> of_int n"
      by (metis mult_left_mono order.trans less_imp_le pow2_pos)
    with d show ?thesis by (simp add: x field_simps)
  qed
  then show ?thesis using q by (simp add: exponent2_def Let_def)
qed

text \<open>Rounding a positive number loses at most half of it.\<close>

lemma round64_pos_lower:
  assumes "pow2 (- 1074) \<le> x" "x \<le> 2 ^ 1024"
  shows "x / 2 \<le> round64_pos x"
proof -
  let ?e = "max (- 1074) (exponent2 x - 52)"
  have x: "0 < x" using assms(1) pow2_pos [of "- 1074"] by (rule order.strict_trans2 [rotated])
  have "pow2 (exponent2 x - 52) \<le> x"
    using exponent2_le [OF x] pow2_mono [of "exponent2 x - 52" "exponent2 x"] by simp
  with assms(1) have e: "pow2 ?e \<le> x" by (simp add: max_def)
  let ?m = "x / pow2 ?e"
  have half: "y / 2 \<le> of_int (half_even y)" if "1 \<le> y" for y
    using half_even_bounds(1) [of y] that by (simp; linarith)
  have "1 \<le> ?m" using e by simp
  then have "?m / 2 \<le> of_int (half_even ?m)" by (rule half)
  then have "?m / 2 * pow2 ?e \<le> of_int (half_even ?m) * pow2 ?e"
    by (rule mult_right_mono) (simp add: less_imp_le)
  then have "x / 2 \<le> of_int (half_even ?m) * pow2 ?e" by simp
  moreover have "x / 2 \<le> 2 ^ 1024" using assms(2) x by linarith
  ultimately show ?thesis by (simp add: round64_pos_def Let_def)
qed

lemma round64_pos_upper:
  assumes "pow2 (- 1074) \<le> x"
  shows "round64_pos x \<le> 2 * x"
proof -
  let ?e = "max (- 1074) (exponent2 x - 52)"
  have x: "0 < x" using assms pow2_pos [of "- 1074"] by (rule order.strict_trans2 [rotated])
  have "pow2 (exponent2 x - 52) \<le> x"
    using exponent2_le [OF x] pow2_mono [of "exponent2 x - 52" "exponent2 x"] by simp
  with assms have e: "pow2 ?e \<le> x" by (simp add: max_def)
  let ?m = "x / pow2 ?e"
  have dbl: "of_int (half_even y) \<le> 2 * y" if "1 \<le> y" for y
    using half_even_bounds(2) [of y] that by linarith
  have "1 \<le> ?m" using e by simp
  then have "of_int (half_even ?m) \<le> 2 * ?m" by (rule dbl)
  then have "of_int (half_even ?m) * pow2 ?e \<le> 2 * ?m * pow2 ?e"
    by (rule mult_right_mono) (simp add: less_imp_le)
  then have "of_int (half_even ?m) * pow2 ?e \<le> 2 * x" by simp
  then show ?thesis by (auto simp: round64_pos_def Let_def)
qed

lemma div_pow2: "e \<le> 0 \<Longrightarrow> of_int n / pow2 e = of_int (n * 2 ^ nat (- e))"
  by (cases "e = 0") (simp_all add: pow2_def)

text \<open>An integer of at most 53 bits is a \<open>float64\<close>.\<close>

lemma round64_int:
  assumes "0 \<le> n" "n < 2 ^ 53"
  shows "round64 (of_int n) = of_int n"
proof (cases "n = 0")
  case True
  then show ?thesis by (simp add: round64_def)
next
  case False
  with assms(1) have n: "0 < n" by simp
  let ?x = "of_int n :: rat"
  let ?e = "max (- 1074) (exponent2 ?x - 52)"
  have "pow2 (exponent2 ?x) \<le> ?x" using n by (intro exponent2_le) simp
  also have "?x < of_int (2 ^ 53)" using assms(2) by (simp only: of_int_less_iff)
  also have "of_int (2 ^ 53) = pow2 53" by (simp add: pow2_def)
  finally have "exponent2 ?x < 53" using pow2_mono [of 53 "exponent2 ?x"] by (metis not_le)
  then have "?e \<le> 0" by simp
  then have "?x / pow2 ?e = of_int (n * 2 ^ nat (- ?e))" by (rule div_pow2)
  then have "of_int (half_even (?x / pow2 ?e)) = ?x / pow2 ?e" by (metis half_even_int)
  moreover have "?x < 2 ^ 1024" using \<open>?x < of_int (2 ^ 53)\<close> by simp
  ultimately show ?thesis using n by (simp add: round64_def round64_pos_def Let_def)
qed

section \<open>Rounding is monotone, and exact on what it gives\<close>

lemma exponent2_gt:
  assumes "0 < x"
  shows "x < pow2 (exponent2 x + 1)"
proof -
  obtain n d where q: "quotient_of x = (n, d)" by force
  have d: "0 < d" using q by (rule quotient_of_denom_pos)
  have x: "x = of_int n / of_int d" using q by (rule quotient_of_div)
  with assms d have n: "0 < n" by (simp add: zero_less_divide_iff)
  let ?l = "bitlen n - bitlen d"
  have "x < pow2 (?l + 1)"
  proof -
    have bn: "n < 2 ^ nat (bitlen n)" using bitlen_bounds [OF n] by simp
    have bd: "2 ^ nat (bitlen d - 1) \<le> d" using bitlen_bounds [OF d] by simp
    have "1 \<le> bitlen d" using d bitlen_nonneg [of d] bitlen_eq_zero_iff [of d] by linarith
    then have "pow2 (bitlen d - 1) = of_int (2 ^ nat (bitlen d - 1))" by (simp add: pow2_def)
    also have "\<dots> \<le> of_int d" using bd by (simp only: of_int_le_iff)
    finally have "pow2 (bitlen d - 1) \<le> of_int d" .
    moreover have "of_int n < pow2 (bitlen n)"
    proof -
      have "of_int n < (of_int (2 ^ nat (bitlen n)) :: rat)" using bn by (simp only: of_int_less_iff)
      then show ?thesis using bitlen_nonneg [of n] by (simp add: pow2_def)
    qed
    moreover have "pow2 (?l + 1) * pow2 (bitlen d - 1) = pow2 (bitlen n)"
      by (simp flip: pow2_add)
    ultimately have "of_int n < pow2 (?l + 1) * of_int d"
      by (metis mult_left_mono order.strict_trans2 less_imp_le pow2_pos)
    with d show ?thesis by (simp add: x field_simps)
  qed
  then show ?thesis using q by (auto simp: exponent2_def Let_def not_le)
qed

lemma exponent2_mono: "0 < x \<Longrightarrow> x \<le> y \<Longrightarrow> exponent2 x \<le> exponent2 y"
proof (rule ccontr)
  assume x: "0 < x" "x \<le> y" and "\<not> exponent2 x \<le> exponent2 y"
  then have "pow2 (exponent2 y + 1) \<le> pow2 (exponent2 x)" by (intro pow2_mono) simp
  with exponent2_le [OF x(1)] exponent2_gt [of y] x show False by linarith
qed

lemma half_even_mono: "x \<le> y \<Longrightarrow> half_even x \<le> half_even y"
proof -
  assume le: "x \<le> y"
  then have f: "\<lfloor>x\<rfloor> \<le> \<lfloor>y\<rfloor>" by (rule floor_mono)
  show ?thesis
  proof (cases "\<lfloor>x\<rfloor> = \<lfloor>y\<rfloor>")
    case True
    with le show ?thesis by (auto simp: half_even_def Let_def)
  next
    case False
    with f half_even_cases [of x] half_even_cases [of y] show ?thesis by auto
  qed
qed

text \<open>The exponent of the last bit of the mantissa, and the value before the overflow.\<close>

definition last_bit :: "rat \<Rightarrow> int" where
  "last_bit x = max (- 1074) (exponent2 x - 52)"

definition grid_value :: "rat \<Rightarrow> rat" where
  "grid_value x = of_int (half_even (x / pow2 (last_bit x))) * pow2 (last_bit x)"

lemma round64_pos_grid: "round64_pos x = min (2 ^ 1024) (grid_value x)"
  by (simp add: round64_pos_def grid_value_def last_bit_def Let_def min_def)

lemma mantissa_less:
  assumes "0 < x"
  shows "x / pow2 (last_bit x) < 2 ^ 53"
proof -
  have "x < pow2 (exponent2 x + 1)" by (rule exponent2_gt [OF assms])
  also have "\<dots> \<le> pow2 (53 + last_bit x)" by (rule pow2_mono) (simp add: last_bit_def)
  also have "\<dots> = 2 ^ 53 * pow2 (last_bit x)" unfolding pow2_add by (simp add: pow2_def)
  finally show ?thesis by (simp add: pos_divide_less_eq)
qed

lemma mantissa_bounds:
  assumes "0 < x"
  shows "0 \<le> half_even (x / pow2 (last_bit x))" "half_even (x / pow2 (last_bit x)) \<le> 2 ^ 53"
proof -
  have "half_even (of_int 0) \<le> half_even (x / pow2 (last_bit x))"
    using assms by (intro half_even_mono) (simp add: less_imp_le)
  then show "0 \<le> half_even (x / pow2 (last_bit x))" by (simp only: half_even_int)
  have "half_even (x / pow2 (last_bit x)) \<le> half_even (of_int (2 ^ 53))"
    using mantissa_less [OF assms] by (intro half_even_mono) simp
  then show "half_even (x / pow2 (last_bit x)) \<le> 2 ^ 53" by (simp only: half_even_int)
qed

lemma grid_value_mono:
  assumes "0 < x" "x \<le> y"
  shows "grid_value x \<le> grid_value y"
proof (cases "last_bit x = last_bit y")
  case True
  have "half_even (x / pow2 (last_bit y)) \<le> half_even (y / pow2 (last_bit y))"
    using assms(2) by (intro half_even_mono divide_right_mono) (simp_all add: less_imp_le)
  then show ?thesis by (simp add: grid_value_def True)
next
  case False
  have y: "0 < y" using assms by simp
  from False exponent2_mono [OF assms] have l: "last_bit x < last_bit y" "last_bit y = exponent2 y - 52"
    by (auto simp: last_bit_def)
  have "grid_value x \<le> of_int (2 ^ 53) * pow2 (last_bit x)"
    unfolding grid_value_def using mantissa_bounds(2) [OF assms(1)]
    by (intro mult_right_mono) (simp only: of_int_le_iff, simp add: less_imp_le)
  also have "\<dots> = pow2 (53 + last_bit x)" unfolding pow2_add by (simp add: pow2_def)
  also have "\<dots> \<le> pow2 (52 + last_bit y)" using l(1) by (intro pow2_mono) simp
  also have "\<dots> = of_int (2 ^ 52) * pow2 (last_bit y)" unfolding pow2_add by (simp add: pow2_def)
  also have "\<dots> \<le> grid_value y"
  proof -
    have "pow2 52 * pow2 (last_bit y) \<le> y"
      using exponent2_le [OF y] l(2) by (simp flip: pow2_add)
    then have "of_int (2 ^ 52) \<le> y / pow2 (last_bit y)" by (simp add: pos_le_divide_eq pow2_def [of 52])
    then have "half_even (of_int (2 ^ 52)) \<le> half_even (y / pow2 (last_bit y))" by (rule half_even_mono)
    then have "2 ^ 52 \<le> half_even (y / pow2 (last_bit y))" by (simp only: half_even_int)
    then show ?thesis
      unfolding grid_value_def by (intro mult_right_mono) (simp only: of_int_le_iff, simp add: less_imp_le)
  qed
  finally show ?thesis .
qed

lemma grid_value_nonneg: "0 < x \<Longrightarrow> 0 \<le> grid_value x"
  using mantissa_bounds(1) [of x] by (simp add: grid_value_def less_imp_le)

lemma round64_nonneg: "0 \<le> x \<Longrightarrow> 0 \<le> round64 x"
  using grid_value_nonneg [of x] by (auto simp: round64_def round64_pos_grid)

lemma round64_minus: "round64 (- x) = - round64 x"
  by (simp add: round64_def)

lemma round64_mono:
  assumes "x \<le> y"
  shows "round64 x \<le> round64 y"
proof -
  have pos: "round64 a \<le> round64 b" if "0 < a" "a \<le> b" for a b
    using grid_value_mono [OF that] that by (auto simp: round64_def round64_pos_grid)
  consider "0 < x" | "x \<le> 0" "0 \<le> y" | "y < 0" using assms by linarith
  then show ?thesis
  proof cases
    case 1
    with assms show ?thesis by (rule pos [rotated])
  next
    case 2
    then have "round64 x \<le> 0" using round64_nonneg [of "- x"] by (simp add: round64_minus)
    with 2 round64_nonneg [of y] show ?thesis by linarith
  next
    case 3
    with assms pos [of "- y" "- x"] show ?thesis by (simp add: round64_minus)
  qed
qed

lemma grid_value_exact:
  assumes "0 < m" "m \<le> 2 ^ 53" "- 1074 \<le> e"
  shows "grid_value (of_int m * pow2 e) = of_int m * pow2 e"
proof -
  have exact: "grid_value (of_int m * pow2 e) = of_int m * pow2 e" if m: "0 < m" "m < 2 ^ 53" and e: "- 1074 \<le> e" for m e
  proof -
    let ?x = "of_int m * pow2 e"
    have x: "0 < ?x" using m by simp
    have "of_int m < (of_int (2 ^ 53) :: rat)" using m(2) by (simp only: of_int_less_iff)
    then have "?x < of_int (2 ^ 53) * pow2 e" by (rule mult_strict_right_mono) simp
    also have "\<dots> = pow2 (53 + e)" unfolding pow2_add by (simp add: pow2_def)
    finally have "pow2 (exponent2 ?x) < pow2 (53 + e)" using exponent2_le [OF x] by (rule order.strict_trans1 [rotated])
    then have "exponent2 ?x < 53 + e" using pow2_mono [of "53 + e" "exponent2 ?x"] by (metis not_le)
    with e have l: "last_bit ?x \<le> e" by (simp add: last_bit_def)
    have "?x / pow2 (last_bit ?x) = of_int (m * 2 ^ nat (e - last_bit ?x))"
    proof -
      have "pow2 e = pow2 (e - last_bit ?x) * pow2 (last_bit ?x)" by (simp flip: pow2_add)
      then have "?x / pow2 (last_bit ?x) = of_int m * pow2 (e - last_bit ?x)" by (metis nonzero_mult_div_cancel_right mult.assoc pow2_nonzero)
      with l show ?thesis by (simp add: pow2_def)
    qed
    then have "of_int (half_even (?x / pow2 (last_bit ?x))) = ?x / pow2 (last_bit ?x)" by (metis half_even_int)
    then show ?thesis by (simp add: grid_value_def)
  qed
  show ?thesis
  proof (cases "m = 2 ^ 53")
    case False
    with assms show ?thesis by (intro exact) simp_all
  next
    case True
    have "of_int m * pow2 e = of_int (2 ^ 52) * pow2 (e + 1)" unfolding pow2_add by (simp add: True pow2_def)
    moreover have "grid_value (of_int (2 ^ 52) * pow2 (e + 1)) = of_int (2 ^ 52) * pow2 (e + 1)"
      using assms(3) by (intro exact) simp_all
    ultimately show ?thesis by simp
  qed
qed

lemma round64_simps [simp]: "round64 0 = 0" "round64 1 = 1"
  using round64_int [of 1] by (simp_all add: round64_def)

lemma round64_idem [simp]: "round64 (round64 x) = round64 x"
proof -
  have pos: "round64 (round64_pos x) = round64_pos x" if "0 < x" for x
  proof (cases "grid_value x < 2 ^ 1024")
    case True
    let ?m = "half_even (x / pow2 (last_bit x))"
    have "grid_value (grid_value x) = grid_value x" if "0 < ?m"
      using grid_value_exact [OF that mantissa_bounds(2) [OF \<open>0 < x\<close>], of "last_bit x"]
      by (simp add: grid_value_def [of x] last_bit_def [of x])
    moreover have "?m = 0 \<Longrightarrow> grid_value x = 0" "0 < ?m \<Longrightarrow> 0 < grid_value x" by (simp_all add: grid_value_def)
    ultimately show ?thesis
      using True mantissa_bounds(1) [OF that] by (cases "?m = 0") (simp_all add: round64_def round64_pos_grid)
  next
    case False
    have "(2 :: rat) ^ 1024 = of_int (2 ^ 52) * pow2 972" by (simp add: pow2_def)
    then have "grid_value (2 ^ 1024) = 2 ^ 1024" using grid_value_exact [of "2 ^ 52" 972] by simp
    with False show ?thesis by (simp add: round64_def round64_pos_grid)
  qed
  show ?thesis
    using pos [of x] pos [of "- x"] by (auto simp: round64_def [of x] round64_minus)
qed

section \<open>The error\<close>

text \<open>Half a unit in the last place; \<open>2 ^ (- 1000)\<close> covers the numbers too small for that.\<close>

lemma round64_error:
  assumes "\<bar>x\<bar> \<le> 2 ^ 1000"
  shows "\<bar>round64 x - x\<bar> \<le> \<bar>x\<bar> / 2 ^ 53 + 1 / 2 ^ 1000"
proof -
  have pos: "\<bar>round64_pos x - x\<bar> \<le> x / 2 ^ 53 + 1 / 2 ^ 1000" if x: "0 < x" "x \<le> 2 ^ 1000" for x
  proof -
    let ?e = "last_bit x"
    have "\<bar>of_int (half_even (x / pow2 ?e)) - x / pow2 ?e\<bar> \<le> 1 / 2"
      using half_even_bounds [of "x / pow2 ?e"] by linarith
    then have "\<bar>of_int (half_even (x / pow2 ?e)) - x / pow2 ?e\<bar> * pow2 ?e \<le> 1 / 2 * pow2 ?e"
      by (rule mult_right_mono) (simp add: less_imp_le)
    moreover have "\<bar>of_int (half_even (x / pow2 ?e)) - x / pow2 ?e\<bar> * pow2 ?e = \<bar>grid_value x - x\<bar>"
    proof -
      have "(of_int (half_even (x / pow2 ?e)) - x / pow2 ?e) * pow2 ?e = grid_value x - x"
        by (simp add: grid_value_def left_diff_distrib)
      then show ?thesis by (simp add: abs_mult_pos less_imp_le)
    qed
    ultimately have g: "\<bar>grid_value x - x\<bar> \<le> pow2 ?e / 2" by simp
    have "pow2 (exponent2 x - 52) * pow2 52 = pow2 (exponent2 x)" by (simp flip: pow2_add)
    then have "pow2 (exponent2 x - 52) * 2 ^ 52 \<le> x" using exponent2_le [OF x(1)] by (simp add: pow2_def [of 52])
    then have "pow2 (exponent2 x - 52) \<le> x / 2 ^ 52" by (simp add: pos_le_divide_eq)
    moreover have "pow2 (- 1074) \<le> 1 / 2 ^ 1000" by (simp add: pow2_def)
    moreover have "0 \<le> x / 2 ^ 52" "0 \<le> (1 :: rat) / 2 ^ 1000" using x(1) by simp_all
    ultimately have "pow2 ?e \<le> x / 2 ^ 52 + 1 / 2 ^ 1000" unfolding last_bit_def by (auto simp: max_def)
    with g have err: "\<bar>grid_value x - x\<bar> \<le> x / 2 ^ 53 + 1 / 2 ^ 1000" by simp
    have "x / 2 ^ 53 \<le> 2 ^ 1000" using x by (simp add: divide_le_eq)
    with err x(2) have "grid_value x \<le> 2 ^ 1000 + 2 ^ 1000 + 1" by (simp add: abs_le_iff) 
    also have "\<dots> \<le> 2 ^ 1024" by simp
    finally have "round64_pos x = grid_value x" by (simp add: round64_pos_grid)
    with err show ?thesis by simp
  qed
  consider "0 < x" | "x = 0" | "x < 0" by linarith
  then show ?thesis
  proof cases
    case 1
    with assms pos [of x] show ?thesis by (simp add: round64_def)
  next
    case 2
    then show ?thesis by simp
  next
    case 3
    with assms pos [of "- x"] show ?thesis by (simp add: round64_def abs_minus_commute)
  qed
qed

end
