(* ===== verification/Json.thy ===== *)
theory Json
  imports GoLib "HOL-Library.AList"
begin

text \<open>
  JSON values and what \<open>encoding/json\<close> does with them when it fills a Go value: a string field, a
  struct, a slice of structs, a \<open>map[string]interface{}\<close>.

  A \<open>json\<close> is a parsed text: the members of an object stand in the order of the text and may repeat
  a key. A number is its binary64 value, a rational. A decoding function takes the old Go value and
  returns the new one with a flag that says that \<open>Decode\<close> reports an \<open>UnmarshalTypeError\<close>:
  the decoder goes on after such an error and fills what fits.
\<close>

datatype json =
    JNull
  | JBool bool
  | JNum rat
  | JStr string
  | JArr "json list"
  | JObj "(string \<times> json) list"

text \<open>
  A Go \<open>map[string]interface{}\<close> is an association list with distinct keys, in the order in which a
  \<open>range\<close> loop happens to visit it (\<open>None\<close> for the \<open>nil\<close> map).
\<close>

type_synonym gomap = "(string \<times> json) list"

definition wf_gomap :: "gomap \<Rightarrow> bool" where
  "wf_gomap m \<longleftrightarrow> distinct (map fst m)"

text \<open>The value that decoding into an \<open>interface{}\<close> gives: the last of equal keys wins.\<close>

fun put_all :: "gomap \<Rightarrow> (string \<times> json) list \<Rightarrow> gomap" where
  "put_all m [] = m"
| "put_all m ((k, v) # kvs) = put_all (AList.update k v m) kvs"

fun to_iface :: "json \<Rightarrow> json" where
  "to_iface (JArr js) = JArr (map to_iface js)"
| "to_iface (JObj kvs) = JObj (put_all [] (map (\<lambda>(k, v). (k, to_iface v)) kvs))"
| "to_iface (JNum q) = (if \<bar>q\<bar> < 2 ^ 1024 then JNum q else JNull)"
| "to_iface j = j"

text \<open>A number too large for a \<open>float64\<close> is such an error, and the value is \<open>nil\<close>.\<close>

fun num_overflow :: "json \<Rightarrow> bool" where
  "num_overflow (JArr js) = list_ex num_overflow js"
| "num_overflow (JObj kvs) = list_ex (\<lambda>(k, v). num_overflow v) kvs"
| "num_overflow (JNum q) = (2 ^ 1024 \<le> \<bar>q\<bar>)"
| "num_overflow j = False"

text \<open>PostgreSQL stores no NUL character, neither in \<open>text\<close> nor in a string of a \<open>jsonb\<close>.\<close>

definition no_nul :: "string \<Rightarrow> bool" where
  "no_nul s \<longleftrightarrow> CHR 0x00 \<notin> set s"

fun json_no_nul :: "json \<Rightarrow> bool" where
  "json_no_nul (JStr s) = no_nul s"
| "json_no_nul (JArr js) = list_all json_no_nul js"
| "json_no_nul (JObj kvs) = list_all (\<lambda>(k, v). no_nul k \<and> json_no_nul v) kvs"
| "json_no_nul j = True"

section \<open>Field names\<close>

text \<open>
  A member of the text goes to the field with exactly its name, else to the one with the same name up
  to case. The folding maps ASCII letters to upper case, and so it does with the two characters
  outside ASCII that fold to an ASCII letter (U+017F, U+212A).
\<close>

definition upper_char :: "char \<Rightarrow> char" where
  "upper_char c =
     (let n = of_char c :: nat in if 97 \<le> n \<and> n \<le> 122 then char_of (n - 32) else c)"

function fold_name :: "string \<Rightarrow> string" where
  "fold_name s =
     (if has_prefix s [CHR 0xC5, CHR 0xBF] then CHR ''S'' # fold_name (drop 2 s)
      else if has_prefix s [CHR 0xE2, CHR 0x84, CHR 0xAA] then CHR ''K'' # fold_name (drop 3 s)
      else case s of [] \<Rightarrow> [] | c # t \<Rightarrow> upper_char c # fold_name t)"
  by pat_completeness auto
termination
  by (relation "measure length") (auto simp: has_prefix_iff)

declare fold_name.simps [simp del]

type_synonym 'a field = "string \<times> (json \<Rightarrow> 'a \<Rightarrow> 'a \<times> bool)"

definition find_field :: "'a field list \<Rightarrow> string \<Rightarrow> 'a field option" where
  "find_field fs k =
     (case find (\<lambda>f. fst f = k) fs of
        Some f \<Rightarrow> Some f
      | None \<Rightarrow> find (\<lambda>f. fold_name (fst f) = fold_name k) fs)"

section \<open>Decoding\<close>

definition decode_string :: "json \<Rightarrow> string \<Rightarrow> string \<times> bool" where
  "decode_string j old =
     (case j of JStr s \<Rightarrow> (s, False) | JNull \<Rightarrow> (old, False) | _ \<Rightarrow> (old, True))"

text \<open>A string field of a record, from its selector and its update.\<close>

definition string_field ::
  "string \<Rightarrow> ('a \<Rightarrow> string) \<Rightarrow> ((string \<Rightarrow> string) \<Rightarrow> 'a \<Rightarrow> 'a) \<Rightarrow> 'a field" where
  "string_field name sel upd =
     (name, \<lambda>j r. (let (s, e) = decode_string j (sel r) in (upd (\<lambda>_. s) r, e)))"

fun decode_members :: "'a field list \<Rightarrow> (string \<times> json) list \<Rightarrow> 'a \<Rightarrow> 'a \<times> bool" where
  "decode_members fs [] r = (r, False)"
| "decode_members fs ((k, j) # kvs) r =
     (let (r1, e1) = (case find_field fs k of None \<Rightarrow> (r, False) | Some f \<Rightarrow> snd f j r);
          (r2, e2) = decode_members fs kvs r1
      in (r2, e1 \<or> e2))"

definition decode_struct :: "'a field list \<Rightarrow> json \<Rightarrow> 'a \<Rightarrow> 'a \<times> bool" where
  "decode_struct fs j r =
     (case j of JObj kvs \<Rightarrow> decode_members fs kvs r | JNull \<Rightarrow> (r, False) | _ \<Rightarrow> (r, True))"

fun decode_elems ::
  "(json \<Rightarrow> 'a \<Rightarrow> 'a \<times> bool) \<Rightarrow> 'a \<Rightarrow> 'a list \<Rightarrow> json list \<Rightarrow> 'a list \<times> bool" where
  "decode_elems dec zero xs [] = ([], False)"
| "decode_elems dec zero xs (j # js) =
     (let (v, e) = dec j (case xs of [] \<Rightarrow> zero | x # _ \<Rightarrow> x);
          (vs, e') = decode_elems dec zero (tl xs) js
      in (v # vs, e \<or> e'))"

definition decode_slice ::
  "(json \<Rightarrow> 'a \<Rightarrow> 'a \<times> bool) \<Rightarrow> 'a \<Rightarrow> json \<Rightarrow> 'a list option \<Rightarrow> 'a list option \<times> bool" where
  "decode_slice dec zero j old =
     (case j of
        JArr js \<Rightarrow>
          (let (vs, e) = decode_elems dec zero (case old of None \<Rightarrow> [] | Some xs \<Rightarrow> xs) js
           in (Some vs, e))
      | JNull \<Rightarrow> (None, False)
      | _ \<Rightarrow> (old, True))"

definition decode_map :: "json \<Rightarrow> gomap option \<Rightarrow> gomap option \<times> bool" where
  "decode_map j old =
     (case j of
        JObj kvs \<Rightarrow>
          (Some (put_all (case old of None \<Rightarrow> [] | Some m \<Rightarrow> m)
             (map (\<lambda>(k, v). (k, to_iface v)) kvs)), list_ex (\<lambda>(k, v). num_overflow v) kvs)
      | JNull \<Rightarrow> (None, False)
      | _ \<Rightarrow> (old, True))"

text \<open>A \<open>nil\<close> map is written as \<open>null\<close>, a \<open>nil\<close> slice too.\<close>

definition json_of_map :: "gomap option \<Rightarrow> json" where
  "json_of_map m = (case m of None \<Rightarrow> JNull | Some kvs \<Rightarrow> JObj kvs)"

definition json_of_slice :: "('a \<Rightarrow> json) \<Rightarrow> 'a list option \<Rightarrow> json" where
  "json_of_slice f xs = (case xs of None \<Rightarrow> JNull | Some ys \<Rightarrow> JArr (map f ys))"

section \<open>Facts\<close>

lemma distinct_put_all: "distinct (map fst m) \<Longrightarrow> distinct (map fst (put_all m kvs))"
  by (induction m kvs rule: put_all.induct) (auto intro: distinct_update)

lemma wf_decode_map: "fst (decode_map (JObj kvs) None) = Some m \<Longrightarrow> wf_gomap m"
  by (auto simp: decode_map_def wf_gomap_def intro: distinct_put_all)

lemma put_all_fresh:
  "distinct (map fst (m @ kvs)) \<Longrightarrow> put_all m kvs = m @ kvs"
proof (induction kvs arbitrary: m)
  case Nil
  then show ?case by simp
next
  case (Cons p kvs)
  obtain k v where p: "p = (k, v)" by force
  with Cons.prems have "AList.update k v m = m @ [(k, v)]"
    by (induction m) auto
  with Cons.prems p Cons.IH [of "m @ [(k, v)]"] show ?case by simp
qed

lemma json_no_nul_put_all:
  assumes "list_all (\<lambda>(k, v). no_nul k \<and> json_no_nul v) m"
    and "list_all (\<lambda>(k, v). no_nul k \<and> json_no_nul v) kvs"
  shows "list_all (\<lambda>(k, v). no_nul k \<and> json_no_nul v) (put_all m kvs)"
  using assms
proof (induction m kvs rule: put_all.induct)
  case (2 m k v kvs)
  then have "list_all (\<lambda>(k, v). no_nul k \<and> json_no_nul v) (AList.update k v m)"
    by (induction m) auto
  with 2 show ?case by simp
qed simp

end
