(* ===== verification/JsonText.thy ===== *)
theory JsonText
  imports Json Float64
begin

text \<open>
  The JSON texts of Go's \<open>encoding/json\<close>: the scanner and the literals, up to a value of type \<open>json\<close>.
  \<open>json_first\<close> is what a \<open>Decoder\<close> takes from a stream (the first value; what follows is not looked at),
  \<open>json_whole\<close> what \<open>json.Unmarshal\<close> accepts (one value and white space around it).

  A number is its nearest binary64; one that is too large for a \<open>float64\<close> stands as \<open>2 ^ 1024\<close> or
  \<open>- (2 ^ 1024)\<close>. The sign of a zero is not kept.
\<close>

section \<open>Numbers\<close>

definition is_digit :: "char \<Rightarrow> bool" where
  "is_digit c \<longleftrightarrow> digit_val c \<noteq> None"

definition digits_val :: "string \<Rightarrow> nat" where
  "digits_val ds = (case parse_digits 0 ds of None \<Rightarrow> 0 | Some n \<Rightarrow> n)"

text \<open>A number at the start of a text: integer part, fraction, exponent, each with at least one digit.\<close>

definition scan_digits :: "string \<Rightarrow> string \<times> string" where
  "scan_digits s = (takeWhile is_digit s, dropWhile is_digit s)"

definition scan_int :: "string \<Rightarrow> (string \<times> string) option" where
  "scan_int s =
     (case scan_digits s of
        ([], _) \<Rightarrow> None
      | (d # ds, r) \<Rightarrow> Some (if d = CHR ''0'' then ([d], tl s) else (d # ds, r)))"

definition scan_frac :: "string \<Rightarrow> (string \<times> string) option" where
  "scan_frac s =
     (if s \<noteq> [] \<and> hd s = CHR ''.''
      then (let (ds, r) = scan_digits (tl s) in if ds = [] then None else Some (ds, r))
      else Some ([], s))"

definition scan_exp :: "string \<Rightarrow> (int \<times> string) option" where
  "scan_exp s =
     (if s \<noteq> [] \<and> (hd s = CHR ''e'' \<or> hd s = CHR ''E'')
      then (let t = tl s;
                neg = (t \<noteq> [] \<and> hd t = CHR ''-'');
                u = (if t \<noteq> [] \<and> (hd t = CHR ''-'' \<or> hd t = CHR ''+'') then tl t else t);
                (ds, r) = scan_digits u
            in if ds = [] then None
               else Some (if neg then - int (digits_val ds) else int (digits_val ds), r))
      else Some (0, s))"

definition pow10 :: "int \<Rightarrow> rat" where
  "pow10 e = (if 0 \<le> e then 10 ^ nat e else 1 / 10 ^ nat (- e))"

definition scan_unsigned :: "string \<Rightarrow> (rat \<times> string) option" where
  "scan_unsigned s =
     (case scan_int s of
        None \<Rightarrow> None
      | Some (ds, s1) \<Rightarrow>
          (case scan_frac s1 of
             None \<Rightarrow> None
           | Some (fs, s2) \<Rightarrow>
               (case scan_exp s2 of
                  None \<Rightarrow> None
                | Some (e, s3) \<Rightarrow>
                    Some (of_nat (digits_val (ds @ fs)) * pow10 (e - int (length fs)), s3))))"

definition scan_number :: "string \<Rightarrow> (json \<times> string) option" where
  "scan_number s =
     (if s \<noteq> [] \<and> hd s = CHR ''-''
      then map_option (\<lambda>(m, r). (JNum (round64 (- m)), r)) (scan_unsigned (tl s))
      else map_option (\<lambda>(m, r). (JNum (round64 m), r)) (scan_unsigned s))"

section \<open>Strings\<close>

definition byte :: "char \<Rightarrow> nat" where
  "byte c = of_char c"

definition cont_byte :: "string \<Rightarrow> nat \<Rightarrow> nat \<Rightarrow> nat \<Rightarrow> bool" where
  "cont_byte s i lo hi \<longleftrightarrow> i < length s \<and> lo \<le> byte (s ! i) \<and> byte (s ! i) \<le> hi"

text \<open>The length of the UTF-8 encoding of a character at the start of a string, 0 when there is none.\<close>

definition rune_len :: "string \<Rightarrow> nat" where
  "rune_len s =
     (if s = [] then 0
      else let b = byte (hd s) in
        if b < 0x80 then 1
        else if 0xC2 \<le> b \<and> b \<le> 0xDF then (if cont_byte s 1 0x80 0xBF then 2 else 0)
        else if 0xE0 \<le> b \<and> b \<le> 0xEF then
          (if cont_byte s 1 (if b = 0xE0 then 0xA0 else 0x80) (if b = 0xED then 0x9F else 0xBF) \<and>
              cont_byte s 2 0x80 0xBF then 3 else 0)
        else if 0xF0 \<le> b \<and> b \<le> 0xF4 then
          (if cont_byte s 1 (if b = 0xF0 then 0x90 else 0x80) (if b = 0xF4 then 0x8F else 0xBF) \<and>
              cont_byte s 2 0x80 0xBF \<and> cont_byte s 3 0x80 0xBF then 4 else 0)
        else 0)"

text \<open>A text that is UTF-8 throughout.\<close>

function valid_utf8 :: "string \<Rightarrow> bool" where
  "valid_utf8 [] = True"
| "valid_utf8 (c # t) = (let n = rune_len (c # t) in if n = 0 then False else valid_utf8 (drop n (c # t)))"
  by pat_completeness auto
termination
  by (relation "measure length") simp_all

declare valid_utf8.simps(2) [simp del]

lemma rune_len_ascii: "byte c < 0x80 \<Longrightarrow> rune_len (c # t) = 1"
  by (simp add: rune_len_def)

lemma valid_utf8_ascii: "byte c < 0x80 \<Longrightarrow> valid_utf8 (c # t) = valid_utf8 t"
  by (simp add: valid_utf8.simps(2) rune_len_ascii)

lemma byte_char_of: "byte (char_of n) = n mod 256"
  by (simp add: byte_def)

lemma byte_char_of_less: "n < 256 \<Longrightarrow> byte (char_of n) = n"
  unfolding byte_char_of by (rule mod_less)

text \<open>The encoding of a code point that is no surrogate is one character.\<close>

definition scalar :: "nat \<Rightarrow> bool" where
  "scalar n \<longleftrightarrow> n < 0xD800 \<or> 0xDFFF < n \<and> n < 0x110000"

lemma rune_len_utf8_char:
  assumes "scalar n"
  shows "rune_len (utf8_char n @ t) = length (utf8_char n)"
proof -
  have parts: "(m div 0x1000 * 0x40 + m div 0x40 mod 0x40) * 0x40 + m mod 0x40 = m" for m :: nat
  proof -
    have "m div 0x1000 = m div 0x40 div 0x40" by (simp add: div_mult2_eq [symmetric])
    then show ?thesis by (simp only: div_mult_mod_eq)
  qed
  consider "n < 0x80" | "0x80 \<le> n" "n < 0x800" | "0x800 \<le> n" "n < 0x10000" | "0x10000 \<le> n" "n < 0x110000"
    using assms unfolding scalar_def by fastforce
  then show ?thesis
  proof cases
    case 1
    then show ?thesis by (simp add: utf8_char_def rune_len_ascii byte_char_of)
  next
    case 2
    define a b where "a = n div 0x40" and "b = n mod 0x40"
    have u: "utf8_char n = [char_of (0xC0 + a), char_of (0x80 + b)]"
      using 2 by (simp add: utf8_char_def a_def b_def)
    have "2 \<le> a" "a < 0x20" "b < 0x40" using 2 by (simp_all add: a_def b_def)
    moreover from this have "byte (char_of (0xC0 + a)) = 0xC0 + a" "byte (char_of (0x80 + b)) = 0x80 + b"
      by (auto intro: byte_char_of_less)
    ultimately show ?thesis unfolding u by (simp add: rune_len_def cont_byte_def)
  next
    case 3
    define a b c where "a = n div 0x1000" and "b = n div 0x40 mod 0x40" and "c = n mod 0x40"
    have u: "utf8_char n = [char_of (0xE0 + a), char_of (0x80 + b), char_of (0x80 + c)]"
      using 3 by (simp add: utf8_char_def a_def b_def c_def)
    have n: "n = (a * 0x40 + b) * 0x40 + c" "a < 0x10" "b < 0x40" "c < 0x40"
      using 3 parts [of n] by (simp_all add: a_def b_def c_def)
    have z: "0x20 \<le> b" if "a = 0"
      using n(1,4) 3(1) that by simp
    have y: "b < 0x20" if "a = 0xD"
    proof (rule ccontr)
      assume "\<not> b < 0x20"
      with n(1,3,4) have "0xD800 \<le> n" "n \<le> 0xDFFF" using that by simp_all
      with assms show False by (simp add: scalar_def)
    qed
    have "byte (char_of (0xE0 + a)) = 0xE0 + a" "byte (char_of (0x80 + b)) = 0x80 + b"
      "byte (char_of (0x80 + c)) = 0x80 + c"
      using n(2-4) by (auto intro: byte_char_of_less)
    with n(2-4) z y show ?thesis unfolding u by (auto simp: rune_len_def cont_byte_def)
  next
    case 4
    define a b c d where "a = n div 0x40000" and "b = n div 0x1000 mod 0x40" and "c = n div 0x40 mod 0x40"
      and "d = n mod 0x40"
    have u: "utf8_char n = [char_of (0xF0 + a), char_of (0x80 + b), char_of (0x80 + c), char_of (0x80 + d)]"
      using 4 by (simp add: utf8_char_def a_def b_def c_def d_def)
    have n: "n = ((a * 0x40 + b) * 0x40 + c) * 0x40 + d" "b < 0x40" "c < 0x40" "d < 0x40"
      using parts [of n] parts [of "n div 0x40"] by (simp_all add: a_def b_def c_def d_def div_mult2_eq [symmetric])
    have y: "a < 5" using n 4 by simp
    have z: "0x10 \<le> b" if "a = 0" using n 4 that by simp
    have w: "b < 0x10" if "a = 4" using n 4 that by simp
    have "byte (char_of (0xF0 + a)) = 0xF0 + a" "byte (char_of (0x80 + b)) = 0x80 + b"
      "byte (char_of (0x80 + c)) = 0x80 + c" "byte (char_of (0x80 + d)) = 0x80 + d"
      using n(2-4) y by (auto intro: byte_char_of_less)
    with n(2-4) y z w show ?thesis unfolding u by (auto simp: rune_len_def cont_byte_def)
  qed
qed

lemma valid_utf8_char: "scalar n \<Longrightarrow> valid_utf8 (utf8_char n @ t) = valid_utf8 t"
proof -
  assume n: "scalar n"
  obtain c u where u: "utf8_char n = c # u" by (cases "utf8_char n") (auto simp: utf8_char_def split: if_splits)
  with rune_len_utf8_char [OF n, of t] show ?thesis by (simp add: valid_utf8.simps(2))
qed

lemma valid_utf8_utf8: "list_all scalar ns \<Longrightarrow> valid_utf8 (utf8 ns @ t) = valid_utf8 t"
  by (induction ns) (simp_all add: utf8_def valid_utf8_char)

definition hex_val :: "char \<Rightarrow> nat option" where
  "hex_val c =
     (let n = byte c in
      if 48 \<le> n \<and> n \<le> 57 then Some (n - 48)
      else if 65 \<le> n \<and> n \<le> 70 then Some (n - 55)
      else if 97 \<le> n \<and> n \<le> 102 then Some (n - 87)
      else None)"

text \<open>Four hexadecimal digits after \<open>u\<close>.\<close>

definition hex4 :: "string \<Rightarrow> nat option" where
  "hex4 s =
     (if length s < 4 then None
      else case those (map hex_val (take 4 s)) of
        Some [a, b, c, d] \<Rightarrow> Some (((a * 16 + b) * 16 + c) * 16 + d)
      | _ \<Rightarrow> None)"

definition replacement :: string where
  "replacement = utf8 [0xFFFD]"

text \<open>
  An escape after the backslash: the bytes it stands for and the rest. A surrogate is combined with the
  escape after it when the two form a pair, else it stands for U+FFFD.
\<close>

definition unescape :: "string \<Rightarrow> (string \<times> string) option" where
  "unescape t =
     (if t = [] then None
      else let c = hd t; r = tl t in
        if c = CHR 0x22 \<or> c = CHR 0x5C \<or> c = CHR 0x2F then Some ([c], r)
        else if c = CHR ''b'' then Some ([CHR 0x08], r)
        else if c = CHR ''f'' then Some ([CHR 0x0C], r)
        else if c = CHR ''n'' then Some ([CHR 0x0A], r)
        else if c = CHR ''r'' then Some ([CHR 0x0D], r)
        else if c = CHR ''t'' then Some ([CHR 0x09], r)
        else if c = CHR ''u'' then
          (case hex4 r of
             None \<Rightarrow> None
           | Some u \<Rightarrow>
               (let r1 = drop 4 r in
                if u < 0xD800 \<or> 0xDFFF < u then Some (utf8_char u, r1)
                else if u < 0xDC00 \<and> has_prefix r1 [CHR 0x5C, CHR ''u''] then
                  (case hex4 (drop 2 r1) of
                     None \<Rightarrow> Some (replacement, r1)
                   | Some v \<Rightarrow>
                       if 0xDC00 \<le> v \<and> v \<le> 0xDFFF
                       then Some (utf8_char (0x10000 + (u - 0xD800) * 0x400 + (v - 0xDC00)), drop 6 r1)
                       else Some (replacement, r1))
                else Some (replacement, r1)))
        else None)"

lemma unescape_shorter: "unescape t = Some (u, r) \<Longrightarrow> length r < length t"
  by (cases t)
    (auto simp: unescape_def Let_def hex4_def split: if_splits option.splits list.splits)

definition cons_str :: "string \<Rightarrow> (string \<times> string) option \<Rightarrow> (string \<times> string) option" where
  "cons_str u q = (case q of None \<Rightarrow> None | Some (s, r) \<Rightarrow> Some (u @ s, r))"

text \<open>The text after an opening quote: the value of the string and what follows the closing quote.\<close>

function scan_string :: "string \<Rightarrow> (string \<times> string) option" where
  "scan_string s =
     (case s of
        [] \<Rightarrow> None
      | c # t \<Rightarrow>
          if c = CHR 0x22 then Some ([], t)
          else if c = CHR 0x5C then
            (case unescape t of None \<Rightarrow> None | Some (u, r) \<Rightarrow> cons_str u (scan_string r))
          else if byte c < 0x20 then None
          else if rune_len s = 0 then cons_str replacement (scan_string t)
          else cons_str (take (rune_len s) s) (scan_string (drop (rune_len s) s)))"
  by pat_completeness auto
termination
  by (relation "measure length") (auto dest: unescape_shorter)

declare scan_string.simps [simp del]

lemma scan_string_shorter: "scan_string s = Some (u, r) \<Longrightarrow> length r < length s"
proof (induction s arbitrary: u r rule: measure_induct_rule [of length])
  case (less s)
  have *: "length r' < length s"
    if "scan_string t' = Some (u', r')" "length t' < length s" for t' u' r'
    using less.IH [OF that(2,1)] that(2) by simp
  show ?case
  proof (cases s)
    case Nil
    with less.prems show ?thesis by (simp add: scan_string.simps)
  next
    case (Cons c t)
    from less.prems show ?thesis
      by (subst (asm) scan_string.simps)
        (auto simp: Cons cons_str_def split: if_splits option.splits dest!: unescape_shorter
          intro: * [unfolded Cons, simplified] * [unfolded Cons, simplified, OF _ less_SucI])
  qed
qed

section \<open>Tokens and values\<close>

datatype token = TLBrace | TRBrace | TLBrack | TRBrack | TComma | TColon | TLit json

definition is_ws :: "char \<Rightarrow> bool" where
  "is_ws c \<longleftrightarrow> c = CHR 0x20 \<or> c = CHR 0x09 \<or> c = CHR 0x0A \<or> c = CHR 0x0D"

definition scan_word :: "string \<Rightarrow> json \<Rightarrow> string \<Rightarrow> (token \<times> string) option" where
  "scan_word w v s = (if has_prefix s w then Some (TLit v, drop (length w) s) else None)"

definition scan_token :: "string \<Rightarrow> (token \<times> string) option" where
  "scan_token s0 =
     (let s = dropWhile is_ws s0 in
      if s = [] then None
      else let c = hd s; t = tl s in
        if c = CHR ''{'' then Some (TLBrace, t)
        else if c = CHR ''}'' then Some (TRBrace, t)
        else if c = CHR ''['' then Some (TLBrack, t)
        else if c = CHR '']'' then Some (TRBrack, t)
        else if c = CHR '','' then Some (TComma, t)
        else if c = CHR '':'' then Some (TColon, t)
        else if c = CHR 0x22 then
          (case scan_string t of None \<Rightarrow> None | Some (u, r) \<Rightarrow> Some (TLit (JStr u), r))
        else if c = CHR ''t'' then scan_word ''true'' (JBool True) s
        else if c = CHR ''f'' then scan_word ''false'' (JBool False) s
        else if c = CHR ''n'' then scan_word ''null'' JNull s
        else (case scan_number s of None \<Rightarrow> None | Some (v, r) \<Rightarrow> Some (TLit v, r)))"

text \<open>
  The stack of open arrays and objects (with their elements so far, latest first; \<open>FMem\<close> is an object
  that waits for the value of a key), and what is expected next. The scanner allows 10000 open
  arrays and objects.
\<close>

datatype frame =
    FArr "json list"
  | FObj "(string \<times> json) list"
  | FMem "(string \<times> json) list" string

datatype expect = EValue | EValueOrEnd | EKey | EKeyOrEnd | EColon string | EDone json

definition begin_value :: "token \<Rightarrow> frame list \<Rightarrow> (frame list \<times> expect) option" where
  "begin_value tk fs =
     (case tk of
        TLit v \<Rightarrow> Some (fs, EDone v)
      | TLBrack \<Rightarrow> if length fs < 10000 then Some (FArr [] # fs, EValueOrEnd) else None
      | TLBrace \<Rightarrow> if length fs < 10000 then Some (FObj [] # fs, EKeyOrEnd) else None
      | _ \<Rightarrow> None)"

definition begin_key :: "token \<Rightarrow> frame list \<Rightarrow> (frame list \<times> expect) option" where
  "begin_key tk fs = (case tk of TLit (JStr k) \<Rightarrow> Some (fs, EColon k) | _ \<Rightarrow> None)"

definition after_value :: "token \<Rightarrow> frame list \<Rightarrow> json \<Rightarrow> (frame list \<times> expect) option" where
  "after_value tk fs v =
     (case (tk, fs) of
        (TComma, FArr vs # fs') \<Rightarrow> Some (FArr (v # vs) # fs', EValue)
      | (TRBrack, FArr vs # fs') \<Rightarrow> Some (fs', EDone (JArr (rev (v # vs))))
      | (TComma, FMem kvs k # fs') \<Rightarrow> Some (FObj ((k, v) # kvs) # fs', EKey)
      | (TRBrace, FMem kvs k # fs') \<Rightarrow> Some (fs', EDone (JObj (rev ((k, v) # kvs))))
      | _ \<Rightarrow> None)"

definition parse_step :: "token \<Rightarrow> frame list \<Rightarrow> expect \<Rightarrow> (frame list \<times> expect) option" where
  "parse_step tk fs st =
     (case st of
        EValue \<Rightarrow> begin_value tk fs
      | EValueOrEnd \<Rightarrow>
          (if tk = TRBrack then Some (tl fs, EDone (JArr [])) else begin_value tk fs)
      | EKey \<Rightarrow> begin_key tk fs
      | EKeyOrEnd \<Rightarrow>
          (if tk = TRBrace then Some (tl fs, EDone (JObj [])) else begin_key tk fs)
      | EColon k \<Rightarrow>
          (case (tk, fs) of
             (TColon, FObj kvs # fs') \<Rightarrow> Some (FMem kvs k # fs', EValue)
           | _ \<Rightarrow> None)
      | EDone v \<Rightarrow> after_value tk fs v)"

lemma scan_digits_length: "scan_digits s = (ds, r) \<Longrightarrow> length ds + length r = length s"
  by (auto simp: scan_digits_def simp flip: length_append)

lemma scan_int_shorter: "scan_int s = Some (ds, r) \<Longrightarrow> length r < length s"
proof -
  assume i: "scan_int s = Some (ds, r)"
  obtain xs q where sd: "scan_digits s = (xs, q)" by force
  with i have "xs \<noteq> []" by (auto simp: scan_int_def)
  then have "0 < length xs" by simp
  with scan_digits_length [OF sd] have "length q < length s" by linarith
  moreover from this have "s \<noteq> []" by auto
  ultimately have "length q < length s" "s \<noteq> []" by auto
  with i sd show ?thesis by (auto simp: scan_int_def split: list.splits if_splits)
qed

lemma scan_unsigned_shorter: "scan_unsigned s = Some (m, r) \<Longrightarrow> length r < length s"
proof -
  assume "scan_unsigned s = Some (m, r)"
  then obtain ds s1 fs s2 e where i: "scan_int s = Some (ds, s1)"
    and f: "scan_frac s1 = Some (fs, s2)" and e: "scan_exp s2 = Some (e, r)"
    by (auto simp: scan_unsigned_def split: option.splits)
  have "length s2 \<le> length s1"
    using f by (auto simp: scan_frac_def Let_def split: prod.splits if_splits dest!: scan_digits_length)
  moreover have "length r \<le> length s2"
    using e by (auto simp: scan_exp_def Let_def split: prod.splits if_splits dest!: scan_digits_length)
  ultimately show ?thesis using scan_int_shorter [OF i] by simp
qed

lemma scan_number_shorter: "scan_number s = Some (v, r) \<Longrightarrow> length r < length s"
  by (cases s) (auto simp: scan_number_def split: if_splits dest!: scan_unsigned_shorter)

lemma scan_word_shorter: "scan_word w v s = Some (tk, r) \<Longrightarrow> w \<noteq> [] \<Longrightarrow> length r < length s"
  by (auto simp: scan_word_def has_prefix_iff split: if_splits)

lemma scan_token_shorter: "scan_token s = Some (tk, r) \<Longrightarrow> length r < length s"
proof -
  assume t: "scan_token s = Some (tk, r)"
  have "length (dropWhile is_ws s) \<le> length s" by (rule length_dropWhile_le)
  moreover have "length r < length (dropWhile is_ws s)"
    using t by (cases "dropWhile is_ws s")
      (auto simp: scan_token_def Let_def split: if_splits option.splits
        dest: scan_string_shorter scan_number_shorter scan_word_shorter)
  ultimately show ?thesis by simp
qed

function parse_loop :: "frame list \<Rightarrow> expect \<Rightarrow> string \<Rightarrow> (json \<times> string) option" where
  "parse_loop fs st s =
     (case (fs, st) of
        ([], EDone v) \<Rightarrow> Some (v, s)
      | _ \<Rightarrow>
          (case scan_token s of
             None \<Rightarrow> None
           | Some (tk, r) \<Rightarrow>
               (case parse_step tk fs st of
                  None \<Rightarrow> None
                | Some (fs', st') \<Rightarrow> parse_loop fs' st' r)))"
  by pat_completeness auto
termination
  by (relation "measure (\<lambda>(fs, st, s). length s)") (auto dest: scan_token_shorter)

declare parse_loop.simps [simp del]

definition json_first :: "string \<Rightarrow> json option" where
  "json_first s = map_option fst (parse_loop [] EValue s)"

definition json_whole :: "string \<Rightarrow> json option" where
  "json_whole s =
     (case parse_loop [] EValue s of
        None \<Rightarrow> None
      | Some (v, r) \<Rightarrow> if list_all is_ws r then Some v else None)"

end
