(* ===== verification/Sql.thy ===== *)
theory Sql
  imports JsonText
begin

text \<open>
  The database as the server uses it: the tables of \<open>migrations/0001_init.up.sql\<close>, the statements the
  Go code sends, and \<open>database/sql\<close> with the PostgreSQL driver on top of them (single
  statements, transactions, queries).

  A statement of the code is a value of type \<open>stmt\<close>; its effect on the tables is \<open>exec_stmt\<close>. The
  connection may fail at every call: the server state carries a script of faults, one for each call,
  and every theorem that quantifies over server states quantifies over all the ways the database can
  fail. The \<open>id SERIAL\<close> columns are left out: no statement names them and PostgreSQL fills them.
\<close>

section \<open>Tables\<close>

datatype sqltype = TInt | TText | TJsonb

datatype sqlval = VInt int | VText string | VJson json

type_synonym sqlrow = "(string \<times> sqlval) list"

record column =
  col_name :: string
  col_type :: sqltype
  col_default :: "sqlval option"

text \<open>\<open>td_key\<close> is the primary key a statement can violate; \<open>td_single\<close> is \<open>CHECK (id = 1)\<close>.\<close>

record table_def =
  td_cols :: "column list"
  td_key :: "string option"
  td_single :: bool

abbreviation text_col :: "string \<Rightarrow> column" where
  "text_col n \<equiv> \<lparr>col_name = n, col_type = TText, col_default = None\<rparr>"

abbreviation text_col_default :: "string \<Rightarrow> string \<Rightarrow> column" where
  "text_col_default n d \<equiv> \<lparr>col_name = n, col_type = TText, col_default = Some (VText d)\<rparr>"

abbreviation int_col :: "string \<Rightarrow> column" where
  "int_col n \<equiv> \<lparr>col_name = n, col_type = TInt, col_default = None\<rparr>"

abbreviation jsonb_col :: "string \<Rightarrow> column" where
  "jsonb_col n \<equiv> \<lparr>col_name = n, col_type = TJsonb, col_default = Some (VJson (JObj []))\<rparr>"

abbreviation singleton_table :: "column list \<Rightarrow> table_def" where
  "singleton_table cs \<equiv> \<lparr>td_cols = int_col ''id'' # cs, td_key = Some ''id'', td_single = True\<rparr>"

abbreviation list_table_def :: "column list \<Rightarrow> table_def" where
  "list_table_def cs \<equiv>
     \<lparr>td_cols = cs @ [int_col ''sort_order''], td_key = None, td_single = False\<rparr>"

definition schema :: "(string \<times> table_def) list" where
  "schema =
     [(''site'', singleton_table
         [text_col_default ''company_name'' ''NexLog Global'',
          text_col_default ''tagline'' ''Connecting the World, Delivering Excellence'']),
      (''admin_password'', singleton_table [text_col ''hash'']),
      (''hero_slides'', list_table_def
         [text_col ''title'', text_col ''subtitle'', text_col ''image'',
          text_col_default ''button_text'' ''Explore'',
          text_col_default ''button_link'' ''#contact'']),
      (''stats'', list_table_def [text_col ''icon'', text_col ''value'', text_col ''label'']),
      (''about'', singleton_table
         [text_col_default ''title'' ''About Us'', text_col_default ''description'' [],
          text_col_default ''image'' []]),
      (''services'', list_table_def
         [text_col ''title'', text_col ''description'', text_col ''icon'', text_col ''image'']),
      (''news'', list_table_def
         [text_col ''title'', text_col ''date'', text_col ''excerpt'', text_col ''image'']),
      (''partners'', list_table_def [text_col ''name'', text_col ''logo'']),
      (''contact'', singleton_table
         [text_col_default ''address'' [], text_col_default ''phone'' [],
          text_col_default ''email'' [], text_col_default ''whatsapp'' []]),
      (''languages'',
         \<lparr>td_cols = [text_col ''code'', jsonb_col ''data'', text_col ''flag'', text_col ''name''],
          td_key = Some ''code'', td_single = False\<rparr>),
      (''sidepanel'', singleton_table [jsonb_col ''config''])]"

type_synonym db = "string \<rightharpoonup> sqlrow list"

definition empty_db :: db where
  "empty_db t = (case map_of schema t of None \<Rightarrow> None | Some _ \<Rightarrow> Some [])"

section \<open>Statements\<close>

text \<open>
  \<open>Insert t vs ignore\<close> is \<open>INSERT INTO t (...) VALUES (...)\<close>, with \<open>ON CONFLICT DO NOTHING\<close> when
  \<open>ignore\<close> is set; \<open>UpdateId1 t vs\<close> is \<open>UPDATE t SET ... WHERE id = 1\<close>.
\<close>

datatype stmt =
    Insert string sqlrow bool
  | DeleteAll string
  | UpdateId1 string sqlrow

text \<open>
  A \<open>text\<close> is UTF-8 and has no NUL character. A \<open>jsonb\<close> comes from \<open>json.Marshal\<close>, which writes UTF-8, and
  may have no NUL in its strings. \<open>sort_order\<close> and \<open>id\<close> are 32-bit integers.
\<close>

definition text_ok :: "string \<Rightarrow> bool" where
  "text_ok s \<longleftrightarrow> no_nul s \<and> valid_utf8 s"

fun value_ok :: "sqltype \<Rightarrow> sqlval \<Rightarrow> bool" where
  "value_ok TInt (VInt i) = (- (2 ^ 31) \<le> i \<and> i < 2 ^ 31)"
| "value_ok TText (VText s) = text_ok s"
| "value_ok TJsonb (VJson j) = json_no_nul j"
| "value_ok _ _ = False"

definition col_type_of :: "table_def \<Rightarrow> string \<Rightarrow> sqltype option" where
  "col_type_of td c = map_of (map (\<lambda>k. (col_name k, col_type k)) (td_cols td)) c"

text \<open>The values an \<open>INSERT\<close> or \<open>UPDATE\<close> names go to columns of the table and fit their types.\<close>

definition assigns_ok :: "table_def \<Rightarrow> sqlrow \<Rightarrow> bool" where
  "assigns_ok td vs \<longleftrightarrow>
     list_all (\<lambda>(c, v). case col_type_of td c of None \<Rightarrow> False | Some ty \<Rightarrow> value_ok ty v) vs"

text \<open>A column that is not named gets its default; with no default it is null, which no column allows.\<close>

definition complete_row :: "table_def \<Rightarrow> sqlrow \<Rightarrow> sqlrow option" where
  "complete_row td vs =
     those (map (\<lambda>c. map_option (Pair (col_name c))
        (case map_of vs (col_name c) of Some v \<Rightarrow> Some v | None \<Rightarrow> col_default c)) (td_cols td))"

definition key_taken :: "table_def \<Rightarrow> sqlrow list \<Rightarrow> sqlrow \<Rightarrow> bool" where
  "key_taken td rows r =
     (case td_key td of
        None \<Rightarrow> False
      | Some k \<Rightarrow> list_ex (\<lambda>r'. map_of r' k = map_of r k) rows)"

definition set_cols :: "sqlrow \<Rightarrow> sqlrow \<Rightarrow> sqlrow" where
  "set_cols vs r = map (\<lambda>(c, v). (c, case map_of vs c of Some v' \<Rightarrow> v' | None \<Rightarrow> v)) r"

definition update_id1 :: "sqlrow \<Rightarrow> sqlrow list \<Rightarrow> sqlrow list" where
  "update_id1 vs rows =
     map (\<lambda>r. if map_of r ''id'' = Some (VInt 1) then set_cols vs r else r) rows"

definition exec_insert ::
  "string \<Rightarrow> table_def \<Rightarrow> sqlrow list \<Rightarrow> sqlrow \<Rightarrow> bool \<Rightarrow> db \<Rightarrow> goerr + db" where
  "exec_insert t td rows vs ignore d =
     (if \<not> assigns_ok td vs then Inl (ErrDriver ''pq: invalid value'')
      else case complete_row td vs of
        None \<Rightarrow> Inl (ErrDriver ''pq: null value violates not-null constraint'')
      | Some r \<Rightarrow>
          if td_single td \<and> map_of r ''id'' \<noteq> Some (VInt 1)
          then Inl (ErrDriver ''pq: new row violates check constraint'')
          else if key_taken td rows r
          then (if ignore then Inr d
                else Inl (ErrDriver ''pq: duplicate key value violates unique constraint''))
          else Inr (d(t \<mapsto> rows @ [r])))"

definition exec_update ::
  "string \<Rightarrow> table_def \<Rightarrow> sqlrow list \<Rightarrow> sqlrow \<Rightarrow> db \<Rightarrow> goerr + db" where
  "exec_update t td rows vs d =
     (if \<not> td_single td then Inl (ErrDriver ''pq: column id does not exist'')
      else if \<not> assigns_ok td vs then Inl (ErrDriver ''pq: invalid value'')
      else if list_ex (\<lambda>(c, v). c = ''id'' \<and> v \<noteq> VInt 1) vs
      then Inl (ErrDriver ''pq: new row violates check constraint'')
      else Inr (d(t \<mapsto> update_id1 vs rows)))"

fun stmt_table :: "stmt \<Rightarrow> string" where
  "stmt_table (Insert t vs ignore) = t"
| "stmt_table (DeleteAll t) = t"
| "stmt_table (UpdateId1 t vs) = t"

definition exec_stmt :: "stmt \<Rightarrow> db \<Rightarrow> goerr + db" where
  "exec_stmt st d =
     (let t = stmt_table st in
      case (map_of schema t, d t) of
        (Some td, Some rows) \<Rightarrow>
          (case st of
             Insert _ vs ignore \<Rightarrow> exec_insert t td rows vs ignore d
           | DeleteAll _ \<Rightarrow> Inr (d(t \<mapsto> []))
           | UpdateId1 _ vs \<Rightarrow> exec_update t td rows vs d)
      | _ \<Rightarrow> Inl (ErrDriver ''pq: relation does not exist''))"

text \<open>
  Queries: the columns of the rows with a given value in a column (all rows for \<open>None\<close>), in the
  order of an integer column where one is given.
\<close>

definition order_key :: "string \<Rightarrow> sqlrow \<Rightarrow> int" where
  "order_key c r = (case map_of r c of Some (VInt i) \<Rightarrow> i | _ \<Rightarrow> 0)"

definition where_rows :: "(string \<times> sqlval) option \<Rightarrow> sqlrow list \<Rightarrow> sqlrow list" where
  "where_rows w rows =
     (case w of None \<Rightarrow> rows | Some (c, v) \<Rightarrow> filter (\<lambda>r. map_of r c = Some v) rows)"

definition project :: "string list \<Rightarrow> sqlrow \<Rightarrow> sqlval list option" where
  "project cols r = those (map (map_of r) cols)"

definition select_rows ::
  "string \<Rightarrow> string list \<Rightarrow> (string \<times> sqlval) option \<Rightarrow> string option \<Rightarrow> db
     \<Rightarrow> goerr + sqlval list list" where
  "select_rows t cols w ord d =
     (case d t of
        None \<Rightarrow> Inl (ErrDriver ''pq: relation does not exist'')
      | Some rows \<Rightarrow>
          (let rs = where_rows w rows;
               rs = (case ord of None \<Rightarrow> rs | Some c \<Rightarrow> sort_key (order_key c) rs)
           in case those (map (project cols) rs) of
                None \<Rightarrow> Inl (ErrDriver ''pq: column does not exist'')
              | Some vs \<Rightarrow> Inr vs))"

section \<open>The connection\<close>

text \<open>
  What can happen to one call: it succeeds (\<open>Fine\<close>), it fails without effect (\<open>Refused\<close>), it takes
  effect but the reply is lost, so the client sees an error (\<open>LostReply\<close>), or, for a query, the rows
  break off after the first \<open>n\<close> (\<open>CutAfter\<close>).
\<close>

datatype fault = Fine | Refused string | LostReply string | CutAfter nat string

text \<open>
  The state around the tables: the script of faults, the time each call takes (in nanoseconds; none
  when the script is empty), the clock, and the deadline of the current context.
\<close>

record server =
  committed :: db
  faults :: "fault list"
  delays :: "nat list"
  clock :: int
  deadline :: "int option"

text \<open>
  A call whose context has passed its deadline is not sent: \<open>database/sql\<close> looks at the context before it
  takes a connection and before it commits. A call that has been sent returns when the database answers,
  also after the deadline: the driver only asks the database to cancel it, from a goroutine of its own
  (\<open>vendor/github.com/lib/pq/conn.go\<close>, \<open>watchCancel\<close>), and goes on reading. The script says how that ends,
  and how long it takes.
\<close>

definition next_fault :: "server \<Rightarrow> fault \<times> server" where
  "next_fault s =
     (let f = (case faults s of [] \<Rightarrow> Fine | g # _ \<Rightarrow> g);
          t = clock s + (case delays s of [] \<Rightarrow> 0 | d # _ \<Rightarrow> int d);
          s1 = s\<lparr>faults := tl (faults s), delays := tl (delays s)\<rparr>
      in if (case deadline s of None \<Rightarrow> False | Some b \<Rightarrow> b < clock s)
         then (Refused ''context deadline exceeded'', s1)
         else (f, s1\<lparr>clock := t\<rparr>))"

text \<open>\<open>context.WithTimeout(ctx, d)\<close> around a function, with its deferred \<open>cancel()\<close>.\<close>

definition with_timeout :: "int \<Rightarrow> (server \<Rightarrow> 'r \<times> server) \<Rightarrow> server \<Rightarrow> 'r \<times> server" where
  "with_timeout d f s =
     (let b = clock s + d;
          (r, s1) = f (s\<lparr>deadline := Some (case deadline s of None \<Rightarrow> b | Some b0 \<Rightarrow> min b0 b)\<rparr>)
      in (r, s1\<lparr>deadline := deadline s\<rparr>))"

text \<open>A server whose calls all succeed at once.\<close>

definition healthy :: "server \<Rightarrow> bool" where
  "healthy s \<longleftrightarrow>
     faults s = [] \<and> delays s = [] \<and> (case deadline s of None \<Rightarrow> True | Some b \<Rightarrow> clock s \<le> b)"

fun fault_text :: "fault \<Rightarrow> string" where
  "fault_text Fine = []"
| "fault_text (Refused m) = m"
| "fault_text (LostReply m) = m"
| "fault_text (CutAfter n m) = m"

text \<open>\<open>db.ExecContext\<close> outside a transaction: the statement is its own transaction.\<close>

definition db_exec :: "stmt \<Rightarrow> server \<Rightarrow> goerr option \<times> server" where
  "db_exec st s =
     (let (f, s1) = next_fault s in
      case f of
        Fine \<Rightarrow>
          (case exec_stmt st (committed s1) of
             Inl e \<Rightarrow> (Some e, s1)
           | Inr d \<Rightarrow> (None, s1\<lparr>committed := d\<rparr>))
      | LostReply m \<Rightarrow>
          (case exec_stmt st (committed s1) of
             Inl e \<Rightarrow> (Some (ErrDriver m), s1)
           | Inr d \<Rightarrow> (Some (ErrDriver m), s1\<lparr>committed := d\<rparr>))
      | _ \<Rightarrow> (Some (ErrDriver (fault_text f)), s1))"

text \<open>
  \<open>db.QueryContext\<close> with the loop over \<open>rows.Next\<close>: the rows that arrive and what \<open>rows.Err\<close> says
  after them, or the error of the query itself.
\<close>

definition db_query ::
  "string \<Rightarrow> string list \<Rightarrow> (string \<times> sqlval) option \<Rightarrow> string option \<Rightarrow> server
     \<Rightarrow> (goerr + sqlval list list \<times> goerr option) \<times> server" where
  "db_query t cols w ord s =
     (let (f, s1) = next_fault s in
      case f of
        Fine \<Rightarrow>
          (case select_rows t cols w ord (committed s1) of
             Inl e \<Rightarrow> (Inl e, s1)
           | Inr vs \<Rightarrow> (Inr (vs, None), s1))
      | CutAfter n m \<Rightarrow>
          (case select_rows t cols w ord (committed s1) of
             Inl e \<Rightarrow> (Inl e, s1)
           | Inr vs \<Rightarrow> (Inr (take n vs, Some (ErrDriver m)), s1))
      | _ \<Rightarrow> (Inl (ErrDriver (fault_text f)), s1))"

text \<open>
  \<open>db.QueryRowContext(...).Scan\<close>: the first row, which is scanned, and then what \<open>rows.Close\<close> says, which
  \<open>Scan\<close> returns; or the error in place of a row.
\<close>

definition db_query_row ::
  "string \<Rightarrow> string list \<Rightarrow> (string \<times> sqlval) option \<Rightarrow> server
     \<Rightarrow> (goerr + sqlval list \<times> goerr option) \<times> server" where
  "db_query_row t cols w s =
     (let (r, s1) = db_query t cols w None s in
      case r of
        Inl e \<Rightarrow> (Inl e, s1)
      | Inr (v # _, err) \<Rightarrow> (Inr (v, err), s1)
      | Inr ([], Some e) \<Rightarrow> (Inl e, s1)
      | Inr ([], None) \<Rightarrow> (Inl ErrNoRows, s1))"

text \<open>\<open>SELECT COUNT(*) FROM t\<close>, with an optional condition, scanned into an \<open>int\<close>.\<close>

definition db_count ::
  "string \<Rightarrow> (string \<times> sqlval) option \<Rightarrow> server \<Rightarrow> (goerr + nat) \<times> server" where
  "db_count t w s =
     (let (f, s1) = next_fault s in
      case f of
        Fine \<Rightarrow>
          (case committed s1 t of
             None \<Rightarrow> (Inl (ErrDriver ''pq: relation does not exist''), s1)
           | Some rows \<Rightarrow> (Inr (length (where_rows w rows)), s1))
      | _ \<Rightarrow> (Inl (ErrDriver (fault_text f)), s1))"

section \<open>Transactions\<close>

text \<open>
  A transaction works on its own copy of the tables. PostgreSQL aborts it at the first statement
  that fails: later statements fail too, and \<open>Commit\<close> of an aborted transaction rolls it back and
  returns \<open>ErrInFailedTransaction\<close> (\<open>vendor/github.com/lib/pq/conn.go\<close>, \<open>Commit\<close>). A failure of the
  connection inside a transaction leaves nothing to commit either. Leaving the function without
  \<open>Commit\<close> runs the deferred \<open>tx.Rollback()\<close>, which drops the copy.
\<close>

record tx =
  work :: db
  aborted :: bool

definition db_begin :: "server \<Rightarrow> (goerr + tx) \<times> server" where
  "db_begin s =
     (let (f, s1) = next_fault s in
      case f of
        Fine \<Rightarrow> (Inr \<lparr>work = committed s1, aborted = False\<rparr>, s1)
      | _ \<Rightarrow> (Inl (ErrDriver (fault_text f)), s1))"

definition tx_exec :: "stmt \<Rightarrow> tx \<Rightarrow> server \<Rightarrow> goerr option \<times> tx \<times> server" where
  "tx_exec st t s =
     (let (f, s1) = next_fault s in
      if aborted t then (Some ErrInFailedTransaction, t, s1)
      else case f of
        Fine \<Rightarrow>
          (case exec_stmt st (work t) of
             Inl e \<Rightarrow> (Some e, t\<lparr>aborted := True\<rparr>, s1)
           | Inr d \<Rightarrow> (None, t\<lparr>work := d\<rparr>, s1))
      | _ \<Rightarrow> (Some (ErrDriver (fault_text f)), t\<lparr>aborted := True\<rparr>, s1))"

definition tx_commit :: "tx \<Rightarrow> server \<Rightarrow> goerr option \<times> server" where
  "tx_commit t s =
     (let (f, s1) = next_fault s in
      if aborted t then (Some ErrInFailedTransaction, s1)
      else case f of
        Fine \<Rightarrow> (None, s1\<lparr>committed := work t\<rparr>)
      | LostReply m \<Rightarrow> (Some (ErrDriver m), s1\<lparr>committed := work t\<rparr>)
      | _ \<Rightarrow> (Some (ErrDriver (fault_text f)), s1))"

text \<open>
  The \<open>ROLLBACK\<close> of the deferred \<open>tx.Rollback()\<close>, when the function left with the transaction open: one more
  call, whose result is dropped. After the deadline it is not sent either, since the driver has marked the
  connection as bad by then (\<open>cn.err\<close>). Only \<open>UpdateHeroSlides\<close> leaves so with a deadline running.
\<close>

definition tx_rollback :: "server \<Rightarrow> server" where
  "tx_rollback s = snd (next_fault s)"

text \<open>Statements whose errors the caller drops, run one after the other.\<close>

fun tx_exec_all :: "stmt list \<Rightarrow> tx \<Rightarrow> server \<Rightarrow> tx \<times> server" where
  "tx_exec_all [] t s = (t, s)"
| "tx_exec_all (st # sts) t s =
     (case tx_exec st t s of (_, t1, s1) \<Rightarrow> tx_exec_all sts t1 s1)"

text \<open>The effect of a sequence of statements when none of them fails.\<close>

fun exec_stmts :: "stmt list \<Rightarrow> db \<Rightarrow> goerr + db" where
  "exec_stmts [] d = Inr d"
| "exec_stmts (st # sts) d =
     (case exec_stmt st d of Inl e \<Rightarrow> Inl e | Inr d1 \<Rightarrow> exec_stmts sts d1)"

section \<open>Facts about the connection\<close>

lemma next_fault_committed [db_simps]: "next_fault s = (f, s1) \<Longrightarrow> committed s1 = committed s"
  by (auto simp: next_fault_def Let_def split: option.splits if_splits)

lemma next_fault_fine [db_simps]: "healthy s \<Longrightarrow> next_fault s = (Fine, s)"
  by (cases s) (auto simp: next_fault_def healthy_def split: option.splits)

lemma tx_rollback_committed [simp]: "committed (tx_rollback s) = committed s"
  by (auto simp: tx_rollback_def next_fault_def Let_def)

lemma tx_rollback_fine [simp]: "healthy s \<Longrightarrow> tx_rollback s = s"
  by (simp add: tx_rollback_def next_fault_fine)

lemma healthy_committed [simp]: "healthy (s\<lparr>committed := d\<rparr>) = healthy s"
  by (auto simp: healthy_def split: option.splits)

text \<open>A query never changes the tables, and neither does anything before a commit.\<close>

lemma db_query_committed [db_simps]: "db_query t cols w ord s = (r, s1) \<Longrightarrow> committed s1 = committed s"
  by (auto simp: db_query_def next_fault_committed split: prod.splits fault.splits sum.splits)

lemma db_query_row_committed [db_simps]: "db_query_row t cols w s = (r, s1) \<Longrightarrow> committed s1 = committed s"
  by (auto simp: db_query_row_def split: prod.splits sum.splits list.splits option.splits
      dest!: db_query_committed)

lemma db_count_committed [db_simps]: "db_count t w s = (r, s1) \<Longrightarrow> committed s1 = committed s"
  by (auto simp: db_count_def next_fault_committed split: prod.splits fault.splits option.splits)

lemma db_begin_committed: "db_begin s = (r, s1) \<Longrightarrow> committed s1 = committed s"
  by (auto simp: db_begin_def next_fault_committed split: prod.splits fault.splits)

lemma db_begin_work: "db_begin s = (Inr t, s1) \<Longrightarrow> t = \<lparr>work = committed s, aborted = False\<rparr>"
  by (auto simp: db_begin_def next_fault_committed split: prod.splits fault.splits)

lemma tx_exec_committed: "tx_exec st t s = (e, t1, s1) \<Longrightarrow> committed s1 = committed s"
  by (auto simp: tx_exec_def next_fault_committed split: prod.splits fault.splits sum.splits if_splits)

lemma tx_exec_ok:
  "tx_exec st t s = (None, t1, s1) \<Longrightarrow>
     \<not> aborted t \<and> \<not> aborted t1 \<and> exec_stmt st (work t) = Inr (work t1)"
  by (auto simp: tx_exec_def split: prod.splits fault.splits sum.splits if_splits)

lemma tx_exec_bad: "tx_exec st t s = (Some e, t1, s1) \<Longrightarrow> aborted t1"
  by (auto simp: tx_exec_def split: prod.splits fault.splits sum.splits if_splits)

lemma tx_exec_aborted: "tx_exec st t s = (e, t1, s1) \<Longrightarrow> aborted t \<Longrightarrow> aborted t1"
  by (auto simp: tx_exec_def split: prod.splits)

lemma tx_exec_all_committed: "tx_exec_all sts t s = (t1, s1) \<Longrightarrow> committed s1 = committed s"
  by (induction sts arbitrary: t s) (auto split: prod.splits dest!: tx_exec_committed)

lemma tx_exec_all_aborted: "tx_exec_all sts t s = (t1, s1) \<Longrightarrow> aborted t \<Longrightarrow> aborted t1"
  by (induction sts arbitrary: t s) (auto split: prod.splits dest: tx_exec_aborted)

text \<open>
  The key to the functions that drop the errors of their statements: unless the transaction ends
  aborted, every statement has taken effect.
\<close>

lemma tx_exec_all_ok:
  "tx_exec_all sts t s = (t1, s1) \<Longrightarrow> \<not> aborted t1 \<Longrightarrow> exec_stmts sts (work t) = Inr (work t1)"
proof (induction sts arbitrary: t s)
  case Nil
  then show ?case by simp
next
  case (Cons st sts)
  obtain e t2 s2 where st: "tx_exec st t s = (e, t2, s2)" by (cases "tx_exec st t s") auto
  with Cons.prems(1) have rest: "tx_exec_all sts t2 s2 = (t1, s1)" by simp
  with Cons.prems(2) have "\<not> aborted t2" by (blast dest: tx_exec_all_aborted)
  with st have "e = None" by (cases e) (auto dest: tx_exec_bad)
  with st have "exec_stmt st (work t) = Inr (work t2)" by (auto dest: tx_exec_ok)
  with Cons.IH [OF rest Cons.prems(2)] show ?case by simp
qed

lemma tx_commit_ok:
  "tx_commit t s = (None, s1) \<Longrightarrow> \<not> aborted t \<and> committed s1 = work t"
  by (auto simp: tx_commit_def split: prod.splits fault.splits if_splits)

lemma tx_commit_bad:
  "tx_commit t s = (Some e, s1) \<Longrightarrow>
     committed s1 = committed s \<or> \<not> aborted t \<and> committed s1 = work t"
  by (auto simp: tx_commit_def next_fault_committed split: prod.splits fault.splits if_splits)

lemma db_exec_ok: "db_exec st s = (None, s1) \<Longrightarrow> exec_stmt st (committed s) = Inr (committed s1)"
  by (auto simp: db_exec_def next_fault_committed split: prod.splits fault.splits sum.splits)

lemma db_exec_bad:
  "db_exec st s = (Some e, s1) \<Longrightarrow>
     committed s1 = committed s \<or> exec_stmt st (committed s) = Inr (committed s1)"
  by (auto simp: db_exec_def next_fault_committed split: prod.splits fault.splits sum.splits)

lemmas committed_simps =
  next_fault_committed db_query_committed db_query_row_committed db_count_committed
  db_begin_committed tx_exec_committed tx_exec_all_committed

text \<open>Without faults every call does what the tables allow.\<close>

lemma tx_exec_fine:
  "healthy s \<Longrightarrow> \<not> aborted t \<Longrightarrow> exec_stmt st (work t) = Inr d \<Longrightarrow>
     tx_exec st t s = (None, t\<lparr>work := d\<rparr>, s)"
  by (simp add: tx_exec_def next_fault_fine)

lemma tx_exec_all_fine:
  "healthy s \<Longrightarrow> \<not> aborted t \<Longrightarrow> exec_stmts sts (work t) = Inr d \<Longrightarrow>
     tx_exec_all sts t s = (t\<lparr>work := d\<rparr>, s)"
proof (induction sts arbitrary: t)
  case Nil
  then show ?case by simp
next
  case (Cons st sts)
  then obtain d1 where d1: "exec_stmt st (work t) = Inr d1" "exec_stmts sts d1 = Inr d"
    by (auto split: sum.splits)
  with Cons.prems have "tx_exec st t s = (None, t\<lparr>work := d1\<rparr>, s)" by (simp add: tx_exec_fine)
  with Cons.IH [of "t\<lparr>work := d1\<rparr>"] Cons.prems d1 show ?case by simp
qed

lemma db_begin_fine: "healthy s \<Longrightarrow> db_begin s = (Inr \<lparr>work = committed s, aborted = False\<rparr>, s)"
  by (simp add: db_begin_def next_fault_fine)

lemma tx_commit_fine: "healthy s \<Longrightarrow> \<not> aborted t \<Longrightarrow> tx_commit t s = (None, s\<lparr>committed := work t\<rparr>)"
  by (simp add: tx_commit_def next_fault_fine)

lemma exec_stmts_append:
  "exec_stmts (xs @ ys) d = (case exec_stmts xs d of Inl e \<Rightarrow> Inl e | Inr d1 \<Rightarrow> exec_stmts ys d1)"
  by (induction xs arbitrary: d) (auto split: sum.splits)

end
