(* ===== verification/Paths.thy ===== *)
theory Paths
  imports GoLib
begin

text \<open>
  The functions of Go's packages \<open>path\<close> and \<open>path/filepath\<close> that the server calls (on Unix, where both clean a
  path in the same way).
\<close>

definition join_with :: "char \<Rightarrow> string list \<Rightarrow> string" where
  "join_with c ss = (case ss of [] \<Rightarrow> [] | s # r \<Rightarrow> s @ concat (map (Cons c) r))"

lemma join_with_simps [simp]:
  "join_with c [s] = s" "join_with c (s # t # ss) = s @ c # join_with c (t # ss)"
  by (simp_all add: join_with_def)

text \<open>\<open>path.Clean\<close> (and \<open>filepath.Clean\<close>, on Unix).\<close>

definition clean_step :: "bool \<Rightarrow> string list \<Rightarrow> string \<Rightarrow> string list" where
  "clean_step rooted out seg =
     (if seg = [] \<or> seg = ''.'' then out
      else if seg = ''..'' then
        (if out \<noteq> [] \<and> last out \<noteq> ''..'' then butlast out
         else if rooted then out else out @ [''..''])
      else out @ [seg])"

definition go_clean :: "string \<Rightarrow> string" where
  "go_clean p =
     (let rooted = (p \<noteq> [] \<and> hd p = CHR ''/'');
          body = join_with CHR ''/'' (foldl (clean_step rooted) [] (split_on CHR ''/'' p))
      in if rooted then CHR ''/'' # body else if body = [] then ''.'' else body)"

definition filepath_join :: "string \<Rightarrow> string \<Rightarrow> string" where
  "filepath_join a b =
     (if a = [] then (if b = [] then [] else go_clean b)
      else if b = [] then go_clean a
      else go_clean (a @ CHR ''/'' # b))"

text \<open>\<open>filepath.Base\<close>.\<close>

definition filepath_base :: "string \<Rightarrow> string" where
  "filepath_base p =
     (if p = [] then ''.''
      else (let q = rev (dropWhile (\<lambda>c. c = CHR ''/'') (rev p)) in if q = [] then ''/'' else last_elem q))"

end
