(* ===== verification/Migrate.thy ===== *)
theory Migrate
  imports Sql Paths
begin

text \<open>
  \<open>internal/migrate/migrate.go\<close>: the runner of the SQL migrations. What a script does to the tables is the
  argument \<open>run\<close> (an error, or the new tables); the scripts do not touch the table \<open>schema_migrations\<close>,
  which is kept beside the tables. The directory is a tree of files, walked as \<open>filepath.WalkDir\<close> does.
\<close>

section \<open>Files\<close>

text \<open>A file has contents, or cannot be read; a directory has entries sorted by name, or cannot be listed.\<close>

datatype fnode = FFile "string option" | FDir "(string \<times> fnode) list option"

type_synonym disk = "string \<Rightarrow> fnode option"

text \<open>The calls of the function that is given to \<open>WalkDir\<close>: path, \<open>d.IsDir()\<close>, error.\<close>

fun walk :: "string \<Rightarrow> fnode \<Rightarrow> (string \<times> bool \<times> goerr option) list" where
  "walk path (FFile c) = [(path, False, None)]"
| "walk path (FDir None) = [(path, True, None), (path, True, Some (ErrText ''permission denied''))]"
| "walk path (FDir (Some es)) =
     (path, True, None) # concat (map (\<lambda>(n, e). walk (filepath_join path n) e) es)"

definition WalkDir :: "disk \<Rightarrow> string \<Rightarrow> (string \<times> bool \<times> goerr option) list" where
  "WalkDir fs dir =
     (case fs dir of
        None \<Rightarrow> [(dir, False, Some (ErrText ''no such file or directory''))]
      | Some n \<Rightarrow> walk dir n)"

record migration =
  mg_version :: int
  mg_name :: string
  mg_path :: string

text \<open>The number before the first underscore, if there is one that is not the first character. The error
  text is exact for names without quotes, backslashes and unprintable characters, which \<open>%q\<close> escapes.\<close>

definition version_text :: "string \<Rightarrow> string" where
  "version_text base =
     (case index_of (CHR ''_'') base of
        None \<Rightarrow> base
      | Some i \<Rightarrow> if 0 < i then take i base else base)"

definition parse_migration :: "string \<Rightarrow> goerr + migration" where
  "parse_migration path =
     (let base = filepath_base path; num = version_text base in
      case atoi num of
        None \<Rightarrow> Inl (ErrText (''migration '' @ [CHR 0x22] @ base @ [CHR 0x22] @ '': filename must start with numeric version''))
      | Some v \<Rightarrow>
          Inr \<lparr>mg_version = v, mg_name = trim_suffix (trim_prefix base (num @ ''_'')) ''.up.sql'', mg_path = path\<rparr>)"

text \<open>The walk with the list it appends to; it stops at the first error.\<close>

fun collect :: "(string \<times> bool \<times> goerr option) list \<Rightarrow> migration list \<Rightarrow> goerr + migration list" where
  "collect [] out = Inr out"
| "collect ((path, is_dir, err) # evs) out =
     (if err \<noteq> None \<or> is_dir \<or> \<not> has_suffix path ''.up.sql''
      then (case err of Some e \<Rightarrow> Inl e | None \<Rightarrow> collect evs out)
      else (case parse_migration path of Inl e \<Rightarrow> Inl e | Inr m \<Rightarrow> collect evs (out @ [m])))"

text \<open>
  \<open>sort.Slice\<close> says nothing of the order of equal versions; for up to twelve files it is an insertion
  sort, which keeps the order of the walk, as here.
\<close>

definition collectUpMigrations :: "disk \<Rightarrow> string \<Rightarrow> goerr + migration list" where
  "collectUpMigrations fs dir =
     (case collect (WalkDir fs dir) [] of Inl e \<Rightarrow> Inl e | Inr ms \<Rightarrow> Inr (sort_key mg_version ms))"

section \<open>The database\<close>

text \<open>The connection with its tables, and the rows of \<open>schema_migrations\<close> once it exists.\<close>

record mig_db =
  md_srv :: server
  md_versions :: "int list option"

definition md_tables :: "mig_db \<Rightarrow> db" where
  "md_tables s = committed (md_srv s)"

definition md_next :: "mig_db \<Rightarrow> fault \<times> mig_db" where
  "md_next s = (case next_fault (md_srv s) of (f, s1) \<Rightarrow> (f, s\<lparr>md_srv := s1\<rparr>))"

definition create_table :: "mig_db \<Rightarrow> mig_db" where
  "create_table s =
     s\<lparr>md_versions := Some (case md_versions s of None \<Rightarrow> [] | Some vs \<Rightarrow> vs)\<rparr>"

definition ensureMigrationsTable :: "mig_db \<Rightarrow> goerr option \<times> mig_db" where
  "ensureMigrationsTable s =
     (case md_next s of
        (Fine, s1) \<Rightarrow> (None, create_table s1)
      | (LostReply m, s1) \<Rightarrow> (Some (ErrDriver m), create_table s1)
      | (f, s1) \<Rightarrow> (Some (ErrDriver (fault_text f)), s1))"

definition appliedVersions :: "mig_db \<Rightarrow> (goerr + int list) \<times> mig_db" where
  "appliedVersions s =
     (case md_next s of
        (Fine, s1) \<Rightarrow>
          (case md_versions s1 of
             None \<Rightarrow> (Inl (ErrDriver ''pq: relation does not exist''), s1)
           | Some vs \<Rightarrow> (Inr vs, s1))
      | (f, s1) \<Rightarrow> (Inl (ErrDriver (fault_text f)), s1))"

text \<open>
  \<open>applyOne\<close>: the script and the row of its version in one transaction, which is rolled back when any of
  its statements fails.
\<close>

definition read_file :: "disk \<Rightarrow> string \<Rightarrow> goerr + string" where
  "read_file fs p =
     (case fs p of Some (FFile (Some c)) \<Rightarrow> Inr c | _ \<Rightarrow> Inl (ErrText (''open '' @ p)))"

definition applyOne ::
  "(string \<Rightarrow> db \<Rightarrow> goerr + db) \<Rightarrow> disk \<Rightarrow> migration \<Rightarrow> mig_db \<Rightarrow> goerr option \<times> mig_db" where
  "applyOne run fs m s =
     (case read_file fs (mg_path m) of
        Inl e \<Rightarrow> (Some e, s)
      | Inr content \<Rightarrow>
          (case md_next s of
             (Fine, s1) \<Rightarrow>
               (case md_next s1 of
                  (Fine, s2) \<Rightarrow>
                    (case run content (md_tables s2) of
                       Inl e \<Rightarrow> (Some e, s2)
                     | Inr d \<Rightarrow>
                         (case md_next s2 of
                            (Fine, s3) \<Rightarrow>
                              (case md_versions s3 of
                                 None \<Rightarrow> (Some (ErrDriver ''pq: relation does not exist''), s3)
                               | Some vs \<Rightarrow>
                                   if mg_version m \<in> set vs then (Some (ErrDriver ''pq: duplicate key value violates unique constraint''), s3)
                                   else
                                     (let new = (\<lambda>s. s\<lparr>md_srv := (md_srv s)\<lparr>committed := d\<rparr>,
                                            md_versions := Some (vs @ [mg_version m])\<rparr>)
                                      in case md_next s3 of
                                           (Fine, s4) \<Rightarrow> (None, new s4)
                                         | (LostReply e, s4) \<Rightarrow> (Some (ErrDriver e), new s4)
                                         | (f, s4) \<Rightarrow> (Some (ErrDriver (fault_text f)), s4)))
                          | (f, s3) \<Rightarrow> (Some (ErrDriver (fault_text f)), s3)))
                | (f, s2) \<Rightarrow> (Some (ErrDriver (fault_text f)), s2))
           | (f, s1) \<Rightarrow> (Some (ErrDriver (fault_text f)), s1)))"

text \<open>The loop of \<open>Run\<close>; \<open>applied\<close> is the set that was read at its start.\<close>

fun apply_pending ::
  "(string \<Rightarrow> db \<Rightarrow> goerr + db) \<Rightarrow> disk \<Rightarrow> int list \<Rightarrow> migration list \<Rightarrow> mig_db \<Rightarrow> goerr option \<times> mig_db"
where
  "apply_pending run fs applied [] s = (None, s)"
| "apply_pending run fs applied (m # ms) s =
     (if mg_version m \<in> set applied then apply_pending run fs applied ms s
      else case applyOne run fs m s of
             (Some e, s1) \<Rightarrow> (Some (ErrWrap (''migrate: apply '' @ mg_path m) e), s1)
           | (None, s1) \<Rightarrow> apply_pending run fs applied ms s1)"

definition Run ::
  "(string \<Rightarrow> db \<Rightarrow> goerr + db) \<Rightarrow> disk \<Rightarrow> string \<Rightarrow> mig_db \<Rightarrow> goerr option \<times> mig_db" where
  "Run run fs dir s =
     (case ensureMigrationsTable s of
        (Some e, s1) \<Rightarrow> (Some (ErrWrap ''migrate: create schema_migrations'' e), s1)
      | (None, s1) \<Rightarrow>
          (case collectUpMigrations fs dir of
             Inl e \<Rightarrow> (Some (ErrWrap ''migrate: collect'' e), s1)
           | Inr files \<Rightarrow>
               (case appliedVersions s1 of
                  (Inl e, s2) \<Rightarrow> (Some (ErrWrap ''migrate: read applied'' e), s2)
                | (Inr applied, s2) \<Rightarrow> apply_pending run fs applied files s2)))"

end
