(* ===== verification/MigrateThms.thy ===== *)
theory MigrateThms
  imports Migrate
begin

text \<open>
  What the migration runner guarantees: pending scripts run in the order of their versions, each once and
  together with its record; a run that fails stops with a prefix applied, and the next run goes on
  from there.
\<close>

definition versions_of :: "mig_db \<Rightarrow> int list" where
  "versions_of s = (case md_versions s of None \<Rightarrow> [] | Some vs \<Rightarrow> vs)"

definition pending :: "int list \<Rightarrow> migration list \<Rightarrow> migration list" where
  "pending vs ms = filter (\<lambda>m. mg_version m \<notin> set vs) ms"

text \<open>The tables after running scripts one after the other.\<close>

fun replay :: "(string \<Rightarrow> db \<Rightarrow> goerr + db) \<Rightarrow> disk \<Rightarrow> migration list \<Rightarrow> db \<Rightarrow> goerr + db" where
  "replay run fs [] d = Inr d"
| "replay run fs (m # ms) d =
     (case read_file fs (mg_path m) of
        Inl e \<Rightarrow> Inl e
      | Inr c \<Rightarrow> (case run c d of Inl e \<Rightarrow> Inl e | Inr d1 \<Rightarrow> replay run fs ms d1))"

lemma replay_append:
  "replay run fs (ms @ ms') d = (case replay run fs ms d of Inl e \<Rightarrow> Inl e | Inr d1 \<Rightarrow> replay run fs ms' d1)"
  by (induction ms arbitrary: d) (auto split: sum.splits)

section \<open>Single steps\<close>

lemma md_next_same:
  "md_next s = (f, s1) \<Longrightarrow> md_tables s1 = md_tables s \<and> md_versions s1 = md_versions s"
  by (auto simp: md_next_def md_tables_def next_fault_committed split: prod.splits)

lemma md_next_fine: "healthy (md_srv s) \<Longrightarrow> md_next s = (Fine, s)"
  by (simp add: md_next_def next_fault_fine)

lemma applyOne_outcome:
  assumes "applyOne run fs m s = (e, s1)" "md_versions s = Some vs"
  shows "e \<noteq> None \<and> md_tables s1 = md_tables s \<and> md_versions s1 = Some vs \<or>
    replay run fs [m] (md_tables s) = Inr (md_tables s1) \<and> md_versions s1 = Some (vs @ [mg_version m]) \<and>
    mg_version m \<notin> set vs"
proof (cases "read_file fs (mg_path m)")
  case (Inl e)
  with assms show ?thesis by (auto simp: applyOne_def)
next
  case (Inr c)
  obtain f1 t1 where 1: "md_next s = (f1, t1)" by (rule prod.exhaust)
  obtain f2 t2 where 2: "md_next t1 = (f2, t2)" by (rule prod.exhaust)
  obtain f3 t3 where 3: "md_next t2 = (f3, t3)" by (rule prod.exhaust)
  obtain f4 t4 where 4: "md_next t3 = (f4, t4)" by (rule prod.exhaust)
  note same = md_next_same [OF 1] md_next_same [OF 2] md_next_same [OF 3] md_next_same [OF 4]
  show ?thesis
  proof (cases "f1 = Fine \<and> f2 = Fine")
    case False
    with assms Inr 1 2 same show ?thesis
      by (cases f1; cases f2) (auto simp: applyOne_def)
  next
    case True
    show ?thesis
    proof (cases "run c (md_tables s)")
      case (Inl e)
      with True assms Inr 1 2 same show ?thesis by (auto simp: applyOne_def)
    next
      case (Inr d)
      with True \<open>read_file fs (mg_path m) = Inr c\<close> assms 1 2 3 4 same show ?thesis
        by (cases f3; cases f4) (auto simp: applyOne_def md_tables_def Let_def split: if_splits)
    qed
  qed
qed

lemma pending_Cons:
  "pending vs (m # ms) = (if mg_version m \<in> set vs then pending vs ms else m # pending vs ms)"
  by (simp add: pending_def)

lemma apply_pending_outcome:
  "apply_pending run fs vs0 ms s = (e, s1) \<Longrightarrow> md_versions s = Some vs \<Longrightarrow> distinct vs \<Longrightarrow>
   \<exists>k. replay run fs (take k (pending vs0 ms)) (md_tables s) = Inr (md_tables s1) \<and>
     md_versions s1 = Some (vs @ map mg_version (take k (pending vs0 ms))) \<and>
     distinct (vs @ map mg_version (take k (pending vs0 ms))) \<and>
     (e = None \<longrightarrow> length (pending vs0 ms) \<le> k)"
proof (induction ms arbitrary: s vs)
  case Nil
  then show ?case by (auto simp: pending_def)
next
  case (Cons m ms)
  show ?case
  proof (cases "mg_version m \<in> set vs0")
    case True
    with Cons.IH [of s vs] Cons.prems show ?thesis by (simp add: pending_Cons)
  next
    case False
    obtain e1 t where a: "applyOne run fs m s = (e1, t)" by (rule prod.exhaust)
    note out = applyOne_outcome [OF a Cons.prems(2)]
    show ?thesis
    proof (cases e1)
      case (Some err)
      with False a Cons.prems(1) have e: "e \<noteq> None" "s1 = t" by auto
      from out show ?thesis
      proof
        assume "e1 \<noteq> None \<and> md_tables t = md_tables s \<and> md_versions t = Some vs"
        with e Cons.prems(3) show ?thesis by (intro exI [of _ 0]) auto
      next
        assume "replay run fs [m] (md_tables s) = Inr (md_tables t) \<and>
          md_versions t = Some (vs @ [mg_version m]) \<and> mg_version m \<notin> set vs"
        with e False Cons.prems(3) show ?thesis by (intro exI [of _ 1]) (auto simp: pending_Cons)
      qed
    next
      case None
      with out have o: "replay run fs [m] (md_tables s) = Inr (md_tables t)"
        "md_versions t = Some (vs @ [mg_version m])" "mg_version m \<notin> set vs" by auto
      from None False a Cons.prems(1) have r: "apply_pending run fs vs0 ms t = (e, s1)" by simp
      from o(3) Cons.prems(3) have "distinct (vs @ [mg_version m])" by simp
      from Cons.IH [OF r o(2) this] obtain k where k:
        "replay run fs (take k (pending vs0 ms)) (md_tables t) = Inr (md_tables s1)"
        "md_versions s1 = Some ((vs @ [mg_version m]) @ map mg_version (take k (pending vs0 ms)))"
        "distinct ((vs @ [mg_version m]) @ map mg_version (take k (pending vs0 ms)))"
        "e = None \<longrightarrow> length (pending vs0 ms) \<le> k" by blast
      have "replay run fs ([m] @ take k (pending vs0 ms)) (md_tables s) = Inr (md_tables s1)"
        unfolding replay_append o(1) using k(1) by simp
      with k(2-4) False show ?thesis by (intro exI [of _ "Suc k"]) (simp add: pending_Cons)
    qed
  qed
qed

lemma ensure_outcome:
  assumes "ensureMigrationsTable s = (e, s1)"
  shows "md_tables s1 = md_tables s" "versions_of s1 = versions_of s"
    "e = None \<Longrightarrow> md_versions s1 = Some (versions_of s)"
  using assms md_next_same [of s]
  by (auto simp: ensureMigrationsTable_def create_table_def versions_of_def md_tables_def
      split: prod.splits fault.splits option.splits)

lemma applied_outcome:
  assumes "appliedVersions s = (r, s1)"
  shows "md_tables s1 = md_tables s" "md_versions s1 = md_versions s"
    "r = Inr vs \<Longrightarrow> md_versions s = Some vs"
  using assms md_next_same [of s]
  by (auto simp: appliedVersions_def split: prod.splits fault.splits option.splits)

section \<open>Runs\<close>

definition migrated :: "(string \<Rightarrow> db \<Rightarrow> goerr + db) \<Rightarrow> disk \<Rightarrow> migration list \<Rightarrow> mig_db \<Rightarrow> mig_db \<Rightarrow> bool" where
  "migrated run fs done s s1 \<longleftrightarrow>
     replay run fs done (md_tables s) = Inr (md_tables s1) \<and>
     versions_of s1 = versions_of s @ map mg_version done"

lemma collect_sorted: "collectUpMigrations fs dir = Inr files \<Longrightarrow> sorted (map mg_version files)"
  by (auto simp: collectUpMigrations_def split: sum.splits)

lemma Run_outcome:
  assumes "Run run fs dir s = (e, s1)" "collectUpMigrations fs dir = Inr files" "distinct (versions_of s)"
  shows "\<exists>k. migrated run fs (take k (pending (versions_of s) files)) s s1 \<and> distinct (versions_of s1) \<and>
    (e = None \<longrightarrow> length (pending (versions_of s) files) \<le> k)"
proof -
  obtain e1 t where en: "ensureMigrationsTable s = (e1, t)" by (rule prod.exhaust)
  note t = ensure_outcome [OF en]
  obtain r u where ap: "appliedVersions t = (r, u)" by (rule prod.exhaust)
  note u = applied_outcome [OF ap]
  have vu: "versions_of u = versions_of s" using t(2) u(2) by (simp add: versions_of_def)
  have stop: ?thesis if "e \<noteq> None" "md_tables s1 = md_tables s" "versions_of s1 = versions_of s"
    using that assms(3) by (intro exI [of _ 0]) (auto simp: migrated_def)
  show ?thesis
  proof (cases e1)
    case (Some err)
    with en assms(1) t(1,2) show ?thesis by (intro stop) (auto simp: Run_def)
  next
    case None
    note none = this
    show ?thesis
    proof (cases r)
      case (Inl err)
      with none en ap assms(1,2) t(1) u(1) vu show ?thesis by (intro stop) (auto simp: Run_def)
    next
      case (Inr vs)
      then have vs: "vs = versions_of s" "md_versions u = Some (versions_of s)"
        using u(2,3) t(3) none by auto
      from none Inr en ap assms(1,2) have "apply_pending run fs vs files u = (e, s1)" by (simp add: Run_def)
      from apply_pending_outcome [OF this vs(2) assms(3)] obtain k where
        "replay run fs (take k (pending vs files)) (md_tables u) = Inr (md_tables s1)"
        "md_versions s1 = Some (versions_of s @ map mg_version (take k (pending vs files)))"
        "distinct (versions_of s @ map mg_version (take k (pending vs files)))"
        "e = None \<longrightarrow> length (pending vs files) \<le> k" by blast
      with vs(1) t(1) u(1) show ?thesis
        by (intro exI [of _ k]) (simp add: migrated_def versions_of_def [of s1])
    qed
  qed
qed

text \<open>
  C10. Migrations run in order, each once, together with their record. Whatever database calls fail, after a
  run some prefix of the pending scripts, in ascending order of their versions, has been executed and
  exactly their versions have been added to \<open>schema_migrations\<close>, without duplicates; a run that returns no
  error has executed all of them.
\<close>

theorem migrations_in_order:
  assumes "Run run fs dir s = (e, s1)" "collectUpMigrations fs dir = Inr files" "distinct (versions_of s)"
  shows "sorted (map mg_version files) \<and>
    (\<exists>k. migrated run fs (take k (pending (versions_of s) files)) s s1 \<and> distinct (versions_of s1) \<and>
       (e = None \<longrightarrow> length (pending (versions_of s) files) \<le> k))"
  using collect_sorted [OF assms(2)] Run_outcome [OF assms] by blast

text \<open>The directory of the repository.\<close>

definition repo_disk :: disk where
  "repo_disk p =
     (if p = ''./migrations'' then
        Some (FDir (Some [(''0001_init.down.sql'', FFile (Some ''DROP'')), (''0001_init.up.sql'', FFile (Some ''CREATE''))]))
      else if p = ''migrations/0001_init.up.sql'' then Some (FFile (Some ''CREATE''))
      else None)"

definition new_mig_db :: mig_db where
  "new_mig_db =
     \<lparr>md_srv = \<lparr>committed = (\<lambda>_. None), faults = [], delays = [], clock = 0, deadline = None\<rparr>, md_versions = None\<rparr>"

lemma collect_repo:
  "collectUpMigrations repo_disk ''./migrations'' =
     Inr [\<lparr>mg_version = 1, mg_name = ''init'', mg_path = ''migrations/0001_init.up.sql''\<rparr>]"
  by code_simp

theorem migrations_in_order_witness:
  "\<exists>k. migrated (\<lambda>c d. Inr empty_db) repo_disk
     (take k [\<lparr>mg_version = 1, mg_name = ''init'', mg_path = ''migrations/0001_init.up.sql''\<rparr>]) new_mig_db
     (snd (Run (\<lambda>c d. Inr empty_db) repo_disk ''./migrations'' new_mig_db))"
proof -
  obtain e s1 where r: "Run (\<lambda>c d. Inr empty_db) repo_disk ''./migrations'' new_mig_db = (e, s1)"
    by (rule prod.exhaust)
  have v: "versions_of new_mig_db = []" by (simp add: versions_of_def new_mig_db_def)
  then have "distinct (versions_of new_mig_db)" by simp
  from migrations_in_order [OF r collect_repo this] v r show ?thesis by (auto simp: pending_def)
qed

section \<open>Resuming\<close>

lemma md_simps [simp]:
  "md_tables (s\<lparr>md_srv := (md_srv s)\<lparr>committed := d\<rparr>, md_versions := v\<rparr>) = d"
  by (simp add: md_tables_def)

lemma applyOne_fine:
  assumes "healthy (md_srv s)" "md_versions s = Some vs" "mg_version m \<notin> set vs"
    and "replay run fs [m] (md_tables s) = Inr d"
  shows "applyOne run fs m s =
    (None, s\<lparr>md_srv := (md_srv s)\<lparr>committed := d\<rparr>, md_versions := Some (vs @ [mg_version m])\<rparr>)"
  using assms by (auto simp: applyOne_def md_next_fine Let_def split: sum.splits)

lemma apply_pending_fine:
  "healthy (md_srv s) \<Longrightarrow> md_versions s = Some vs \<Longrightarrow>
   distinct (vs @ map mg_version (pending vs0 ms)) \<Longrightarrow> replay run fs (pending vs0 ms) (md_tables s) = Inr d \<Longrightarrow>
     apply_pending run fs vs0 ms s =
       (None, s\<lparr>md_srv := (md_srv s)\<lparr>committed := d\<rparr>, md_versions := Some (vs @ map mg_version (pending vs0 ms))\<rparr>)"
proof (induction ms arbitrary: s vs)
  case Nil
  then show ?case by (simp add: pending_def md_tables_def)
next
  case (Cons m ms)
  show ?case
  proof (cases "mg_version m \<in> set vs0")
    case True
    with Cons show ?thesis by (simp add: pending_Cons)
  next
    case False
    from Cons.prems(4) False obtain d1 where d1: "replay run fs [m] (md_tables s) = Inr d1"
      "replay run fs (pending vs0 ms) d1 = Inr d"
      by (auto simp: pending_Cons split: sum.splits)
    from Cons.prems(3) False have "mg_version m \<notin> set vs" by (simp add: pending_Cons)
    from applyOne_fine [OF Cons.prems(1,2) this d1(1)] False
      Cons.IH [of "s\<lparr>md_srv := (md_srv s)\<lparr>committed := d1\<rparr>, md_versions := Some (vs @ [mg_version m])\<rparr>"
        "vs @ [mg_version m]"] Cons.prems d1(2)
    show ?thesis by (simp add: pending_Cons)
  qed
qed

lemma Run_fine:
  assumes "healthy (md_srv s)" "collectUpMigrations fs dir = Inr files"
    and "distinct (versions_of s @ map mg_version (pending (versions_of s) files))"
    and "replay run fs (pending (versions_of s) files) (md_tables s) = Inr d"
  shows "Run run fs dir s =
    (None, s\<lparr>md_srv := (md_srv s)\<lparr>committed := d\<rparr>,
       md_versions := Some (versions_of s @ map mg_version (pending (versions_of s) files))\<rparr>)"
proof -
  let ?t = "s\<lparr>md_versions := Some (versions_of s)\<rparr>"
  have "ensureMigrationsTable s = (None, ?t)"
    by (simp add: ensureMigrationsTable_def md_next_fine [OF assms(1)] create_table_def versions_of_def)
  moreover have "appliedVersions ?t = (Inr (versions_of s), ?t)"
    using assms(1) by (simp add: appliedVersions_def md_next_fine)
  moreover have "apply_pending run fs (versions_of s) files ?t = (None, ?t\<lparr>md_srv := (md_srv ?t)\<lparr>committed := d\<rparr>,
      md_versions := Some (versions_of s @ map mg_version (pending (versions_of s) files))\<rparr>)"
    using assms by (intro apply_pending_fine) (simp_all add: md_tables_def)
  ultimately show ?thesis using assms(2) by (simp add: Run_def)
qed

lemma pending_drop:
  "distinct (map mg_version (pending vs ms)) \<Longrightarrow>
     pending (vs @ map mg_version (take k (pending vs ms))) ms = drop k (pending vs ms)"
proof -
  assume d: "distinct (map mg_version (pending vs ms))"
  let ?p = "pending vs ms"
  have "pending (vs @ map mg_version (take k ?p)) ms = filter (\<lambda>m. mg_version m \<notin> set (map mg_version (take k ?p))) ?p"
    by (simp add: pending_def conj_commute)
  also have "\<dots> = filter (\<lambda>m. mg_version m \<notin> set (map mg_version (take k ?p))) (take k ?p @ drop k ?p)" by simp
  also have "\<dots> = drop k ?p"
  proof -
    have "distinct (map mg_version (take k ?p) @ map mg_version (drop k ?p))"
      using d by (simp only: map_append [symmetric] append_take_drop_id)
    then have "filter (\<lambda>m. mg_version m \<notin> set (map mg_version (take k ?p))) (drop k ?p) = drop k ?p"
      by (intro filter_True) auto
    moreover have "filter (\<lambda>m. mg_version m \<notin> set (map mg_version (take k ?p))) (take k ?p) = []"
      by (intro filter_False) auto
    ultimately show ?thesis by (simp only: filter_append append_Nil)
  qed
  finally show ?thesis .
qed

text \<open>
  C14. A failed run can be retried: if the scripts themselves work and have distinct versions, then after any
  run (with any faults) a later run on a database that answers returns no error and ends with the tables
  and the versions that one run without faults would have given; and one more run changes nothing.
\<close>

theorem migrations_resume:
  assumes "Run run fs dir s = (e, s1)" "collectUpMigrations fs dir = Inr files"
    and "distinct (versions_of s @ map mg_version (pending (versions_of s) files))"
    and "replay run fs (pending (versions_of s) files) (md_tables s) = Inr d"
    and "healthy (md_srv s2)" "md_tables s2 = md_tables s1" "md_versions s2 = md_versions s1"
  shows "\<exists>s3. Run run fs dir s2 = (None, s3) \<and> md_tables s3 = d \<and>
    versions_of s3 = versions_of s @ map mg_version (pending (versions_of s) files) \<and>
    Run run fs dir s3 = (None, s3)"
proof -
  let ?p = "pending (versions_of s) files"
  have dp: "distinct (versions_of s)" "distinct (map mg_version ?p)" using assms(3) by simp_all
  from Run_outcome [OF assms(1,2) dp(1)] obtain k where
    k: "replay run fs (take k ?p) (md_tables s) = Inr (md_tables s1)"
      "versions_of s1 = versions_of s @ map mg_version (take k ?p)" by (auto simp: migrated_def)
  have v2: "versions_of s2 = versions_of s @ map mg_version (take k ?p)"
    using k(2) assms(7) by (simp add: versions_of_def)
  have p2: "pending (versions_of s2) files = drop k ?p" unfolding v2 by (rule pending_drop [OF dp(2)])
  have all: "versions_of s2 @ map mg_version (drop k ?p) = versions_of s @ map mg_version ?p"
    unfolding v2 by (simp flip: map_append)
  have "replay run fs (take k ?p @ drop k ?p) (md_tables s) = Inr d" using assms(4) by simp
  then have "replay run fs (drop k ?p) (md_tables s2) = Inr d"
    unfolding replay_append k(1) using assms(6) by simp
  with p2 all assms(3) have r2: "Run run fs dir s2 = (None, s2\<lparr>md_srv := (md_srv s2)\<lparr>committed := d\<rparr>,
      md_versions := Some (versions_of s @ map mg_version ?p)\<rparr>)" (is "_ = (None, ?s3)")
    using Run_fine [OF assms(5,2), of run d] by simp
  have v3: "versions_of ?s3 = versions_of s @ map mg_version ?p" by (simp add: versions_of_def)
  have "pending (versions_of ?s3) files = []" unfolding v3 by (auto simp: pending_def filter_empty_conv)
  with assms(3,5) Run_fine [of ?s3 fs dir files run d] assms(2) have "Run run fs dir ?s3 = (None, ?s3)"
    by (simp add: v3)
  with r2 v3 show ?thesis by auto
qed

theorem migrations_resume_witness:
  "\<exists>s1 s3. snd (Run (\<lambda>c d. Inr empty_db) repo_disk ''./migrations''
       (new_mig_db\<lparr>md_srv := (md_srv new_mig_db)\<lparr>faults := [Fine, Fine, Fine, Refused ''reset'']\<rparr>\<rparr>)) = s1 \<and>
     Run (\<lambda>c d. Inr empty_db) repo_disk ''./migrations''
       (s1\<lparr>md_srv := (md_srv s1)\<lparr>faults := [], delays := [], deadline := None\<rparr>\<rparr>) = (None, s3)"
proof -
  let ?s = "new_mig_db\<lparr>md_srv := (md_srv new_mig_db)\<lparr>faults := [Fine, Fine, Fine, Refused ''reset'']\<rparr>\<rparr>"
  obtain e s1 where r: "Run (\<lambda>c d. Inr empty_db) repo_disk ''./migrations'' ?s = (e, s1)" by (rule prod.exhaust)
  let ?s2 = "s1\<lparr>md_srv := (md_srv s1)\<lparr>faults := [], delays := [], deadline := None\<rparr>\<rparr>"
  let ?m = "\<lparr>mg_version = 1, mg_name = ''init'', mg_path = ''migrations/0001_init.up.sql''\<rparr>"
  have v: "versions_of ?s = []" by (simp add: versions_of_def new_mig_db_def)
  have p: "pending (versions_of ?s) [?m] = [?m]" by (simp add: v pending_def)
  have "read_file repo_disk ''migrations/0001_init.up.sql'' = Inr ''CREATE''" by code_simp
  then have "replay (\<lambda>c d. Inr empty_db) repo_disk (pending (versions_of ?s) [?m]) (md_tables ?s) = Inr empty_db"
    unfolding p by simp
  moreover have "distinct (versions_of ?s @ map mg_version (pending (versions_of ?s) [?m]))"
    unfolding p by (simp add: v)
  moreover have "healthy (md_srv ?s2)" by (simp add: healthy_def)
  moreover have "md_tables ?s2 = md_tables s1" "md_versions ?s2 = md_versions s1" by (simp_all add: md_tables_def)
  ultimately show ?thesis using migrations_resume [OF r collect_repo, of empty_db ?s2] r by auto
qed

section \<open>Two scripts with one number\<close>

text \<open>
  C36. Two files with the same number: the second is lost. The first run applies the first of them and fails
  on the record of the second; every later run finds the number recorded, skips both and reports success,
  although the second script was never applied.
\<close>

theorem duplicate_version_is_lost:
  assumes "healthy (md_srv s)" "md_versions s = None" "collectUpMigrations fs dir = Inr [m1, m2]"
    and "mg_version m2 = mg_version m1"
    and "replay run fs [m1] (md_tables s) = Inr d1" "replay run fs [m2] d1 = Inr d2"
  shows "\<exists>e s1. Run run fs dir s = (Some e, s1) \<and> md_tables s1 = d1 \<and> Run run fs dir s1 = (None, s1)"
proof -
  let ?t = "s\<lparr>md_versions := Some []\<rparr>"
  let ?s1 = "s\<lparr>md_srv := (md_srv s)\<lparr>committed := d1\<rparr>, md_versions := Some [mg_version m1]\<rparr>"
  have en: "ensureMigrationsTable s = (None, ?t)"
    using assms(1,2) by (simp add: ensureMigrationsTable_def md_next_fine create_table_def)
  have ap: "appliedVersions ?t = (Inr [], ?t)" using assms(1) by (simp add: appliedVersions_def md_next_fine)
  have "md_tables ?t = md_tables s" by (simp add: md_tables_def)
  with assms(1,5) have one: "applyOne run fs m1 ?t = (None, ?s1)"
    using applyOne_fine [of ?t "[]" m1 run fs d1] by simp
  have two: "applyOne run fs m2 ?s1 = (Some (ErrDriver ''pq: duplicate key value violates unique constraint''), ?s1)"
    using assms(1,4,6) by (auto simp: applyOne_def md_next_fine split: sum.splits)
  have "Run run fs dir s = (Some (ErrWrap (''migrate: apply '' @ mg_path m2)
      (ErrDriver ''pq: duplicate key value violates unique constraint'')), ?s1)"
    by (simp add: Run_def en assms(3) ap one two)
  moreover have "pending (versions_of ?s1) [m1, m2] = []" using assms(4) by (simp add: pending_def versions_of_def)
  then have "Run run fs dir ?s1 = (None, ?s1)"
    using Run_fine [of ?s1 fs dir "[m1, m2]" run d1] assms(1,3) by (simp add: versions_of_def)
  ultimately show ?thesis by fastforce
qed

definition twin_disk :: disk where
  "twin_disk p =
     (if p = ''./migrations'' then
        Some (FDir (Some [(''0002_a.up.sql'', FFile (Some ''A'')), (''0002_b.up.sql'', FFile (Some ''B''))]))
      else if p = ''migrations/0002_a.up.sql'' then Some (FFile (Some ''A''))
      else if p = ''migrations/0002_b.up.sql'' then Some (FFile (Some ''B''))
      else None)"

theorem duplicate_version_is_lost_witness:
  "\<exists>e s1. Run (\<lambda>c d. Inr (d(c \<mapsto> []))) twin_disk ''./migrations'' new_mig_db = (Some e, s1) \<and>
     md_tables s1 = [''A'' \<mapsto> []] \<and> Run (\<lambda>c d. Inr (d(c \<mapsto> []))) twin_disk ''./migrations'' s1 = (None, s1)"
proof -
  have c: "collectUpMigrations twin_disk ''./migrations'' =
      Inr [\<lparr>mg_version = 2, mg_name = ''a'', mg_path = ''migrations/0002_a.up.sql''\<rparr>,
           \<lparr>mg_version = 2, mg_name = ''b'', mg_path = ''migrations/0002_b.up.sql''\<rparr>]" by code_simp
  have f: "read_file twin_disk ''migrations/0002_a.up.sql'' = Inr ''A''"
    "read_file twin_disk ''migrations/0002_b.up.sql'' = Inr ''B''" by code_simp+
  show ?thesis
    by (rule duplicate_version_is_lost [OF _ _ c, where ?d2.0 = "[''A'' \<mapsto> [], ''B'' \<mapsto> []]"])
      (simp_all add: f new_mig_db_def healthy_def md_tables_def)
qed

end
