(* ===== verification/Http.thy ===== *)
theory Http
  imports Json
begin

text \<open>
  Requests, response writers and handlers, as far as the server uses \<open>net/http\<close> (Go 1.22).

  A handler takes the request, the response writer and the state of the program and returns the last
  two changed. The header map of a writer is sent with the first \<open>WriteHeader\<close>, and what is
  written to the body is a list of chunks: a JSON encoding, a text, a file that is served, or the
  compression of other chunks.
\<close>

section \<open>Headers\<close>

type_synonym header = "(string \<times> string list) list"

text \<open>\<open>textproto.CanonicalMIMEHeaderKey\<close> for the names the server uses (letters, digits, hyphens).\<close>

fun canonical_from :: "bool \<Rightarrow> string \<Rightarrow> string" where
  "canonical_from up [] = []"
| "canonical_from up (c # cs) =
     (if up then upper_char c else lower_char c) # canonical_from (c = CHR ''-'') cs"

definition canonical :: "string \<Rightarrow> string" where
  "canonical k = canonical_from True k"

definition hget :: "string \<Rightarrow> header \<Rightarrow> string" where
  "hget k h = (case map_of h (canonical k) of Some (v # _) \<Rightarrow> v | _ \<Rightarrow> [])"

definition hset :: "string \<Rightarrow> string \<Rightarrow> header \<Rightarrow> header" where
  "hset k v h = AList.update (canonical k) [v] h"

definition hdel :: "string \<Rightarrow> header \<Rightarrow> header" where
  "hdel k h = filter (\<lambda>p. fst p \<noteq> canonical k) h"

section \<open>Requests and responses\<close>

text \<open>
  \<open>req_escaped\<close> is \<open>r.URL.EscapedPath()\<close> and \<open>req_path\<close> is \<open>r.URL.Path\<close>, its decoded form;
  \<open>req_remote\<close> is \<open>r.RemoteAddr\<close>.
\<close>

record request =
  req_method :: string
  req_escaped :: string
  req_path :: string
  req_headers :: header
  req_remote :: string
  req_body :: string

datatype chunk =
    JsonOut json
  | TextOut string
  | FileOut string
  | GzipOut "chunk list"

record writer =
  w_header :: header
  w_status :: "nat option"
  w_sent :: header
  w_out :: "chunk list"

definition new_writer :: writer where
  "new_writer = \<lparr>w_header = [], w_status = None, w_sent = [], w_out = []\<rparr>"

type_synonym 's handler = "request \<Rightarrow> writer \<Rightarrow> 's \<Rightarrow> writer \<times> 's"

definition set_header :: "string \<Rightarrow> string \<Rightarrow> writer \<Rightarrow> writer" where
  "set_header k v w = w\<lparr>w_header := hset k v (w_header w)\<rparr>"

definition del_header :: "string \<Rightarrow> writer \<Rightarrow> writer" where
  "del_header k w = w\<lparr>w_header := hdel k (w_header w)\<rparr>"

text \<open>Only the first \<open>WriteHeader\<close> counts; a write before it sends status 200.\<close>

definition write_header :: "nat \<Rightarrow> writer \<Rightarrow> writer" where
  "write_header code w =
     (case w_status w of
        None \<Rightarrow> w\<lparr>w_status := Some code, w_sent := w_header w\<rparr>
      | Some _ \<Rightarrow> w)"

definition write_chunk :: "chunk \<Rightarrow> writer \<Rightarrow> writer" where
  "write_chunk c w = (let w1 = write_header 200 w in w1\<lparr>w_out := w_out w1 @ [c]\<rparr>)"

definition http_error :: "writer \<Rightarrow> string \<Rightarrow> nat \<Rightarrow> writer" where
  "http_error w msg code =
     write_chunk (TextOut (msg @ [CHR 0x0A]))
       (write_header code
         (set_header ''X-Content-Type-Options'' ''nosniff''
           (set_header ''Content-Type'' ''text/plain; charset=utf-8'' w)))"

section \<open>Facts\<close>

lemma hget_hset: "hget k (hset k' v h) = (if canonical k = canonical k' then v else hget k h)"
  by (simp add: hget_def hset_def update_conv')

lemma w_status_set_header [simp, wire_simps]: "w_status (set_header k v w) = w_status w"
  by (simp add: set_header_def)

lemma w_status_del_header [simp, wire_simps]: "w_status (del_header k w) = w_status w"
  by (simp add: del_header_def)

lemma w_out_headers [simp, wire_simps]:
  "w_out (set_header k v w) = w_out w" "w_out (del_header k w) = w_out w"
  "w_out (write_header c w) = w_out w"
  by (simp_all add: set_header_def del_header_def write_header_def split: option.splits)

lemma write_header_status [simp, wire_simps]:
  "w_status (write_header c w) = (case w_status w of None \<Rightarrow> Some c | Some d \<Rightarrow> Some d)"
  by (simp add: write_header_def split: option.splits)

lemma write_header_again [simp, wire_simps]: "w_status w = Some c \<Longrightarrow> write_header d w = w"
  by (simp add: write_header_def)

lemma write_chunk_simps [simp, wire_simps]:
  "w_status (write_chunk ch w) = (case w_status w of None \<Rightarrow> Some 200 | Some d \<Rightarrow> Some d)"
  "w_out (write_chunk ch w) = w_out w @ [ch]"
  "w_status w = Some c \<Longrightarrow> w_sent (write_chunk ch w) = w_sent w"
  by (simp_all add: write_chunk_def Let_def)

lemma w_sent_headers [simp, wire_simps]:
  "w_sent (set_header k v w) = w_sent w" "w_sent (del_header k w) = w_sent w"
  "w_status w = None \<Longrightarrow> w_sent (write_header c w) = w_header w"
  by (simp_all add: set_header_def del_header_def write_header_def)

lemma w_header_simps [simp, wire_simps]:
  "w_header (set_header k v w) = hset k v (w_header w)"
  "w_header (del_header k w) = hdel k (w_header w)"
  "w_header (write_header c w) = w_header w"
  "w_header (write_chunk ch w) = w_header w"
  by (simp_all add: set_header_def del_header_def write_header_def write_chunk_def Let_def
      split: option.splits)

lemma http_error_status: "w_status w = None \<Longrightarrow> w_status (http_error w msg code) = Some code"
  by (simp add: http_error_def)

lemma http_error_out: "w_out (http_error w msg code) = w_out w @ [TextOut (msg @ [CHR 0x0A])]"
  by (simp add: http_error_def)

end
