(* ===== verification/Base64.thy ===== *)
theory Base64
  imports GoLib
begin

text \<open>
  \<open>base64.RawURLEncoding\<close> of Go's standard library, which \<open>vendor/github.com/golang-jwt/jwt/v5\<close> uses
  for the three segments of a token (\<open>EncodeSegment\<close>, \<open>DecodeSegment\<close>): no padding, the URL alphabet,
  line breaks in the input skipped, the unused bits of the last character ignored.
\<close>

definition b64_char :: "nat \<Rightarrow> char" where
  "b64_char n =
     (if n < 26 then char_of (65 + n)
      else if n < 52 then char_of (71 + n)
      else if n < 62 then char_of (n - 4)
      else if n = 62 then CHR ''-''
      else CHR ''_'')"

definition b64_val :: "char \<Rightarrow> nat option" where
  "b64_val c =
     (let n = of_char c :: nat in
      if 65 \<le> n \<and> n \<le> 90 then Some (n - 65)
      else if 97 \<le> n \<and> n \<le> 122 then Some (n - 71)
      else if 48 \<le> n \<and> n \<le> 57 then Some (n + 4)
      else if n = 45 then Some 62
      else if n = 95 then Some 63
      else None)"

fun b64_sextets :: "nat list \<Rightarrow> nat list" where
  "b64_sextets [] = []"
| "b64_sextets [a] = [a div 4, a mod 4 * 16]"
| "b64_sextets [a, b] = [a div 4, a mod 4 * 16 + b div 16, b mod 16 * 4]"
| "b64_sextets (a # b # c # r) =
     [a div 4, a mod 4 * 16 + b div 16, b mod 16 * 4 + c div 64, c mod 64] @ b64_sextets r"

fun b64_octets :: "nat list \<Rightarrow> nat list option" where
  "b64_octets [] = Some []"
| "b64_octets [w] = None"
| "b64_octets [w, x] = Some [w * 4 + x div 16]"
| "b64_octets [w, x, y] = Some [w * 4 + x div 16, x mod 16 * 16 + y div 4]"
| "b64_octets (w # x # y # z # r) =
     map_option (\<lambda>t. [w * 4 + x div 16, x mod 16 * 16 + y div 4, y mod 4 * 64 + z] @ t) (b64_octets r)"

definition b64_encode :: "string \<Rightarrow> string" where
  "b64_encode s = map b64_char (b64_sextets (map of_char s))"

definition b64_decode :: "string \<Rightarrow> string option" where
  "b64_decode s =
     (case those (map b64_val (filter (\<lambda>c. c \<noteq> CHR 0x0A \<and> c \<noteq> CHR 0x0D) s)) of
        None \<Rightarrow> None
      | Some vs \<Rightarrow> map_option (map char_of) (b64_octets vs))"

section \<open>Round trip\<close>

lemma of_char_of_small: "n < 256 \<Longrightarrow> of_char (char_of n :: char) = (n :: nat)"
  by simp

lemma b64_cases:
  "n < 64 \<Longrightarrow>
     (n < 26 \<and> b64_char n = char_of (65 + n)) \<or>
     (26 \<le> n \<and> n < 52 \<and> b64_char n = char_of (71 + n)) \<or>
     (52 \<le> n \<and> n < 62 \<and> b64_char n = char_of (n - 4)) \<or>
     (n = 62 \<and> b64_char n = CHR ''-'') \<or> (n = 63 \<and> b64_char n = CHR ''_'')"
  by (auto simp: b64_char_def)

lemma b64_val_char: "n < 64 \<Longrightarrow> b64_val (b64_char n) = Some n"
  using b64_cases [of n] by (auto simp: b64_val_def Let_def)

lemma b64_char_safe: "n < 64 \<Longrightarrow> b64_char n \<notin> {CHR 0x0A, CHR 0x0D, CHR ''.''}"
proof
  assume n: "n < 64" and "b64_char n \<in> {CHR 0x0A, CHR 0x0D, CHR ''.''}"
  then have "of_char (b64_char n) \<in> {10, 13, 46 :: nat}" by auto
  with b64_cases [OF n] show False by auto
qed

lemma sextets_bound: "\<forall>a \<in> set os. a < 256 \<Longrightarrow> \<forall>v \<in> set (b64_sextets os). v < 64"
proof (induction os rule: b64_sextets.induct)
  case (2 a)
  then have "a < 256" by simp
  then have "a div 4 < 64" "a mod 4 * 16 < 64" by linarith+
  then show ?case by simp
next
  case (3 a b)
  then have "a < 256" "b < 256" by simp_all
  then have "a div 4 < 64" "a mod 4 * 16 + b div 16 < 64" "b mod 16 * 4 < 64" by linarith+
  then show ?case by simp
next
  case (4 a b c r)
  then have "a < 256" "b < 256" "c < 256" by simp_all
  then have "a div 4 < 64" "a mod 4 * 16 + b div 16 < 64" "b mod 16 * 4 + c div 64 < 64"
    by linarith+
  with 4 show ?case by simp
qed simp

lemma pack16: "(y::nat) < 16 \<Longrightarrow> (x * 16 + y) div 16 = x" "(y::nat) < 16 \<Longrightarrow> (x * 16 + y) mod 16 = y"
  by simp_all

lemma pack4: "(y::nat) < 4 \<Longrightarrow> (x * 4 + y) div 4 = x" "(y::nat) < 4 \<Longrightarrow> (x * 4 + y) mod 4 = y"
  by simp_all

lemma octets_sextets: "\<forall>a \<in> set os. a < 256 \<Longrightarrow> b64_octets (b64_sextets os) = Some os"
proof (induction os rule: b64_sextets.induct)
  case (3 a b)
  then have "b < 256" by simp
  then have "b div 16 < 16" by linarith
  then show ?case by (simp add: pack16)
next
  case (4 a b c r)
  then have "b < 256" "c < 256" by simp_all
  then have "b div 16 < 16" "c div 64 < 4" by linarith+
  with 4 show ?case by (simp add: pack16 pack4)
qed simp_all

lemma of_char_less: "(of_char (c::char) :: nat) < 256"
  by (metis of_char_mod_256 mod_less_divisor zero_less_numeral)

text \<open>Encoding a byte string and decoding it gives it back.\<close>

lemma b64_roundtrip: "b64_decode (b64_encode s) = Some s"
proof -
  let ?v = "b64_sextets (map of_char s)"
  have os: "\<forall>a \<in> set (map of_char s). a < (256::nat)" by (auto simp: of_char_less)
  have v: "\<forall>n \<in> set ?v. n < 64" by (rule sextets_bound [OF os])
  have "filter (\<lambda>c. c \<noteq> CHR 0x0A \<and> c \<noteq> CHR 0x0D) (b64_encode s) = b64_encode s"
    using v b64_char_safe by (auto simp: b64_encode_def filter_id_conv)
  moreover have "map b64_val (b64_encode s) = map Some ?v"
    using v by (auto simp: b64_encode_def b64_val_char)
  moreover have "map char_of (map of_char s :: nat list) = s"
    by (simp add: comp_def map_idI)
  ultimately show ?thesis
    using octets_sextets [OF os] by (simp add: b64_decode_def those_eq_Some_iff [THEN iffD2])
qed

lemma b64_encode_no_dot: "CHR ''.'' \<notin> set (b64_encode s)"
proof -
  have "\<forall>n \<in> set (b64_sextets (map of_char s)). n < 64"
    by (rule sextets_bound) (auto simp: of_char_less)
  then show ?thesis using b64_char_safe by (fastforce simp: b64_encode_def)
qed

end
