(* ===== verification/Jwt.thy ===== *)
theory Jwt
  imports Base64 JsonText
begin

text \<open>
  The tokens of \<open>github.com/golang-jwt/jwt/v5\<close> as the server uses them: \<open>jwt.Parse\<close> with the key
  function of \<open>internal/middleware/auth.go\<close>, and \<open>jwt.NewWithClaims(...).SignedString\<close> as in
  \<open>Handler.Login\<close>. The package is vendored (\<open>parser.go\<close>, \<open>validator.go\<close>, \<open>map_claims.go\<close>, \<open>token.go\<close>,
  \<open>hmac.go\<close>); the parts on the way of a token are written out. The hash functions are the
  argument \<open>mac\<close>: \<open>mac alg key text\<close> is the HMAC with the hash of the method \<open>alg\<close>. Dates of a claim
  outside the range of 64-bit seconds, which no token of this server has, are not modelled.
\<close>

type_synonym mac = "string \<Rightarrow> string \<Rightarrow> string \<Rightarrow> string"

datatype jwt_error =
    TokenMalformed
  | TokenUnverifiable
  | TokenSignatureInvalid
  | TokenInvalidClaims

text \<open>The signing methods the package registers.\<close>

datatype jwt_method = HmacMethod string | OtherMethod string

definition hmac_methods :: "string list" where
  "hmac_methods = [''HS256'', ''HS384'', ''HS512'']"

definition other_methods :: "string list" where
  "other_methods =
     [''ES256'', ''ES384'', ''ES512'', ''EdDSA'', ''none'', ''RS256'', ''RS384'', ''RS512'',
      ''PS256'', ''PS384'', ''PS512'']"

definition GetSigningMethod :: "string \<Rightarrow> jwt_method option" where
  "GetSigningMethod alg =
     (if alg \<in> set hmac_methods then Some (HmacMethod alg)
      else if alg \<in> set other_methods then Some (OtherMethod alg)
      else None)"

record jwt_token =
  tk_method :: jwt_method
  tk_claims :: gomap
  tk_text :: string
  tk_signature :: string

section \<open>Parsing\<close>

text \<open>
  \<open>json.Unmarshal\<close> into the header map, and into a copy of the (empty) claims map: \<open>null\<close> leaves the
  claims empty.
\<close>

definition unmarshal_map :: "string \<Rightarrow> (jwt_error + gomap)" where
  "unmarshal_map s =
     (case json_whole s of
        None \<Rightarrow> Inl TokenMalformed
      | Some j \<Rightarrow>
          (case decode_map j (Some []) of
             (m, e) \<Rightarrow> if e then Inl TokenMalformed else Inr (case m of None \<Rightarrow> [] | Some kvs \<Rightarrow> kvs)))"

definition decode_segment :: "string \<Rightarrow> jwt_error + string" where
  "decode_segment s = (case b64_decode s of None \<Rightarrow> Inl TokenMalformed | Some t \<Rightarrow> Inr t)"

definition header_method :: "gomap \<Rightarrow> jwt_error + jwt_method" where
  "header_method h =
     (case map_of h ''alg'' of
        Some (JStr alg) \<Rightarrow>
          (case GetSigningMethod alg of None \<Rightarrow> Inl TokenUnverifiable | Some m \<Rightarrow> Inr m)
      | _ \<Rightarrow> Inl TokenUnverifiable)"

definition ParseUnverified :: "string \<Rightarrow> jwt_error + jwt_method \<times> gomap \<times> string list" where
  "ParseUnverified tok =
     (case split_on CHR ''.'' tok of
        [h, c, s] \<Rightarrow>
          (case decode_segment h of
             Inl e \<Rightarrow> Inl e
           | Inr ht \<Rightarrow>
               (case unmarshal_map ht of
                  Inl e \<Rightarrow> Inl e
                | Inr hm \<Rightarrow>
                    (case decode_segment c of
                       Inl e \<Rightarrow> Inl e
                     | Inr ct \<Rightarrow>
                         (case unmarshal_map ct of
                            Inl e \<Rightarrow> Inl e
                          | Inr cm \<Rightarrow>
                              (case header_method hm of
                                 Inl e \<Rightarrow> Inl e
                               | Inr m \<Rightarrow> Inr (m, cm, [h, c, s]))))))
      | _ \<Rightarrow> Inl TokenMalformed)"

text \<open>A numeric date: absent and zero are no date; a fraction of a second is cut off.\<close>

definition claim_date :: "gomap \<Rightarrow> string \<Rightarrow> jwt_error + int option" where
  "claim_date claims k =
     (case map_of claims k of
        None \<Rightarrow> Inr None
      | Some (JNum q) \<Rightarrow> Inr (if q = 0 then None else Some \<lfloor>q\<rfloor>)
      | Some _ \<Rightarrow> Inl TokenInvalidClaims)"

definition nanos :: int where
  "nanos = 10 ^ 9"

definition exp_ok :: "int \<Rightarrow> gomap \<Rightarrow> bool" where
  "exp_ok now claims \<longleftrightarrow>
     (case claim_date claims ''exp'' of
        Inl e \<Rightarrow> False
      | Inr None \<Rightarrow> True
      | Inr (Some d) \<Rightarrow> now < d * nanos)"

definition nbf_ok :: "int \<Rightarrow> gomap \<Rightarrow> bool" where
  "nbf_ok now claims \<longleftrightarrow>
     (case claim_date claims ''nbf'' of
        Inl e \<Rightarrow> False
      | Inr None \<Rightarrow> True
      | Inr (Some d) \<Rightarrow> \<not> now < d * nanos)"

text \<open>The key function of the server: the secret, and only for an HMAC method.\<close>

definition auth_key :: "string \<Rightarrow> jwt_method \<Rightarrow> jwt_error + string" where
  "auth_key secret m = (case m of HmacMethod _ \<Rightarrow> Inr secret | OtherMethod _ \<Rightarrow> Inl TokenSignatureInvalid)"

definition method_verify :: "mac \<Rightarrow> jwt_method \<Rightarrow> string \<Rightarrow> string \<Rightarrow> string \<Rightarrow> bool" where
  "method_verify mac m text sig key \<longleftrightarrow>
     (case m of HmacMethod alg \<Rightarrow> sig = mac alg key text | OtherMethod _ \<Rightarrow> False)"

definition jwt_parse :: "mac \<Rightarrow> string \<Rightarrow> int \<Rightarrow> string \<Rightarrow> jwt_error + jwt_token" where
  "jwt_parse mac secret now tok =
     (case ParseUnverified tok of
        Inl e \<Rightarrow> Inl e
      | Inr (m, claims, parts) \<Rightarrow>
          (case decode_segment (parts ! 2) of
             Inl e \<Rightarrow> Inl e
           | Inr sig \<Rightarrow>
               (let text = parts ! 0 @ ''.'' @ parts ! 1 in
                case auth_key secret m of
                  Inl e \<Rightarrow> Inl TokenUnverifiable
                | Inr key \<Rightarrow>
                    if \<not> method_verify mac m text sig key then Inl TokenSignatureInvalid
                    else if \<not> (exp_ok now claims \<and> nbf_ok now claims) then Inl TokenInvalidClaims
                    else Inr \<lparr>tk_method = m, tk_claims = claims, tk_text = text, tk_signature = sig\<rparr>)))"

section \<open>Signing\<close>

definition quoted :: "string \<Rightarrow> string" where
  "quoted s = [CHR 0x22] @ s @ [CHR 0x22]"

text \<open>\<open>json.Marshal\<close> of the header and of the claims of a login: the keys in order.\<close>

definition header_text :: string where
  "header_text =
     ''{'' @ quoted ''alg'' @ '':'' @ quoted ''HS256'' @ '','' @ quoted ''typ'' @ '':'' @ quoted ''JWT'' @ ''}''"

definition claims_text :: "int \<Rightarrow> int \<Rightarrow> string" where
  "claims_text expires issued =
     ''{'' @ quoted ''admin'' @ '':true,'' @ quoted ''exp'' @ '':'' @ show_int expires @ '','' @
     quoted ''iat'' @ '':'' @ show_int issued @ ''}''"

definition signed_string :: "mac \<Rightarrow> string \<Rightarrow> string \<Rightarrow> string \<Rightarrow> string" where
  "signed_string mac secret header claims =
     (let text = b64_encode header @ ''.'' @ b64_encode claims
      in text @ ''.'' @ b64_encode (mac ''HS256'' secret text))"

definition unix :: "int \<Rightarrow> int" where
  "unix t = t div nanos"

definition login_token :: "mac \<Rightarrow> string \<Rightarrow> int \<Rightarrow> string" where
  "login_token mac secret now =
     signed_string mac secret header_text (claims_text (unix (now + 24 * 3600 * nanos)) (unix now))"

section \<open>The texts of a login token\<close>

lemma json_whole_header:
  "json_whole header_text = Some (JObj [(''alg'', JStr ''HS256''), (''typ'', JStr ''JWT'')])"
  by code_simp

lemma takeWhile_digits: "takeWhile is_digit (show_nat n @ c # r) = show_nat n"
  if "\<not> is_digit c"
  using that show_nat_digits [of _ n] by (subst takeWhile_append2) (auto simp: is_digit_def)

lemma dropWhile_digits: "dropWhile is_digit (show_nat n @ c # r) = c # r"
  if "\<not> is_digit c"
  using that show_nat_digits [of _ n] by (subst dropWhile_append2) (auto simp: is_digit_def)

lemma hd_show_nat: "0 < n \<Longrightarrow> hd (show_nat n) \<noteq> CHR ''0''"
proof (induction n rule: show_nat.induct)
  case (1 n)
  show ?case
  proof (cases "n < 10")
    case True
    have "char_of (48 + n) \<noteq> CHR ''0''"
    proof
      assume "char_of (48 + n) = CHR ''0''"
      then have "of_char (char_of (48 + n) :: char) = (48 :: nat)" by simp
      with 1 True show False by simp
    qed
    with True show ?thesis by (simp add: show_nat.simps [of n])
  next
    case False
    then have "hd (show_nat n) = hd (show_nat (n div 10))"
      by (simp add: show_nat.simps [of n] show_nat_ne)
    with 1 False show ?thesis by simp
  qed
qed

lemma digits_val_show [simp]: "digits_val (show_nat n) = n"
  by (simp add: digits_val_def parse_show_nat)

lemma scan_number_nat:
  assumes "0 < n" "\<not> is_digit c" "c \<notin> {CHR ''.'', CHR ''e'', CHR ''E''}"
  shows "scan_number (show_nat n @ c # r) = Some (JNum (round64 (of_nat n)), c # r)"
proof -
  obtain d ds where s: "show_nat n = d # ds" using show_nat_ne [of n] by (cases "show_nat n") auto
  have d0: "d \<noteq> CHR ''0''" using hd_show_nat [OF assms(1)] s by simp
  have "digit_val d \<noteq> None" using show_nat_digits [of d n] s by simp
  then have dm: "d \<noteq> CHR ''-''" by (auto simp: digit_val_def)
  have "scan_digits (show_nat n @ c # r) = (show_nat n, c # r)"
    using assms(2) by (simp add: scan_digits_def takeWhile_digits dropWhile_digits)
  with d0 have "scan_int (show_nat n @ c # r) = Some (show_nat n, c # r)"
    by (simp add: scan_int_def s)
  then have "scan_unsigned (show_nat n @ c # r) = Some (of_nat n, c # r)"
    using assms(3) by (simp add: scan_unsigned_def scan_frac_def scan_exp_def pow10_def)
  with dm show ?thesis by (simp add: scan_number_def s)
qed

definition plain_char :: "char \<Rightarrow> bool" where
  "plain_char c \<longleftrightarrow> 0x20 \<le> byte c \<and> byte c < 0x80 \<and> c \<noteq> CHR 0x22 \<and> c \<noteq> CHR 0x5C"

lemma scan_string_plain: "list_all plain_char s \<Longrightarrow> scan_string (s @ CHR 0x22 # r) = Some (s, r)"
proof (induction s)
  case Nil
  show ?case by (simp add: scan_string.simps)
next
  case (Cons c s)
  then have c: "plain_char c" by simp
  then have "rune_len (c # s @ CHR 0x22 # r) = 1" by (simp add: rune_len_def plain_char_def)
  with c Cons show ?case by (simp add: scan_string.simps [of "c # s'" for s'] plain_char_def cons_str_def)
qed

lemma scan_token_quoted: "list_all plain_char s \<Longrightarrow> scan_token (quoted s @ r) = Some (TLit (JStr s), r)"
  by (simp add: scan_token_def quoted_def is_ws_def scan_string_plain)

lemma scan_token_punct:
  "scan_token (CHR ''{'' # r) = Some (TLBrace, r)" "scan_token (CHR ''}'' # r) = Some (TRBrace, r)"
  "scan_token (CHR '','' # r) = Some (TComma, r)" "scan_token (CHR '':'' # r) = Some (TColon, r)"
  "scan_token (''true'' @ r) = Some (TLit (JBool True), r)"
  by (simp_all add: scan_token_def is_ws_def scan_word_def has_prefix_def)

lemma scan_token_nat:
  assumes "0 < n" "c = CHR '','' \<or> c = CHR ''}''"
  shows "scan_token (show_nat n @ c # r) = Some (TLit (JNum (round64 (of_nat n))), c # r)"
proof -
  obtain d ds where s: "show_nat n = d # ds" using show_nat_ne [of n] by (cases "show_nat n") auto
  have "digit_val d \<noteq> None" using show_nat_digits [of d n] s by simp
  then have "48 \<le> (of_char d :: nat)" "(of_char d :: nat) \<le> 57"
    by (auto simp: digit_val_def Let_def split: if_splits)
  then have d: "\<not> is_ws d" "d \<notin> {CHR ''{'', CHR ''}'', CHR ''['', CHR '']'', CHR '','', CHR '':'',
      CHR 0x22, CHR ''t'', CHR ''f'', CHR ''n''}"
    by (auto simp: is_ws_def)
  have "\<not> is_digit c" "c \<notin> {CHR ''.'', CHR ''e'', CHR ''E''}"
    using assms(2) by (auto simp: is_digit_def digit_val_def)
  from scan_number_nat [OF assms(1) this] d show ?thesis by (simp add: scan_token_def s)
qed

lemma parse_loop_step:
  "scan_token s = Some (tk, r) \<Longrightarrow> parse_step tk fs st = Some (fs', st') \<Longrightarrow>
   fs \<noteq> [] \<or> (\<forall>v. st \<noteq> EDone v) \<Longrightarrow> parse_loop fs st s = parse_loop fs' st' r"
  by (subst parse_loop.simps) (auto split: list.splits expect.splits)

lemma parse_loop_done: "parse_loop [] (EDone v) s = Some (v, s)"
  by (simp add: parse_loop.simps)

text \<open>Parsing a member of an object: the key, the colon and a value that is a single token.\<close>

lemma parse_member:
  assumes "list_all plain_char k" "scan_token s = Some (TLit v, r)"
    and "st = EKey \<or> st = EKeyOrEnd"
  shows "parse_loop (FObj kvs # fs) st (quoted k @ '':'' @ s) = parse_loop (FMem kvs k # fs) (EDone v) r"
proof -
  have "parse_loop (FObj kvs # fs) st (quoted k @ '':'' @ s) = parse_loop (FObj kvs # fs) (EColon k) ('':'' @ s)"
    using assms(3) by (intro parse_loop_step [OF scan_token_quoted [OF assms(1)]])
      (auto simp: parse_step_def begin_key_def)
  also have "\<dots> = parse_loop (FMem kvs k # fs) EValue s"
    by (rule parse_loop_step [where tk = TColon]) (simp_all add: scan_token_punct parse_step_def)
  also have "\<dots> = parse_loop (FMem kvs k # fs) (EDone v) r"
    by (rule parse_loop_step [OF assms(2)]) (simp_all add: parse_step_def begin_value_def)
  finally show ?thesis .
qed

lemma parse_comma: "parse_loop (FMem kvs k # fs) (EDone v) ('','' @ s) = parse_loop (FObj ((k, v) # kvs) # fs) EKey s"
  by (rule parse_loop_step [where tk = TComma]) (simp_all add: scan_token_punct parse_step_def after_value_def)

lemma parse_close: "parse_loop (FMem kvs k # fs) (EDone v) (CHR ''}'' # s) =
    parse_loop fs (EDone (JObj (rev ((k, v) # kvs)))) s"
  by (rule parse_loop_step [where tk = TRBrace]) (simp_all add: scan_token_punct parse_step_def after_value_def)

lemma json_whole_claims:
  assumes "0 < e" "e < 2 ^ 53" "0 < i" "i < 2 ^ 53"
  shows "json_whole (claims_text e i) =
    Some (JObj [(''admin'', JBool True), (''exp'', JNum (of_int e)), (''iat'', JNum (of_int i))])"
proof -
  have num: "scan_token (show_int n @ c # r) = Some (TLit (JNum (of_int n)), c # r)"
    if "0 < n" "n < 2 ^ 53" "c = CHR '','' \<or> c = CHR ''}''" for n c r
    using that round64_int [of n] scan_token_nat [of "nat n" c r] by (simp add: show_int_def)
  have keys: "list_all plain_char ''admin''" "list_all plain_char ''exp''" "list_all plain_char ''iat''"
    by code_simp+
  let ?r3 = "quoted ''iat'' @ '':'' @ show_int i @ ''}''"
  let ?r2 = "quoted ''exp'' @ '':'' @ show_int e @ '','' @ ?r3"
  let ?r1 = "quoted ''admin'' @ '':'' @ ''true'' @ '','' @ ?r2"
  have "claims_text e i = CHR ''{'' # ?r1" by (simp add: claims_text_def)
  moreover have "parse_loop [] EValue (CHR ''{'' # ?r1) = parse_loop [FObj []] EKeyOrEnd ?r1"
    by (rule parse_loop_step [where tk = TLBrace])
      (simp_all add: scan_token_punct parse_step_def begin_value_def)
  moreover have "\<dots> = parse_loop [FMem [] ''admin''] (EDone (JBool True)) ('','' @ ?r2)"
    by (rule parse_member [OF keys(1) scan_token_punct(5)]) simp
  moreover have "parse_loop [FObj [(''admin'', JBool True)]] EKey ?r2 =
      parse_loop [FMem [(''admin'', JBool True)] ''exp''] (EDone (JNum (of_int e))) ('','' @ ?r3)"
    using num [OF assms(1,2), of "CHR '',''"] by (intro parse_member [OF keys(2)]) simp_all
  moreover have "parse_loop [FObj [(''exp'', JNum (of_int e)), (''admin'', JBool True)]] EKey ?r3 =
      parse_loop [FMem [(''exp'', JNum (of_int e)), (''admin'', JBool True)] ''iat''] (EDone (JNum (of_int i))) ''}''"
    using num [OF assms(3,4), of "CHR ''}''" "[]"] by (intro parse_member [OF keys(3)]) simp_all
  ultimately show ?thesis
    by (simp only: json_whole_def parse_comma parse_close parse_loop_done) simp
qed

section \<open>Parsing what was signed\<close>

lemma unix_later: "unix (t + 24 * 3600 * nanos) = unix t + 86400"
  by (simp add: unix_def nanos_def)

lemma split_token:
  "split_on CHR ''.'' (signed_string mac secret h c) =
     [b64_encode h, b64_encode c,
      b64_encode (mac ''HS256'' secret (b64_encode h @ ''.'' @ b64_encode c))]"
proof -
  have s: "split_on CHR ''.'' (b64_encode x @ CHR ''.'' # t) = b64_encode x # split_on CHR ''.'' t" for x t
    using b64_encode_no_dot by (rule split_on_append)
  have n: "split_on CHR ''.'' (b64_encode x) = [b64_encode x]" for x
    using b64_encode_no_dot by (rule split_on_notin)
  show ?thesis by (simp add: signed_string_def Let_def s n)
qed

lemma unmarshal_header: "unmarshal_map header_text = Inr [(''alg'', JStr ''HS256''), (''typ'', JStr ''JWT'')]"
  by (simp add: unmarshal_map_def json_whole_header decode_map_def)

lemma unmarshal_claims:
  assumes "0 < e" "e < 2 ^ 53" "0 < i" "i < 2 ^ 53"
  shows "unmarshal_map (claims_text e i) =
    Inr [(''admin'', JBool True), (''exp'', JNum (of_int e)), (''iat'', JNum (of_int i))]"
proof -
  have lt: "\<bar>of_int n :: rat\<bar> < 2 ^ 1024" if "0 < n" "n < 2 ^ 53" for n
  proof -
    have "(of_int n :: rat) < of_int (2 ^ 53)" using that by (simp only: of_int_less_iff)
    with that show ?thesis by simp
  qed
  have "\<bar>of_int e :: rat\<bar> < 2 ^ 1024" "\<bar>of_int i :: rat\<bar> < 2 ^ 1024" using assms lt by blast+
  then show ?thesis
    unfolding unmarshal_map_def json_whole_claims [OF assms]
    by (simp add: decode_map_def not_le del: power_numeral)
qed

text \<open>A token of the login is valid until 24 hours (counted in whole seconds) after it was issued.\<close>

lemma login_token_parse:
  assumes "0 < unix t" "unix t < 2 ^ 52"
  shows "jwt_parse mac secret now (login_token mac secret t) =
    (if now < (unix t + 86400) * nanos
     then Inr \<lparr>tk_method = HmacMethod ''HS256'',
        tk_claims = [(''admin'', JBool True), (''exp'', JNum (of_int (unix t + 86400))),
          (''iat'', JNum (of_int (unix t)))],
        tk_text = b64_encode header_text @ ''.'' @ b64_encode (claims_text (unix t + 86400) (unix t)),
        tk_signature = mac ''HS256'' secret
          (b64_encode header_text @ ''.'' @ b64_encode (claims_text (unix t + 86400) (unix t)))\<rparr>
     else Inl TokenInvalidClaims)"
proof -
  let ?e = "unix t + 86400"
  have u: "unmarshal_map (claims_text ?e (unix t)) =
      Inr [(''admin'', JBool True), (''exp'', JNum (of_int ?e)), (''iat'', JNum (of_int (unix t)))]"
    by (rule unmarshal_claims) (use assms in simp_all)
  have m: "header_method [(''alg'', JStr ''HS256''), (''typ'', JStr ''JWT'')] = Inr (HmacMethod ''HS256'')"
    by (simp add: header_method_def GetSigningMethod_def hmac_methods_def)
  have lt: "login_token mac secret t = signed_string mac secret header_text (claims_text ?e (unix t))"
    unfolding login_token_def unix_later ..
  have p: "ParseUnverified (login_token mac secret t) =
      Inr (HmacMethod ''HS256'',
        [(''admin'', JBool True), (''exp'', JNum (of_int ?e)), (''iat'', JNum (of_int (unix t)))],
        split_on CHR ''.'' (login_token mac secret t))"
    unfolding lt
    by (simp add: ParseUnverified_def split_token decode_segment_def b64_roundtrip unmarshal_header u m)
  have e: "exp_ok now [(''admin'', JBool True), (''exp'', JNum (of_int ?e)), (''iat'', JNum (of_int (unix t)))]
      \<longleftrightarrow> now < ?e * nanos"
    using assms by (simp add: exp_ok_def claim_date_def)
  have n: "nbf_ok now [(''admin'', JBool True), (''exp'', JNum (of_int ?e)), (''iat'', JNum (of_int (unix t)))]"
    by (simp add: nbf_ok_def claim_date_def)
  show ?thesis
    unfolding jwt_parse_def p
    by (simp add: lt split_token decode_segment_def b64_roundtrip auth_key_def
        method_verify_def e n Let_def del: of_int_add)
qed

text \<open>
  Whatever is accepted carries a signature of the secret over its first two segments, by an HMAC
  method, and has not expired.
\<close>

definition well_signed :: "mac \<Rightarrow> string \<Rightarrow> int \<Rightarrow> string \<Rightarrow> bool" where
  "well_signed mac secret now tok \<longleftrightarrow>
     (\<exists>h c s alg. split_on CHR ''.'' tok = [h, c, s] \<and> alg \<in> set hmac_methods \<and>
        b64_decode s = Some (mac alg secret (h @ ''.'' @ c)) \<and>
        (\<exists>claims. (\<exists>ct. b64_decode c = Some ct \<and> unmarshal_map ct = Inr claims) \<and>
          exp_ok now claims \<and> nbf_ok now claims))"

lemma ParseUnverified_Inr:
  assumes "ParseUnverified tok = Inr (m, claims, parts)"
  obtains h c s ct where "split_on CHR ''.'' tok = [h, c, s]" "parts = [h, c, s]"
    "b64_decode c = Some ct" "unmarshal_map ct = Inr claims"
    "\<exists>alg. GetSigningMethod alg = Some m"
  using assms
  by (auto simp: ParseUnverified_def decode_segment_def header_method_def
      split: list.splits sum.splits option.splits json.splits)

lemma GetSigningMethod_hmac: "GetSigningMethod a = Some (HmacMethod alg) \<Longrightarrow> alg \<in> set hmac_methods"
  by (auto simp: GetSigningMethod_def split: if_splits)

lemma jwt_parse_sound:
  assumes "jwt_parse mac secret now tok = Inr tk"
  shows "well_signed mac secret now tok"
proof -
  from assms obtain m claims parts where p: "ParseUnverified tok = Inr (m, claims, parts)"
    by (auto simp: jwt_parse_def split: sum.splits)
  from p obtain h c s ct a where pts: "split_on CHR ''.'' tok = [h, c, s]" "parts = [h, c, s]"
    and cl: "b64_decode c = Some ct" "unmarshal_map ct = Inr claims" and a: "GetSigningMethod a = Some m"
    by (rule ParseUnverified_Inr) blast
  from assms p pts obtain alg where "m = HmacMethod alg"
    and sig: "b64_decode s = Some (mac alg secret (h @ ''.'' @ c))"
    and ok: "exp_ok now claims" "nbf_ok now claims"
    by (auto simp: jwt_parse_def decode_segment_def auth_key_def method_verify_def Let_def
        split: sum.splits option.splits jwt_method.splits if_splits)
  moreover have "alg \<in> set hmac_methods" using a \<open>m = HmacMethod alg\<close> GetSigningMethod_hmac by simp
  ultimately show ?thesis using pts(1) cl unfolding well_signed_def by blast
qed

end
