(* ===== verification/RateLimiter.thy ===== *)
theory RateLimiter
  imports GoLib Float64
begin

text \<open>
  \<open>internal/middleware/ratelimit.go\<close>: a limiter for each client address. The limiter itself is
  \<open>golang.org/x/time/rate\<close>, a package of its own: \<open>rate.NewLimiter\<close> and \<open>Allow\<close> are the argument
  \<open>api\<close> of the definitions. What the code relies on is the locale \<open>idle_limiter\<close>: a limiter that was
  not used for ten minutes answers as a new one does. The theory \<open>TokenBucket\<close> discharges it.
\<close>

section \<open>State and operations\<close>

record 'l limiter_api =
  new_limiter :: "rat \<Rightarrow> int \<Rightarrow> 'l"
  allow :: "int \<Rightarrow> 'l \<Rightarrow> bool \<times> 'l"

record 'l visitor =
  limiter :: 'l
  lastSeen :: int

record 'l rate_limiter =
  visitors :: "string \<rightharpoonup> 'l visitor"
  rps :: rat
  burst :: int

text \<open>Go's integer division truncates toward zero.\<close>

definition go_div :: "int \<Rightarrow> int \<Rightarrow> int" where
  "go_div a b = sgn a * sgn b * (\<bar>a\<bar> div \<bar>b\<bar>)"

definition limit_of :: "int \<Rightarrow> rat" where
  "limit_of perMinute = round64 (round64 (of_int perMinute) / 60)"

definition NewRateLimiter :: "int \<Rightarrow> 'l rate_limiter" where
  "NewRateLimiter perMinute =
     \<lparr>visitors = (\<lambda>_. None), rps = limit_of perMinute, burst = go_div perMinute 4\<rparr>"

definition idle_time :: int where
  "idle_time = 10 * 60 * 10 ^ 9"

text \<open>One tick of the goroutine \<open>cleanup\<close>.\<close>

definition rl_cleanup :: "int \<Rightarrow> 'l rate_limiter \<Rightarrow> 'l rate_limiter" where
  "rl_cleanup now rl =
     rl\<lparr>visitors := (\<lambda>ip. case visitors rl ip of
         None \<Rightarrow> None
       | Some v \<Rightarrow> if now - lastSeen v > idle_time then None else Some v)\<rparr>"

definition getLimiter ::
  "'l limiter_api \<Rightarrow> int \<Rightarrow> string \<Rightarrow> 'l rate_limiter \<Rightarrow> 'l \<times> 'l rate_limiter" where
  "getLimiter api now ip rl =
     (let l = (case visitors rl ip of
                 None \<Rightarrow> new_limiter api (rps rl) (burst rl)
               | Some v \<Rightarrow> limiter v)
      in (l, rl\<lparr>visitors := (visitors rl)(ip \<mapsto> \<lparr>limiter = l, lastSeen = now\<rparr>)\<rparr>))"

text \<open>\<open>rl.getLimiter(ip).Allow()\<close>: the limiter in the map is changed in place.\<close>

definition rl_allow ::
  "'l limiter_api \<Rightarrow> int \<Rightarrow> string \<Rightarrow> 'l rate_limiter \<Rightarrow> bool \<times> 'l rate_limiter" where
  "rl_allow api now ip rl =
     (let (l, rl1) = getLimiter api now ip rl;
          (ok, l1) = allow api now l
      in (ok, rl1\<lparr>visitors := (visitors rl1)(ip \<mapsto> \<lparr>limiter = l1, lastSeen = now\<rparr>)\<rparr>))"

section \<open>Histories\<close>

text \<open>A request of a client, or a tick of the cleanup, with its time.\<close>

datatype rl_event = RLRequest string | RLCleanup

fun run_rl ::
  "'l limiter_api \<Rightarrow> 'l rate_limiter \<Rightarrow> (int \<times> rl_event) list \<Rightarrow> (string \<times> bool) list" where
  "run_rl api rl [] = []"
| "run_rl api rl ((t, RLCleanup) # evs) = run_rl api (rl_cleanup t rl) evs"
| "run_rl api rl ((t, RLRequest ip) # evs) =
     (let (ok, rl1) = rl_allow api t ip rl in (ip, ok) # run_rl api rl1 evs)"

text \<open>One limiter of its own, asked at the given times.\<close>

fun run_limiter :: "'l limiter_api \<Rightarrow> 'l \<Rightarrow> int list \<Rightarrow> bool list" where
  "run_limiter api l [] = []"
| "run_limiter api l (t # ts) = (let (ok, l1) = allow api t l in ok # run_limiter api l1 ts)"

fun times_of :: "string \<Rightarrow> (int \<times> rl_event) list \<Rightarrow> int list" where
  "times_of ip [] = []"
| "times_of ip ((t, RLCleanup) # evs) = times_of ip evs"
| "times_of ip ((t, RLRequest ip') # evs) =
     (if ip' = ip then t # times_of ip evs else times_of ip evs)"

definition answers_for :: "string \<Rightarrow> (string \<times> bool) list \<Rightarrow> bool list" where
  "answers_for ip ds = map snd (filter (\<lambda>d. fst d = ip) ds)"

section \<open>The contract of the limiter\<close>

text \<open>
  \<open>used l u\<close>: \<open>l\<close> is a limiter of this rate that was last asked at time \<open>u\<close>.
\<close>

locale idle_limiter =
  fixes api :: "'l limiter_api"
    and r :: rat
    and b :: int
    and used :: "'l \<Rightarrow> int \<Rightarrow> bool"
  assumes used_new: "used (snd (allow api t (new_limiter api r b))) t"
    and used_allow: "used l u \<Longrightarrow> u \<le> t \<Longrightarrow> used (snd (allow api t l)) t"
    and idle_new: "used l u \<Longrightarrow> idle_time < t - u \<Longrightarrow> allow api t l = allow api t (new_limiter api r b)"
begin

text \<open>
  The limiter of an address that was never dropped (\<open>own\<close>), and what the map holds for it: the same, or
  nothing because it has been idle.
\<close>

definition matches :: "int \<Rightarrow> ('l \<times> int) option \<Rightarrow> 'l visitor option \<Rightarrow> bool" where
  "matches now own v \<longleftrightarrow>
     (case own of
        None \<Rightarrow> v = None
      | Some (l, u) \<Rightarrow> used l u \<and> u \<le> now \<and>
          (v = Some \<lparr>limiter = l, lastSeen = u\<rparr> \<or> v = None \<and> idle_time < now - u))"

definition own_limiter :: "('l \<times> int) option \<Rightarrow> 'l" where
  "own_limiter own = (case own of None \<Rightarrow> new_limiter api r b | Some (l, u) \<Rightarrow> l)"

lemma matches_later: "matches now own v \<Longrightarrow> now \<le> t \<Longrightarrow> matches t own v"
  by (auto simp: matches_def split: option.splits)

lemma matches_cleanup:
  "matches now own (visitors rl ip) \<Longrightarrow> now \<le> t \<Longrightarrow> matches t own (visitors (rl_cleanup t rl) ip)"
  by (auto simp: matches_def rl_cleanup_def split: option.splits)

lemma allow_matches:
  assumes "matches t own v"
  shows "allow api t (case v of None \<Rightarrow> new_limiter api r b | Some w \<Rightarrow> limiter w) =
      allow api t (own_limiter own)"
  using assms by (auto simp: matches_def own_limiter_def idle_new split: option.splits prod.splits)

lemma matches_allow:
  assumes "matches t own v" and "allow api t (own_limiter own) = (ok, l1)"
  shows "matches t (Some (l1, t)) (Some \<lparr>limiter = l1, lastSeen = t\<rparr>)"
proof -
  have "used (snd (allow api t (own_limiter own))) t"
  proof (cases own)
    case None
    show ?thesis unfolding None own_limiter_def by (simp add: used_new)
  next
    case (Some p)
    obtain l u where "p = (l, u)" by force
    have u: "used l u \<and> u \<le> t"
      using assms(1) unfolding Some \<open>p = (l, u)\<close> matches_def by simp
    have l: "own_limiter own = l"
      unfolding Some \<open>p = (l, u)\<close> own_limiter_def by simp
    show ?thesis unfolding l using u by (blast intro: used_allow)
  qed
  with assms(2) show ?thesis by (simp add: matches_def)
qed

lemma answers:
  "rps rl = r \<Longrightarrow> burst rl = b \<Longrightarrow> matches now own (visitors rl ip) \<Longrightarrow>
   sorted (now # map fst evs) \<Longrightarrow>
     answers_for ip (run_rl api rl evs) = run_limiter api (own_limiter own) (times_of ip evs)"
proof (induction evs arbitrary: rl now own)
  case Nil
  then show ?case by (simp add: answers_for_def)
next
  case (Cons e evs)
  obtain t p where e: "e = (t, p)" by force
  have s: "sorted (t # map fst evs)" using Cons.prems(4) e by simp
  have m: "matches t own (visitors rl ip)"
    by (rule matches_later [OF Cons.prems(3)]) (use Cons.prems(4) e in simp)
  show ?case
  proof (cases p)
    case RLCleanup
    have "matches t own (visitors (rl_cleanup t rl) ip)"
      using m by (rule matches_cleanup) simp
    with Cons.IH [of "rl_cleanup t rl" t own] Cons.prems(1,2) s e RLCleanup show ?thesis
      by (simp add: rl_cleanup_def)
  next
    case (RLRequest ip')
    obtain ok rl1 where a: "rl_allow api t ip' rl = (ok, rl1)" by force
    have p1: "rps rl1 = r" "burst rl1 = b"
      using a Cons.prems(1,2) by (auto simp: rl_allow_def getLimiter_def Let_def split: prod.splits)
    show ?thesis
    proof (cases "ip' = ip")
      case False
      with a have "visitors rl1 ip = visitors rl ip"
        by (auto simp: rl_allow_def getLimiter_def Let_def split: prod.splits)
      with Cons.IH [of rl1 t own] p1 m s a e RLRequest False show ?thesis
        by (simp add: answers_for_def)
    next
      case True
      obtain ok' l1 where own: "allow api t (own_limiter own) = (ok', l1)" by force
      have "allow api t (case visitors rl ip of None \<Rightarrow> new_limiter api r b | Some w \<Rightarrow> limiter w) = (ok', l1)"
        using allow_matches [OF m] own by simp
      with a True Cons.prems(1,2) have ok: "ok = ok'"
        and v: "visitors rl1 ip = Some \<lparr>limiter = l1, lastSeen = t\<rparr>"
        by (auto simp: rl_allow_def getLimiter_def Let_def split: prod.splits)
      have "matches t (Some (l1, t)) (visitors rl1 ip)"
        unfolding v using m own by (rule matches_allow)
      with Cons.IH [of rl1 t "Some (l1, t)"] p1 s have "answers_for ip (run_rl api rl1 evs) =
          run_limiter api (own_limiter (Some (l1, t))) (times_of ip evs)" by simp
      with a ok own True e RLRequest show ?thesis by (simp add: answers_for_def own_limiter_def)
    qed
  qed
qed

lemma answers_new:
  assumes "rps rl = r" "burst rl = b" "visitors rl = (\<lambda>_. None)" "sorted (map fst evs)"
  shows "answers_for ip (run_rl api rl evs) =
    run_limiter api (new_limiter api r b) (times_of ip evs)"
proof (cases evs)
  case Nil
  then show ?thesis by (simp add: answers_for_def)
next
  case (Cons e evs')
  with assms answers [of rl "fst e" None ip evs] show ?thesis
    by (simp add: matches_def own_limiter_def)
qed

end

end
