(* ===== verification/Cache.thy ===== *)
theory Cache
  imports Prelude
begin

text \<open>
  \<open>internal/cache/cache.go\<close>: the in-memory cache with a time to live. Time is in nanoseconds; the
  clock value an operation reads is an argument. The contract of the cache is the locale \<open>ttl_cache\<close>;
  its main consequence, proved there once, is that a history of operations, evictions included, is
  observed as a plain table of the latest writes.
\<close>

section \<open>The cache\<close>

record 'v entry =
  cached :: 'v
  expiresAt :: int

record 'v cache =
  entries :: "string \<rightharpoonup> 'v entry"
  ttl :: int

definition cache_new :: "int \<Rightarrow> 'v cache" where
  "cache_new d = \<lparr>entries = (\<lambda>_. None), ttl = d\<rparr>"

definition cache_set :: "int \<Rightarrow> string \<Rightarrow> 'v \<Rightarrow> 'v cache \<Rightarrow> 'v cache" where
  "cache_set now k v c =
     c\<lparr>entries := (entries c)(k \<mapsto> \<lparr>cached = v, expiresAt = now + ttl c\<rparr>)\<rparr>"

definition cache_get :: "int \<Rightarrow> string \<Rightarrow> 'v cache \<Rightarrow> 'v option" where
  "cache_get now k c =
     (case entries c k of
        None \<Rightarrow> None
      | Some e \<Rightarrow> if now > expiresAt e then None else Some (cached e))"

definition cache_flush :: "'v cache \<Rightarrow> 'v cache" where
  "cache_flush c = c\<lparr>entries := (\<lambda>_. None)\<rparr>"

text \<open>One tick of the goroutine \<open>evict\<close>, which runs every 60 seconds.\<close>

definition cache_evict :: "int \<Rightarrow> 'v cache \<Rightarrow> 'v cache" where
  "cache_evict now c =
     c\<lparr>entries := (\<lambda>k. case entries c k of
         None \<Rightarrow> None
       | Some e \<Rightarrow> if now > expiresAt e then None else Some e)\<rparr>"

section \<open>Histories\<close>

datatype 'v cache_op = OpSet string 'v | OpFlush | OpEvict

text \<open>What a read sees according to the history, latest operation first: evictions play no part.\<close>

fun latest :: "int \<Rightarrow> int \<Rightarrow> string \<Rightarrow> (int \<times> 'v cache_op) list \<Rightarrow> 'v option" where
  "latest d now k [] = None"
| "latest d now k ((t, OpFlush) # ops) = None"
| "latest d now k ((t, OpEvict) # ops) = latest d now k ops"
| "latest d now k ((t, OpSet k' v) # ops) =
     (if k' = k then (if now \<le> t + d then Some v else None) else latest d now k ops)"

section \<open>The contract\<close>

locale ttl_cache =
  fixes d :: int
    and new :: 'c
    and get :: "int \<Rightarrow> string \<Rightarrow> 'c \<Rightarrow> 'v option"
    and set :: "int \<Rightarrow> string \<Rightarrow> 'v \<Rightarrow> 'c \<Rightarrow> 'c"
    and flush :: "'c \<Rightarrow> 'c"
    and evict :: "int \<Rightarrow> 'c \<Rightarrow> 'c"
    and inv :: "'c \<Rightarrow> bool"
  assumes inv_new: "inv new"
    and inv_set: "inv c \<Longrightarrow> inv (set t k v c)"
    and inv_flush: "inv c \<Longrightarrow> inv (flush c)"
    and inv_evict: "inv c \<Longrightarrow> inv (evict t c)"
    and get_new: "get now k new = None"
    and get_set: "inv c \<Longrightarrow> get now k' (set t k v c) =
          (if k' = k then (if now \<le> t + d then Some v else None) else get now k' c)"
    and get_flush: "get now k (flush c) = None"
    and get_evict: "t \<le> now \<Longrightarrow> get now k (evict t c) = get now k c"
begin

fun step :: "'c \<Rightarrow> int \<times> 'v cache_op \<Rightarrow> 'c" where
  "step c (t, OpSet k v) = set t k v c"
| "step c (t, OpFlush) = flush c"
| "step c (t, OpEvict) = evict t c"

lemma inv_steps: "inv c \<Longrightarrow> inv (foldl step c ops)"
proof (induction ops arbitrary: c)
  case (Cons p ops)
  then have "inv (step c p)" by (cases "(c, p)" rule: step.cases) (auto intro: inv_set inv_flush inv_evict)
  with Cons.IH show ?case by simp
qed simp

lemma observed:
  "\<forall>(t, p) \<in> List.set ops. t \<le> now \<Longrightarrow> get now k (foldl step new ops) = latest d now k (rev ops)"
proof (induction ops rule: rev_induct)
  case Nil
  then show ?case by (simp add: get_new)
next
  case (snoc p ops)
  obtain t q where p: "p = (t, q)" by force
  have "inv (foldl step new ops)" by (rule inv_steps [OF inv_new])
  with snoc p show ?case by (cases q) (simp_all add: get_set get_flush get_evict)
qed

text \<open>A value that is read was written at most \<open>d\<close> before, and nothing newer was written or flushed.\<close>

lemma latest_recent:
  "latest d now k h = Some v \<Longrightarrow>
     \<exists>t pre post. h = pre @ (t, OpSet k v) # post \<and> now \<le> t + d \<and>
       (\<forall>(u, q) \<in> List.set pre. q \<noteq> OpFlush \<and> (\<forall>w. q \<noteq> OpSet k w))"
proof (induction d now k h rule: latest.induct)
  case (3 d now k t ops)
  then obtain u pre post where h: "ops = pre @ (u, OpSet k v) # post" "now \<le> u + d"
    "\<forall>(u, q) \<in> List.set pre. q \<noteq> OpFlush \<and> (\<forall>w. q \<noteq> OpSet k w)" by auto
  then have "(t, OpEvict) # ops = ((t, OpEvict) # pre) @ (u, OpSet k v) # post"
    "\<forall>(u, q) \<in> List.set ((t, OpEvict) # pre). q \<noteq> OpFlush \<and> (\<forall>w. q \<noteq> OpSet k w)" by auto
  with h(2) show ?case by blast
next
  case (4 d now k t k' w ops)
  show ?case
  proof (cases "k' = k")
    case True
    with "4.prems" have "(t, OpSet k' w) # ops = [] @ (t, OpSet k v) # ops" "now \<le> t + d"
      by (auto split: if_splits)
    then show ?thesis by (metis empty_iff empty_set)
  next
    case False
    with 4 obtain u pre post where h: "ops = pre @ (u, OpSet k v) # post" "now \<le> u + d"
      "\<forall>(u, q) \<in> List.set pre. q \<noteq> OpFlush \<and> (\<forall>w. q \<noteq> OpSet k w)" by auto
    with False have "(t, OpSet k' w) # ops = ((t, OpSet k' w) # pre) @ (u, OpSet k v) # post"
      "\<forall>(u, q) \<in> List.set ((t, OpSet k' w) # pre). q \<noteq> OpFlush \<and> (\<forall>w. q \<noteq> OpSet k w)" by auto
    with h(2) show ?thesis by blast
  qed
qed simp_all

end

lemma cache_ops_ttl [simp]:
  "ttl (cache_set t k v c) = ttl c" "ttl (cache_flush c) = ttl c" "ttl (cache_evict t c) = ttl c"
  "ttl (cache_new d) = d"
  by (simp_all add: cache_set_def cache_flush_def cache_evict_def cache_new_def)

interpretation content_cache: ttl_cache "dur" "cache_new dur" cache_get cache_set cache_flush cache_evict
    "\<lambda>c. ttl c = dur" for dur
  by unfold_locales
    (auto simp: cache_new_def cache_get_def cache_set_def cache_flush_def cache_evict_def
      split: option.splits)

fun cache_step :: "'v cache \<Rightarrow> int \<times> 'v cache_op \<Rightarrow> 'v cache" where
  "cache_step c (t, OpSet k v) = cache_set t k v c"
| "cache_step c (t, OpFlush) = cache_flush c"
| "cache_step c (t, OpEvict) = cache_evict t c"

definition run_cache :: "int \<Rightarrow> (int \<times> 'v cache_op) list \<Rightarrow> 'v cache" where
  "run_cache d ops = foldl cache_step (cache_new d) ops"

lemma cache_step_step: "cache_step = content_cache.step"
proof (intro ext)
  fix c and p :: "int \<times> 'v cache_op"
  show "cache_step c p = content_cache.step c p"
    by (cases "(c, p)" rule: cache_step.cases) simp_all
qed

text \<open>
  C21. Refinement of the cache: after any history of writes, flushes and evictions, a read at a
  later time sees exactly the table of the latest writes: the value of the last write of the key since
  the last flush, for as long as the time to live, whenever the evictions ran.
\<close>

theorem cache_reads_latest_write:
  assumes "\<forall>(t, p) \<in> set ops. t \<le> now"
  shows "cache_get now k (run_cache d ops) = latest d now k (rev ops)"
  using content_cache.observed [OF assms] by (simp add: run_cache_def cache_step_step)

theorem cache_reads_latest_write_witness:
  "cache_get 40 ''content''
     (run_cache 30 [(0, OpSet ''content'' ''a''), (5, OpSet ''content'' ''b''), (36, OpEvict),
       (37, OpSet ''languages'' ''c'')]) = None \<and>
   cache_get 35 ''content''
     (run_cache 30 [(0, OpSet ''content'' ''a''), (5, OpSet ''content'' ''b''), (35, OpEvict)]) = Some ''b''"
  by (subst cache_reads_latest_write, simp, subst cache_reads_latest_write, simp_all)

text \<open>The value of a read was written within the time to live, and no later write or flush came before it.\<close>

lemma cache_read_recent:
  assumes "\<forall>(t, p) \<in> set ops. t \<le> now" and "cache_get now k (run_cache d ops) = Some v"
  shows "\<exists>t pre post. ops = post @ (t, OpSet k v) # pre \<and> now \<le> t + d \<and>
    (\<forall>(u, q) \<in> set pre. q \<noteq> OpFlush \<and> (\<forall>w. q \<noteq> OpSet k w))"
proof -
  have "latest d now k (rev ops) = Some v"
    using content_cache.observed [OF assms(1)] assms(2) by (simp add: run_cache_def cache_step_step)
  from content_cache.latest_recent [OF this] obtain t pre post where h:
    "rev ops = pre @ (t, OpSet k v) # post" "now \<le> t + d"
    "\<forall>(u, q) \<in> set pre. q \<noteq> OpFlush \<and> (\<forall>w. q \<noteq> OpSet k w)" by blast
  from h(1) have "ops = rev post @ (t, OpSet k v) # rev pre" by (metis append.assoc append_Cons
        append_Nil rev.simps(2) rev_append rev_rev_ident)
  with h(2,3) show ?thesis by (intro exI [of _ t] exI [of _ "rev pre"] exI [of _ "rev post"]) simp
qed

end
