(* ===== verification/Middleware.thy ===== *)
theory Middleware
  imports Http Jwt RateLimiter Cache Sql
begin

text \<open>
  \<open>internal/middleware/\<close>: \<open>Auth\<close>, \<open>CORS\<close>, the rate limit, the security headers, the compression and the
  cache header, as functions from a handler to a handler. The state of the program is the record
  \<open>world\<close>: the database connection with its clock, the content cache, the rate limiter, the files of
  the upload directory, what the disk does next, and the random numbers.
\<close>

section \<open>The state of the program\<close>

text \<open>An operation on the disk works, fails, or (a copy) stops after some bytes.\<close>

datatype disk_step = DiskOk | DiskFail | DiskShort nat

record 'l world =
  wd_srv :: server
  wd_cache :: "json cache"
  wd_limiter :: "'l rate_limiter"
  wd_files :: "string \<rightharpoonup> string"
  wd_disk :: "disk_step list"
  wd_random :: "nat list"

definition wd_now :: "'l world \<Rightarrow> int" where
  "wd_now \<sigma> = clock (wd_srv \<sigma>)"

section \<open>auth.go\<close>

definition error_text :: "string \<Rightarrow> string" where
  "error_text m = ''{'' @ quoted ''error'' @ '':'' @ quoted m @ ''}''"

definition Auth :: "mac \<Rightarrow> string \<Rightarrow> 'l world handler \<Rightarrow> 'l world handler" where
  "Auth mac secret next r w \<sigma> =
     (let auth = hget ''Authorization'' (req_headers r) in
      if \<not> has_prefix auth ''Bearer '' then (http_error w (error_text ''Unauthorized'') 401, \<sigma>)
      else case jwt_parse mac secret (wd_now \<sigma>) (trim_prefix auth ''Bearer '') of
             Inl e \<Rightarrow> (http_error w (error_text ''Invalid token'') 401, \<sigma>)
           | Inr tk \<Rightarrow> next r w \<sigma>)"

section \<open>cors.go\<close>

definition cors_origins :: "string \<Rightarrow> string list" where
  "cors_origins allowed = filter (\<lambda>s. s \<noteq> []) (map trim_space (split_on CHR '','' allowed))"

definition CORS :: "string \<Rightarrow> 's handler \<Rightarrow> 's handler" where
  "CORS allowed next r w \<sigma> =
     (let origins = cors_origins allowed;
          origin = hget ''Origin'' (req_headers r);
          w1 = (if origins = [] \<or> origin \<in> set origins \<or> ''*'' \<in> set origins
                then set_header ''Vary'' ''Origin'' (set_header ''Access-Control-Allow-Origin'' origin w)
                else w);
          w2 = set_header ''Access-Control-Allow-Methods'' ''GET, POST, PUT, DELETE, OPTIONS'' w1;
          w3 = set_header ''Access-Control-Allow-Headers'' ''Content-Type, Authorization'' w2;
          w4 = set_header ''Access-Control-Max-Age'' ''86400'' w3
      in if req_method r = ''OPTIONS'' then (write_header 204 w4, \<sigma>) else next r w4 \<sigma>)"

section \<open>ratelimit.go\<close>

text \<open>\<open>net.SplitHostPort\<close>, of which only the host is used (empty after an error).\<close>

definition last_index :: "char \<Rightarrow> string \<Rightarrow> nat option" where
  "last_index c s = map_option (\<lambda>i. length s - Suc i) (index_of c (rev s))"

definition split_host :: "string \<Rightarrow> string" where
  "split_host hp =
     (case last_index CHR '':'' hp of
        None \<Rightarrow> []
      | Some i \<Rightarrow>
          if hp \<noteq> [] \<and> hd hp = CHR ''['' then
            (case index_of CHR '']'' hp of
               None \<Rightarrow> []
             | Some e \<Rightarrow>
                 if Suc e = i \<and> CHR ''['' \<notin> set (tl hp) \<and> CHR '']'' \<notin> set (drop (Suc e) hp)
                 then tl (take e hp) else [])
          else
            (let host = take i hp in
             if CHR '':'' \<in> set host \<or> CHR ''['' \<in> set hp \<or> CHR '']'' \<in> set hp then [] else host))"

definition realIP :: "request \<Rightarrow> string" where
  "realIP r =
     (let xff = hget ''X-Forwarded-For'' (req_headers r);
          xri = hget ''X-Real-IP'' (req_headers r)
      in if xff \<noteq> [] then trim_space (hd (split_on CHR '','' xff))
         else if xri \<noteq> [] then xri
         else split_host (req_remote r))"

definition RateLimit :: "'l limiter_api \<Rightarrow> 'l world handler \<Rightarrow> 'l world handler" where
  "RateLimit api next r w \<sigma> =
     (if \<not> has_prefix (req_path r) ''/api/'' then next r w \<sigma>
      else
        (let (ok, rl) = rl_allow api (wd_now \<sigma>) (realIP r) (wd_limiter \<sigma>);
             \<sigma>1 = \<sigma>\<lparr>wd_limiter := rl\<rparr>
         in if ok then next r w \<sigma>1
            else (http_error (set_header ''Retry-After'' ''60'' w) (error_text ''Too many requests'') 429, \<sigma>1)))"

section \<open>security.go\<close>

definition csp_text :: string where
  "csp_text =
     ''default-src 'self'; '' @
     ''style-src 'self' 'unsafe-inline' https://fonts.googleapis.com https://cdnjs.cloudflare.com; '' @
     ''font-src 'self' https://fonts.gstatic.com https://cdnjs.cloudflare.com; '' @
     ''img-src 'self' data: https:; '' @
     ''script-src 'self' 'unsafe-inline'; '' @
     ''connect-src 'self';''"

definition security_headers :: "writer \<Rightarrow> writer" where
  "security_headers w =
     set_header ''Content-Security-Policy'' csp_text
       (set_header ''Permissions-Policy'' ''camera=(), microphone=(), geolocation=()''
         (set_header ''Referrer-Policy'' ''strict-origin-when-cross-origin''
           (set_header ''X-XSS-Protection'' ''1; mode=block''
             (set_header ''X-Frame-Options'' ''SAMEORIGIN''
               (set_header ''X-Content-Type-Options'' ''nosniff'' w)))))"

definition SecurityHeaders :: "'s handler \<Rightarrow> 's handler" where
  "SecurityHeaders next r w \<sigma> = next r (security_headers w) \<sigma>"

text \<open>
  What the handler writes goes to the compressor, which is closed when the handler returns: the body
  is one compressed stream, and closing it sends status 200 if no header was sent. (\<open>NewWriterLevel\<close>
  fails only for a level out of range.)
\<close>

definition Gzip :: "'s handler \<Rightarrow> 's handler" where
  "Gzip next r w \<sigma> =
     (if \<not> str_contains (hget ''Accept-Encoding'' (req_headers r)) ''gzip'' then next r w \<sigma>
      else
        (let w1 = del_header ''Content-Length'' (set_header ''Content-Encoding'' ''gzip'' w);
             (w2, \<sigma>1) = next r (w1\<lparr>w_out := []\<rparr>) \<sigma>;
             w3 = write_header 200 w2
         in (w3\<lparr>w_out := w_out w @ [GzipOut (w_out w2)]\<rparr>, \<sigma>1)))"

definition AddCacheHeaders :: "string \<Rightarrow> 's handler \<Rightarrow> 's handler" where
  "AddCacheHeaders maxAge next r w \<sigma> =
     next r (set_header ''Cache-Control'' (''public, max-age='' @ maxAge) w) \<sigma>"

end
