(* ===== verification/SqlInv.thy ===== *)
theory SqlInv
  imports Sql
begin

text \<open>
  The invariant of the tables: every table of the schema exists, every row has the table's columns
  with values of their types, a singleton table holds only rows with \<open>id = 1\<close>, and primary keys
  are distinct. Every statement keeps it; so does every function of the repository.
\<close>

definition row_wf :: "table_def \<Rightarrow> sqlrow \<Rightarrow> bool" where
  "row_wf td r \<longleftrightarrow>
     map fst r = map col_name (td_cols td) \<and> assigns_ok td r \<and>
     (td_single td \<longrightarrow> map_of r ''id'' = Some (VInt 1))"

definition key_distinct :: "table_def \<Rightarrow> sqlrow list \<Rightarrow> bool" where
  "key_distinct td rows \<longleftrightarrow>
     (case td_key td of None \<Rightarrow> True | Some k \<Rightarrow> distinct (map (\<lambda>r. map_of r k) rows))"

definition table_wf :: "table_def \<Rightarrow> sqlrow list \<Rightarrow> bool" where
  "table_wf td rows \<longleftrightarrow> list_all (row_wf td) rows \<and> key_distinct td rows"

definition db_wf :: "db \<Rightarrow> bool" where
  "db_wf d \<longleftrightarrow>
     list_all (\<lambda>(t, td). case d t of None \<Rightarrow> False | Some rows \<Rightarrow> table_wf td rows) schema"

text \<open>What the schema itself guarantees.\<close>

definition td_wf :: "table_def \<Rightarrow> bool" where
  "td_wf td \<longleftrightarrow>
     list_all (\<lambda>c. case col_default c of None \<Rightarrow> True | Some v \<Rightarrow> value_ok (col_type c) v) (td_cols td) \<and>
     distinct (map col_name (td_cols td)) \<and>
     (td_single td \<longrightarrow> td_key td = Some ''id'')"

lemma schema_wf: "list_all (\<lambda>(t, td). td_wf td) schema"
  by (simp add: schema_def td_wf_def text_ok_def no_nul_def valid_utf8_ascii byte_def)

lemma schema_distinct: "distinct (map fst schema)"
  by (simp add: schema_def)

lemma map_of_schema: "map_of schema t = Some td \<longleftrightarrow> (t, td) \<in> set schema"
  by (meson map_of_SomeD map_of_is_SomeI schema_distinct)

lemma schema_td_wf: "map_of schema t = Some td \<Longrightarrow> td_wf td"
  using schema_wf by (auto simp: map_of_schema list_all_iff)

lemma db_wf_table:
  "db_wf d \<longleftrightarrow> (\<forall>t td. map_of schema t = Some td \<longrightarrow> (\<exists>rows. d t = Some rows \<and> table_wf td rows))"
proof -
  have one: "(case d t of None \<Rightarrow> False | Some rows \<Rightarrow> table_wf td rows) \<longleftrightarrow>
      (\<exists>rows. d t = Some rows \<and> table_wf td rows)" for t td
    by (cases "d t") auto
  show ?thesis unfolding db_wf_def list_all_iff map_of_schema one by auto
qed

lemma db_wf_tableE:
  assumes "db_wf d" and "map_of schema t = Some td"
  obtains rows where "d t = Some rows" "table_wf td rows"
  using assms unfolding db_wf_table by blast

lemma db_wf_upd:
  "db_wf d \<Longrightarrow> map_of schema t = Some td \<Longrightarrow> table_wf td rows \<Longrightarrow> db_wf (d(t \<mapsto> rows))"
  unfolding db_wf_table by auto

lemma empty_db_wf: "db_wf empty_db"
  unfolding db_wf_table
  by (auto simp: empty_db_def table_wf_def key_distinct_def split: option.splits)

lemma table_wf_Nil [simp]: "table_wf td []"
  by (simp add: table_wf_def key_distinct_def split: option.splits)

lemma table_wf_filter: "table_wf td rows \<Longrightarrow> table_wf td (filter P rows)"
  by (auto simp: table_wf_def key_distinct_def list_all_iff distinct_map_filter split: option.splits)

lemma assigns_okD:
  "assigns_ok td vs \<Longrightarrow> (c, v) \<in> set vs \<Longrightarrow> \<exists>ty. col_type_of td c = Some ty \<and> value_ok ty v"
  by (force simp: assigns_ok_def list_all_iff split: option.splits)

lemma assigns_okI:
  "(\<And>c v. (c, v) \<in> set vs \<Longrightarrow> \<exists>ty. col_type_of td c = Some ty \<and> value_ok ty v) \<Longrightarrow> assigns_ok td vs"
  by (force simp: assigns_ok_def list_all_iff split: option.splits)

lemma complete_row_cols:
  "complete_row td vs = Some r \<Longrightarrow> map fst r = map col_name (td_cols td)"
proof -
  have "those (map (\<lambda>c. map_option (Pair (f c)) (g c)) cs) = Some r \<Longrightarrow> map fst r = map f cs"
    for f :: "column \<Rightarrow> string" and g :: "column \<Rightarrow> sqlval option" and cs
    by (induction cs arbitrary: r) (auto split: option.splits)
  then show "complete_row td vs = Some r \<Longrightarrow> map fst r = map col_name (td_cols td)"
    unfolding complete_row_def .
qed

lemma complete_row_mem:
  assumes "complete_row td vs = Some r" and "(n, v) \<in> set r"
  shows "\<exists>c \<in> set (td_cols td). n = col_name c \<and>
           (map_of vs n = Some v \<or> map_of vs n = None \<and> col_default c = Some v)"
proof -
  let ?f = "\<lambda>c. map_option (Pair (col_name c))
    (case map_of vs (col_name c) of Some v \<Rightarrow> Some v | None \<Rightarrow> col_default c)"
  from assms have "map ?f (td_cols td) = map Some r"
    by (simp add: complete_row_def those_eq_Some_iff)
  then have "set (map Some r) = set (map ?f (td_cols td))" by (simp only:)
  then have "Some ` set r = ?f ` set (td_cols td)" by (simp only: set_map)
  moreover from assms(2) have "Some (n, v) \<in> Some ` set r" by simp
  ultimately have "Some (n, v) \<in> ?f ` set (td_cols td)" by (simp only:)
  then obtain c where c: "c \<in> set (td_cols td)" and f: "?f c = Some (n, v)"
    by (elim imageE) simp
  from f have n: "n = col_name c" by (auto simp: map_option_case split: option.splits)
  show ?thesis
  proof (cases "map_of vs (col_name c)")
    case None
    with f have "col_default c = Some v" by (cases "col_default c") simp_all
    with None n c show ?thesis by blast
  next
    case (Some v')
    with f have "v' = v" by simp
    with Some n c show ?thesis by blast
  qed
qed

lemma col_type_of_mem:
  "td_wf td \<Longrightarrow> c \<in> set (td_cols td) \<Longrightarrow> col_type_of td (col_name c) = Some (col_type c)"
  unfolding col_type_of_def td_wf_def
  by (rule map_of_is_SomeI) (auto simp: comp_def)

lemma complete_row_wf:
  assumes "td_wf td" "assigns_ok td vs" "complete_row td vs = Some r"
    and "td_single td \<longrightarrow> map_of r ''id'' = Some (VInt 1)"
  shows "row_wf td r"
proof -
  have "assigns_ok td r"
  proof (rule assigns_okI)
    fix n v assume "(n, v) \<in> set r"
    from complete_row_mem [OF assms(3) this] obtain c where c: "c \<in> set (td_cols td)" "n = col_name c"
      and "map_of vs n = Some v \<or> map_of vs n = None \<and> col_default c = Some v"
      by blast
    then show "\<exists>ty. col_type_of td n = Some ty \<and> value_ok ty v"
    proof (elim disjE conjE)
      assume "map_of vs n = Some v"
      then show ?thesis by (rule assigns_okD [OF assms(2) map_of_SomeD])
    next
      assume "col_default c = Some v"
      with c assms(1) show ?thesis
        by (force simp: col_type_of_mem td_wf_def list_all_iff)
    qed
  qed
  with assms(3,4) show ?thesis by (simp add: row_wf_def complete_row_cols)
qed

lemma exec_insert_wf:
  assumes "db_wf d" "map_of schema t = Some td" "d t = Some rows"
    and "exec_insert t td rows vs ign d = Inr d'"
  shows "db_wf d'"
proof -
  from assms(1-3) have rows: "table_wf td rows" by (auto elim: db_wf_tableE)
  from assms(4) obtain r where r: "assigns_ok td vs" "complete_row td vs = Some r"
    and s: "td_single td \<longrightarrow> map_of r ''id'' = Some (VInt 1)"
    and d': "d' = d \<or> d' = d(t \<mapsto> rows @ [r]) \<and> \<not> key_taken td rows r"
    by (auto simp: exec_insert_def split: if_splits option.splits)
  from schema_td_wf [OF assms(2)] r s have "row_wf td r" by (blast intro: complete_row_wf)
  then have "\<not> key_taken td rows r \<Longrightarrow> table_wf td (rows @ [r])"
    using rows by (force simp: table_wf_def key_distinct_def key_taken_def list_ex_iff split: option.splits)
  with d' assms(1,2) show ?thesis by (auto intro: db_wf_upd)
qed

lemma map_fst_set_cols [simp]: "map fst (set_cols vs r) = map fst r"
  by (auto simp: set_cols_def)

lemma map_of_set_cols:
  "map_of (set_cols vs r) c =
     (case map_of r c of None \<Rightarrow> None
      | Some v \<Rightarrow> Some (case map_of vs c of Some v' \<Rightarrow> v' | None \<Rightarrow> v))"
  unfolding set_cols_def by (induction r) (auto split: option.splits)

lemma set_cols_wf:
  assumes "row_wf td r" "assigns_ok td vs" "\<not> list_ex (\<lambda>(c, v). c = ''id'' \<and> v \<noteq> VInt 1) vs"
  shows "row_wf td (set_cols vs r)"
proof -
  have "assigns_ok td (set_cols vs r)"
  proof (rule assigns_okI)
    fix n v assume "(n, v) \<in> set (set_cols vs r)"
    then obtain v0 where v0: "(n, v0) \<in> set r"
      and v: "v = (case map_of vs n of Some v' \<Rightarrow> v' | None \<Rightarrow> v0)"
      by (auto simp: set_cols_def)
    from assms(1) have "assigns_ok td r" by (simp add: row_wf_def)
    with v v0 assms(2) show "\<exists>ty. col_type_of td n = Some ty \<and> value_ok ty v"
      by (cases "map_of vs n") (auto dest: assigns_okD map_of_SomeD)
  qed
  moreover have "map_of (set_cols vs r) ''id'' = Some (VInt 1)" if "map_of r ''id'' = Some (VInt 1)"
    using that assms(3)
    by (auto simp: map_of_set_cols list_ex_iff split: option.splits dest: map_of_SomeD)
  ultimately show ?thesis using assms(1) by (auto simp: row_wf_def)
qed

lemma exec_update_wf:
  assumes "db_wf d" "map_of schema t = Some td" "d t = Some rows"
    and "exec_update t td rows vs d = Inr d'"
  shows "db_wf d'"
proof -
  from assms(1-3) have rows: "table_wf td rows" by (auto elim: db_wf_tableE)
  from assms(4) have td: "td_single td" "assigns_ok td vs"
    "\<not> list_ex (\<lambda>(c, v). c = ''id'' \<and> v \<noteq> VInt 1) vs" and d': "d' = d(t \<mapsto> update_id1 vs rows)"
    by (auto simp: exec_update_def split: if_splits)
  have key: "td_key td = Some ''id''"
    using schema_td_wf [OF assms(2)] td(1) by (simp add: td_wf_def)
  have wf: "row_wf td r" if "r \<in> set (update_id1 vs rows)" for r
    using that rows set_cols_wf [OF _ td(2,3)]
    by (auto simp: update_id1_def table_wf_def list_all_iff split: if_splits)
  have id1: "map_of r ''id'' = Some (VInt 1)" if "row_wf td r" for r
    using that td(1) by (simp add: row_wf_def)
  have "map_of (if map_of r ''id'' = Some (VInt 1) then set_cols vs r else r) ''id'' = map_of r ''id''"
    if "r \<in> set rows" for r
  proof -
    from that rows have "row_wf td r" by (simp add: table_wf_def list_all_iff)
    with id1 set_cols_wf [OF _ td(2,3)] show ?thesis by simp
  qed
  then have ids: "map (\<lambda>r. map_of r ''id'') (update_id1 vs rows) = map (\<lambda>r. map_of r ''id'') rows"
    by (simp add: update_id1_def)
  have "table_wf td (update_id1 vs rows)"
    using wf rows key ids by (auto simp: table_wf_def key_distinct_def list_all_iff)
  with d' assms(1,2) show ?thesis by (auto intro: db_wf_upd)
qed

theorem exec_stmt_wf:
  assumes "db_wf d" and ex: "exec_stmt st d = Inr d'"
  shows "db_wf d'"
proof (cases "map_of schema (stmt_table st)")
  case None
  with ex show ?thesis by (simp add: exec_stmt_def Let_def)
next
  case (Some td)
  with assms(1) obtain rows where rows: "d (stmt_table st) = Some rows" by (rule db_wf_tableE)
  show ?thesis
  proof (cases st)
    case (Insert t vs ign)
    with ex Some rows have "exec_insert t td rows vs ign d = Inr d'" by (simp add: exec_stmt_def)
    with assms(1) Some rows Insert show ?thesis by (simp add: exec_insert_wf)
  next
    case (DeleteAll t)
    with ex Some rows have "d' = d(t \<mapsto> [])" by (simp add: exec_stmt_def)
    with assms(1) Some DeleteAll show ?thesis by (simp add: db_wf_upd)
  next
    case (UpdateId1 t vs)
    with ex Some rows have "exec_update t td rows vs d = Inr d'" by (simp add: exec_stmt_def)
    with assms(1) Some rows UpdateId1 show ?thesis by (simp add: exec_update_wf)
  qed
qed

lemma exec_stmts_wf: "db_wf d \<Longrightarrow> exec_stmts sts d = Inr d' \<Longrightarrow> db_wf d'"
  by (induction sts arbitrary: d) (auto split: sum.splits intro: exec_stmt_wf)

text \<open>
  The functions that write to the database, as far as the tables go: a function is an update
  that runs one transaction or one statement. The next lemmas carry the invariant over them.
\<close>

lemma db_exec_wf: "db_exec st s = (e, s1) \<Longrightarrow> db_wf (committed s) \<Longrightarrow> db_wf (committed s1)"
  by (cases e) (auto dest!: db_exec_ok db_exec_bad intro: exec_stmt_wf)

lemma tx_exec_wf: "tx_exec st t s = (e, t1, s1) \<Longrightarrow> db_wf (work t) \<Longrightarrow> db_wf (work t1)"
  by (auto simp: tx_exec_def split: prod.splits fault.splits sum.splits if_splits intro: exec_stmt_wf)

lemma tx_exec_all_wf: "tx_exec_all sts t s = (t1, s1) \<Longrightarrow> db_wf (work t) \<Longrightarrow> db_wf (work t1)"
  by (induction sts arbitrary: t s) (auto split: prod.splits dest: tx_exec_wf)

lemma tx_commit_wf:
  "tx_commit t s = (e, s1) \<Longrightarrow> db_wf (committed s) \<Longrightarrow> db_wf (work t) \<Longrightarrow> db_wf (committed s1)"
  by (cases e) (auto dest!: tx_commit_ok tx_commit_bad)

lemma db_begin_wf:
  "db_begin s = (Inr t, s1) \<Longrightarrow> db_wf (committed s) \<Longrightarrow> db_wf (work t) \<and> db_wf (committed s1)"
  by (auto dest!: db_begin_work simp: db_begin_committed)

section \<open>Reading well-formed tables\<close>

text \<open>The columns of a well-formed row can be projected, and a text column holds a text.\<close>

lemma row_wf_map_of:
  assumes "row_wf td r" and "col_type_of td c = Some ty"
  shows "\<exists>v. map_of r c = Some v \<and> value_ok ty v"
proof -
  from assms(2) have "c \<in> set (map col_name (td_cols td))"
    by (force simp: col_type_of_def dest: map_of_SomeD)
  with assms(1) have "c \<in> fst ` set r" by (metis row_wf_def set_map)
  then obtain v where v: "map_of r c = Some v" by (metis map_of_eq_None_iff option.exhaust)
  from assms(1) have "assigns_ok td r" by (simp add: row_wf_def)
  from assigns_okD [OF this map_of_SomeD [OF v]] assms(2) v show ?thesis by auto
qed

lemma value_ok_TText: "value_ok TText v \<longleftrightarrow> (\<exists>s. v = VText s \<and> text_ok s)"
  by (cases v) auto

lemma value_ok_TJsonb: "value_ok TJsonb v \<longleftrightarrow> (\<exists>j. v = VJson j \<and> json_no_nul j)"
  by (cases v) auto

lemma value_ok_TInt: "value_ok TInt v \<longleftrightarrow> (\<exists>i. v = VInt i \<and> - (2 ^ 31) \<le> i \<and> i < 2 ^ 31)"
  by (cases v) auto

end
