(* ===== verification/Repository.thy ===== *)
theory Repository
  imports SqlInv
begin

text \<open>
  \<open>internal/repository/repository.go\<close>: the records of the CMS, the read functions \<open>Get...\<close> and the write
  functions \<open>Update...\<close>, over the database layer of \<open>Sql\<close>.

  The interface between the five list tables (hero slides, stats, services, news, partners) and
  the functions that replace and read them is the locale \<open>ordered_table\<close>; it is interpreted on the
  columns and scans of each of the five.
\<close>

section \<open>Models\<close>

record Site =
  site_companyName :: string
  site_tagline :: string

record HeroSlide =
  hs_title :: string
  hs_subtitle :: string
  hs_image :: string
  hs_buttonText :: string
  hs_buttonLink :: string

record Stat =
  st_icon :: string
  st_value :: string
  st_label :: string

record About =
  ab_title :: string
  ab_description :: string
  ab_image :: string

record Service =
  sv_title :: string
  sv_description :: string
  sv_icon :: string
  sv_image :: string

record NewsItem =
  nw_title :: string
  nw_date :: string
  nw_excerpt :: string
  nw_image :: string

record Partner =
  pa_name :: string
  pa_logo :: string

record Contact =
  co_address :: string
  co_phone :: string
  co_email :: string
  co_whatsapp :: string

text \<open>The zero values a \<open>var\<close> declaration gives.\<close>

definition zero_Site :: Site where
  "zero_Site = \<lparr>site_companyName = [], site_tagline = []\<rparr>"

definition zero_HeroSlide :: HeroSlide where
  "zero_HeroSlide =
     \<lparr>hs_title = [], hs_subtitle = [], hs_image = [], hs_buttonText = [], hs_buttonLink = []\<rparr>"

definition zero_Stat :: Stat where
  "zero_Stat = \<lparr>st_icon = [], st_value = [], st_label = []\<rparr>"

definition zero_About :: About where
  "zero_About = \<lparr>ab_title = [], ab_description = [], ab_image = []\<rparr>"

definition zero_Service :: Service where
  "zero_Service = \<lparr>sv_title = [], sv_description = [], sv_icon = [], sv_image = []\<rparr>"

definition zero_NewsItem :: NewsItem where
  "zero_NewsItem = \<lparr>nw_title = [], nw_date = [], nw_excerpt = [], nw_image = []\<rparr>"

definition zero_Partner :: Partner where
  "zero_Partner = \<lparr>pa_name = [], pa_logo = []\<rparr>"

definition zero_Contact :: Contact where
  "zero_Contact = \<lparr>co_address = [], co_phone = [], co_email = [], co_whatsapp = []\<rparr>"

section \<open>Scanning\<close>

text \<open>
  \<open>rows.Scan\<close> into \<open>*string\<close>: a text as it is, an integer in decimal. (No statement of the code
  scans a \<open>jsonb\<close> column into a string.)
\<close>

definition scan_text :: "sqlval \<Rightarrow> string option" where
  "scan_text v =
     (case v of VText s \<Rightarrow> Some s | VInt i \<Rightarrow> Some (show_int i) | VJson j \<Rightarrow> None)"

definition scan_texts :: "sqlval list \<Rightarrow> string list option" where
  "scan_texts vs = those (map scan_text vs)"

lemma scan_texts_VText [simp]: "scan_texts (map VText ss) = Some ss"
proof -
  have "map scan_text (map VText ss) = map Some ss" by (simp add: scan_text_def comp_def)
  then show ?thesis by (simp add: scan_texts_def those_eq_Some_iff)
qed

lemma scan_texts_simps [simp]:
  "scan_texts [] = Some []"
  "scan_texts (VText s # vs) = map_option (Cons s) (scan_texts vs)"
  by (simp_all add: scan_texts_def scan_text_def)

definition scan_error :: goerr where
  "scan_error = ErrText ''sql: Scan error''"

text \<open>
  The shape of the five list readers: the query, then the loop that scans each row. A scan error
  returns at once with a \<open>nil\<close> slice; after the loop the slice is never \<open>nil\<close>, and the error is
  \<open>rows.Err()\<close>.
\<close>

definition get_list ::
  "string \<Rightarrow> string list \<Rightarrow> (sqlval list \<Rightarrow> 'a option) \<Rightarrow> server
     \<Rightarrow> ('a list option \<times> goerr option) \<times> server" where
  "get_list t cols scan s =
     (let (r, s1) = db_query t cols None (Some ''sort_order'') s in
      case r of
        Inl e \<Rightarrow> ((None, Some e), s1)
      | Inr (rows, err) \<Rightarrow>
          (case those (map scan rows) of
             None \<Rightarrow> ((None, Some scan_error), s1)
           | Some xs \<Rightarrow> ((Some xs, err), s1)))"

text \<open>The shape of the four singleton readers: the zero value with the error, or the scanned row
  with what \<open>Scan\<close> says after it.\<close>

definition get_row ::
  "string \<Rightarrow> string list \<Rightarrow> (sqlval list \<Rightarrow> 'a option) \<Rightarrow> 'a \<Rightarrow> server
     \<Rightarrow> ('a \<times> goerr option) \<times> server" where
  "get_row t cols scan zero s =
     (let (r, s1) = db_query_row t cols (Some (''id'', VInt 1)) s in
      case r of
        Inl e \<Rightarrow> ((zero, Some e), s1)
      | Inr (vs, err) \<Rightarrow>
          (case scan vs of None \<Rightarrow> ((zero, Some scan_error), s1) | Some x \<Rightarrow> ((x, err), s1)))"

section \<open>Reads\<close>

definition scan_Site :: "sqlval list \<Rightarrow> Site option" where
  "scan_Site vs =
     (case scan_texts vs of
        Some [a, b] \<Rightarrow> Some \<lparr>site_companyName = a, site_tagline = b\<rparr> | _ \<Rightarrow> None)"

definition GetSite :: "server \<Rightarrow> (Site \<times> goerr option) \<times> server" where
  "GetSite = get_row ''site'' [''company_name'', ''tagline''] scan_Site zero_Site"

definition scan_HeroSlide :: "sqlval list \<Rightarrow> HeroSlide option" where
  "scan_HeroSlide vs =
     (case scan_texts vs of
        Some [a, b, c, d, e] \<Rightarrow>
          Some \<lparr>hs_title = a, hs_subtitle = b, hs_image = c, hs_buttonText = d, hs_buttonLink = e\<rparr>
      | _ \<Rightarrow> None)"

definition cols_HeroSlide :: "string list" where
  "cols_HeroSlide = [''title'', ''subtitle'', ''image'', ''button_text'', ''button_link'']"

definition GetHeroSlides :: "server \<Rightarrow> (HeroSlide list option \<times> goerr option) \<times> server" where
  "GetHeroSlides = get_list ''hero_slides'' cols_HeroSlide scan_HeroSlide"

definition scan_Stat :: "sqlval list \<Rightarrow> Stat option" where
  "scan_Stat vs =
     (case scan_texts vs of
        Some [a, b, c] \<Rightarrow> Some \<lparr>st_icon = a, st_value = b, st_label = c\<rparr> | _ \<Rightarrow> None)"

definition cols_Stat :: "string list" where
  "cols_Stat = [''icon'', ''value'', ''label'']"

definition GetStats :: "server \<Rightarrow> (Stat list option \<times> goerr option) \<times> server" where
  "GetStats = get_list ''stats'' cols_Stat scan_Stat"

definition scan_About :: "sqlval list \<Rightarrow> About option" where
  "scan_About vs =
     (case scan_texts vs of
        Some [a, b, c] \<Rightarrow> Some \<lparr>ab_title = a, ab_description = b, ab_image = c\<rparr> | _ \<Rightarrow> None)"

definition GetAbout :: "server \<Rightarrow> (About \<times> goerr option) \<times> server" where
  "GetAbout = get_row ''about'' [''title'', ''description'', ''image''] scan_About zero_About"

definition scan_Service :: "sqlval list \<Rightarrow> Service option" where
  "scan_Service vs =
     (case scan_texts vs of
        Some [a, b, c, d] \<Rightarrow>
          Some \<lparr>sv_title = a, sv_description = b, sv_icon = c, sv_image = d\<rparr>
      | _ \<Rightarrow> None)"

definition cols_Service :: "string list" where
  "cols_Service = [''title'', ''description'', ''icon'', ''image'']"

definition GetServices :: "server \<Rightarrow> (Service list option \<times> goerr option) \<times> server" where
  "GetServices = get_list ''services'' cols_Service scan_Service"

definition scan_NewsItem :: "sqlval list \<Rightarrow> NewsItem option" where
  "scan_NewsItem vs =
     (case scan_texts vs of
        Some [a, b, c, d] \<Rightarrow>
          Some \<lparr>nw_title = a, nw_date = b, nw_excerpt = c, nw_image = d\<rparr>
      | _ \<Rightarrow> None)"

definition cols_NewsItem :: "string list" where
  "cols_NewsItem = [''title'', ''date'', ''excerpt'', ''image'']"

definition GetNews :: "server \<Rightarrow> (NewsItem list option \<times> goerr option) \<times> server" where
  "GetNews = get_list ''news'' cols_NewsItem scan_NewsItem"

definition scan_Partner :: "sqlval list \<Rightarrow> Partner option" where
  "scan_Partner vs =
     (case scan_texts vs of Some [a, b] \<Rightarrow> Some \<lparr>pa_name = a, pa_logo = b\<rparr> | _ \<Rightarrow> None)"

definition cols_Partner :: "string list" where
  "cols_Partner = [''name'', ''logo'']"

definition GetPartners :: "server \<Rightarrow> (Partner list option \<times> goerr option) \<times> server" where
  "GetPartners = get_list ''partners'' cols_Partner scan_Partner"

definition scan_Contact :: "sqlval list \<Rightarrow> Contact option" where
  "scan_Contact vs =
     (case scan_texts vs of
        Some [a, b, c, d] \<Rightarrow>
          Some \<lparr>co_address = a, co_phone = b, co_email = c, co_whatsapp = d\<rparr>
      | _ \<Rightarrow> None)"

definition GetContact :: "server \<Rightarrow> (Contact \<times> goerr option) \<times> server" where
  "GetContact =
     get_row ''contact'' [''address'', ''phone'', ''email'', ''whatsapp''] scan_Contact zero_Contact"

text \<open>
  The \<open>data\<close> of a language row is unmarshalled into a map (an empty one when it is not an object), and
  \<open>flag\<close> and \<open>name\<close> are put into it.
\<close>

definition lang_of_row :: "json \<Rightarrow> string \<Rightarrow> string \<Rightarrow> gomap" where
  "lang_of_row data flag name =
     (let m = (case fst (decode_map data None) of None \<Rightarrow> [] | Some m \<Rightarrow> m)
      in AList.update ''name'' (JStr name) (AList.update ''flag'' (JStr flag) m))"

definition scan_language :: "sqlval list \<Rightarrow> (string \<times> json \<times> string \<times> string) option" where
  "scan_language vs =
     (case vs of
        [code, VJson data, flag, name] \<Rightarrow>
          (case (scan_text code, scan_text flag, scan_text name) of
             (Some c, Some f, Some n) \<Rightarrow> Some (c, data, f, n)
           | _ \<Rightarrow> None)
      | _ \<Rightarrow> None)"

fun languages_loop :: "gomap \<Rightarrow> (string \<times> json \<times> string \<times> string) list \<Rightarrow> gomap" where
  "languages_loop m [] = m"
| "languages_loop m ((c, d, f, n) # rows) =
     languages_loop (AList.update c (JObj (lang_of_row d f n)) m) rows"

definition GetLanguages :: "server \<Rightarrow> (gomap option \<times> goerr option) \<times> server" where
  "GetLanguages s =
     (let (r, s1) = db_query ''languages'' [''code'', ''data'', ''flag'', ''name''] None None s in
      case r of
        Inl e \<Rightarrow> ((None, Some e), s1)
      | Inr (rows, err) \<Rightarrow>
          (case those (map scan_language rows) of
             None \<Rightarrow> ((None, Some scan_error), s1)
           | Some ls \<Rightarrow> ((Some (languages_loop [] ls), err), s1)))"

definition default_panel :: gomap where
  "default_panel = [(''enabled'', JBool False), (''channels'', JArr [])]"

definition GetSidePanel :: "server \<Rightarrow> (gomap option \<times> goerr option) \<times> server" where
  "GetSidePanel s =
     (let (r, s1) = db_query_row ''sidepanel'' [''config''] (Some (''id'', VInt 1)) s in
      case r of
        Inr ([VJson raw], None) \<Rightarrow> ((fst (decode_map raw None), None), s1)
      | _ \<Rightarrow> ((Some default_panel, None), s1))"

definition GetAdminPasswordHash :: "server \<Rightarrow> (string \<times> goerr option) \<times> server" where
  "GetAdminPasswordHash =
     get_row ''admin_password'' [''hash'']
       (\<lambda>vs. case scan_texts vs of Some [h] \<Rightarrow> Some h | _ \<Rightarrow> None) []"

section \<open>Writes\<close>

definition UpdateSite :: "Site \<Rightarrow> server \<Rightarrow> goerr option \<times> server" where
  "UpdateSite v =
     db_exec (UpdateId1 ''site''
       [(''company_name'', VText (site_companyName v)), (''tagline'', VText (site_tagline v))])"

definition UpdateAbout :: "About \<Rightarrow> server \<Rightarrow> goerr option \<times> server" where
  "UpdateAbout v =
     db_exec (UpdateId1 ''about''
       [(''title'', VText (ab_title v)), (''description'', VText (ab_description v)),
        (''image'', VText (ab_image v))])"

definition UpdateContact :: "Contact \<Rightarrow> server \<Rightarrow> goerr option \<times> server" where
  "UpdateContact v =
     db_exec (UpdateId1 ''contact''
       [(''address'', VText (co_address v)), (''phone'', VText (co_phone v)),
        (''email'', VText (co_email v)), (''whatsapp'', VText (co_whatsapp v))])"

definition UpdateSidePanel :: "gomap option \<Rightarrow> server \<Rightarrow> goerr option \<times> server" where
  "UpdateSidePanel cfg =
     db_exec (UpdateId1 ''sidepanel'' [(''config'', VJson (json_of_map cfg))])"

definition UpdateAdminPassword :: "string \<Rightarrow> server \<Rightarrow> goerr option \<times> server" where
  "UpdateAdminPassword hash = db_exec (UpdateId1 ''admin_password'' [(''hash'', VText hash)])"

text \<open>
  The statements that replace a list table: delete everything, then insert the elements with their
  index as \<open>sort_order\<close>.
\<close>

definition list_insert :: "string \<Rightarrow> nat \<Rightarrow> sqlrow \<Rightarrow> stmt" where
  "list_insert t i vs = Insert t (vs @ [(''sort_order'', VInt (int i))]) False"

fun list_inserts :: "string \<Rightarrow> nat \<Rightarrow> sqlrow list \<Rightarrow> stmt list" where
  "list_inserts t i [] = []"
| "list_inserts t i (vs # vss) = list_insert t i vs # list_inserts t (Suc i) vss"

definition replace_stmts :: "string \<Rightarrow> sqlrow list \<Rightarrow> stmt list" where
  "replace_stmts t vss = DeleteAll t # list_inserts t 0 vss"

text \<open>A Go slice as its elements: a \<open>range\<close> loop over the \<open>nil\<close> slice runs no time.\<close>

abbreviation elems :: "'a list option \<Rightarrow> 'a list" where
  "elems xs \<equiv> (case xs of None \<Rightarrow> [] | Some ys \<Rightarrow> ys)"

text \<open>
  \<open>UpdateStats\<close>, \<open>UpdateServices\<close>, \<open>UpdateNews\<close>, \<open>UpdatePartners\<close> and \<open>UpdateLanguages\<close> drop the
  results of their statements and return what \<open>Commit\<close> says.
\<close>

definition run_ignoring :: "stmt list \<Rightarrow> server \<Rightarrow> goerr option \<times> server" where
  "run_ignoring sts s =
     (case db_begin s of
        (Inl e, s1) \<Rightarrow> (Some e, s1)
      | (Inr t, s1) \<Rightarrow> (case tx_exec_all sts t s1 of (t1, s2) \<Rightarrow> tx_commit t1 s2))"

definition vals_Stat :: "Stat \<Rightarrow> sqlrow" where
  "vals_Stat v =
     [(''icon'', VText (st_icon v)), (''value'', VText (st_value v)), (''label'', VText (st_label v))]"

definition UpdateStats :: "Stat list option \<Rightarrow> server \<Rightarrow> goerr option \<times> server" where
  "UpdateStats stats =
     run_ignoring (replace_stmts ''stats'' (map vals_Stat (elems stats)))"

definition vals_Service :: "Service \<Rightarrow> sqlrow" where
  "vals_Service v =
     [(''title'', VText (sv_title v)), (''description'', VText (sv_description v)),
      (''icon'', VText (sv_icon v)), (''image'', VText (sv_image v))]"

definition UpdateServices :: "Service list option \<Rightarrow> server \<Rightarrow> goerr option \<times> server" where
  "UpdateServices list =
     run_ignoring (replace_stmts ''services'' (map vals_Service (elems list)))"

definition vals_NewsItem :: "NewsItem \<Rightarrow> sqlrow" where
  "vals_NewsItem v =
     [(''title'', VText (nw_title v)), (''date'', VText (nw_date v)),
      (''excerpt'', VText (nw_excerpt v)), (''image'', VText (nw_image v))]"

definition UpdateNews :: "NewsItem list option \<Rightarrow> server \<Rightarrow> goerr option \<times> server" where
  "UpdateNews list =
     run_ignoring (replace_stmts ''news'' (map vals_NewsItem (elems list)))"

definition vals_Partner :: "Partner \<Rightarrow> sqlrow" where
  "vals_Partner v = [(''name'', VText (pa_name v)), (''logo'', VText (pa_logo v))]"

definition UpdatePartners :: "Partner list option \<Rightarrow> server \<Rightarrow> goerr option \<times> server" where
  "UpdatePartners list =
     run_ignoring (replace_stmts ''partners'' (map vals_Partner (elems list)))"

text \<open>\<open>UpdateHeroSlides\<close> stops at the first statement that fails and says which slide it was.\<close>

definition vals_HeroSlide :: "HeroSlide \<Rightarrow> sqlrow" where
  "vals_HeroSlide v =
     [(''title'', VText (hs_title v)), (''subtitle'', VText (hs_subtitle v)),
      (''image'', VText (hs_image v)), (''button_text'', VText (hs_buttonText v)),
      (''button_link'', VText (hs_buttonLink v))]"

fun insert_slides ::
  "nat \<Rightarrow> HeroSlide list \<Rightarrow> tx \<Rightarrow> server \<Rightarrow> goerr option \<times> tx \<times> server" where
  "insert_slides i [] t s = (None, t, s)"
| "insert_slides i (v # vs) t s =
     (case tx_exec (list_insert ''hero_slides'' i (vals_HeroSlide v)) t s of
        (Some e, t1, s1) \<Rightarrow> (Some (ErrWrap (''insert slide '' @ show_nat i) e), t1, s1)
      | (None, t1, s1) \<Rightarrow> insert_slides (Suc i) vs t1 s1)"

definition UpdateHeroSlides :: "HeroSlide list option \<Rightarrow> server \<Rightarrow> goerr option \<times> server" where
  "UpdateHeroSlides slides s =
     (case db_begin s of
        (Inl e, s1) \<Rightarrow> (Some e, s1)
      | (Inr t, s1) \<Rightarrow>
          (case tx_exec (DeleteAll ''hero_slides'') t s1 of
             (Some e, t1, s2) \<Rightarrow> (Some e, tx_rollback s2)
           | (None, t1, s2) \<Rightarrow>
               (case insert_slides 0 (elems slides) t1 s2 of
                  (Some e, t2, s3) \<Rightarrow> (Some e, tx_rollback s3)
                | (None, t2, s3) \<Rightarrow> tx_commit t2 s3)))"

text \<open>
  A language is stored with \<open>flag\<close> and \<open>name\<close> in columns of their own (empty when they are not
  strings) and the rest as \<open>jsonb\<close>; an entry that is not an object is skipped.
\<close>

definition string_member :: "gomap \<Rightarrow> string \<Rightarrow> string" where
  "string_member m k = (case map_of m k of Some (JStr s) \<Rightarrow> s | _ \<Rightarrow> [])"

definition lang_rest :: "gomap \<Rightarrow> gomap" where
  "lang_rest m = filter (\<lambda>p. fst p \<noteq> ''flag'' \<and> fst p \<noteq> ''name'') m"

definition lang_vals :: "string \<Rightarrow> gomap \<Rightarrow> sqlrow" where
  "lang_vals code m =
     [(''code'', VText code), (''data'', VJson (JObj (lang_rest m))),
      (''flag'', VText (string_member m ''flag'')), (''name'', VText (string_member m ''name''))]"

fun lang_inserts :: "gomap \<Rightarrow> stmt list" where
  "lang_inserts [] = []"
| "lang_inserts ((code, JObj m) # kvs) =
     Insert ''languages'' (lang_vals code m) False # lang_inserts kvs"
| "lang_inserts ((code, v) # kvs) = lang_inserts kvs"

definition UpdateLanguages :: "gomap option \<Rightarrow> server \<Rightarrow> goerr option \<times> server" where
  "UpdateLanguages langs =
     run_ignoring (DeleteAll ''languages'' # lang_inserts (elems langs))"

end
