(* ===== verification/RepoLists.thy ===== *)
theory RepoLists
  imports Repository
begin

text \<open>
  The list tables of the repository. The locale \<open>ordered_table\<close> is the contract between a table with a
  \<open>sort_order\<close> column and its functions: how an element becomes the values of an \<open>INSERT\<close> and
  how a scanned row becomes an element again. From it follow, once for all five tables, that
  replacing the list is all or nothing and that reading it back gives the list that was written.
\<close>

section \<open>Transactions that drop errors\<close>

lemma run_ignoring_ok:
  "run_ignoring sts s = (None, s1) \<Longrightarrow> exec_stmts sts (committed s) = Inr (committed s1)"
  by (auto simp: run_ignoring_def split: prod.splits sum.splits
      dest!: tx_commit_ok tx_exec_all_ok db_begin_work)

lemma run_ignoring_bad:
  assumes "run_ignoring sts s = (Some e, s1)"
  shows "committed s1 = committed s \<or> exec_stmts sts (committed s) = Inr (committed s1)"
proof (cases "db_begin s")
  case (Pair r s2)
  show ?thesis
  proof (cases r)
    case (Inl e')
    with assms Pair show ?thesis by (auto simp: run_ignoring_def dest: db_begin_committed)
  next
    case (Inr t)
    obtain t1 s3 where t1: "tx_exec_all sts t s2 = (t1, s3)" by force
    with assms Pair Inr have cm: "tx_commit t1 s3 = (Some e, s1)" by (simp add: run_ignoring_def)
    from Pair Inr have w: "work t = committed s" "committed s2 = committed s"
      by (auto dest: db_begin_work db_begin_committed)
    from tx_commit_bad [OF cm] t1 w show ?thesis
      by (auto dest: tx_exec_all_committed tx_exec_all_ok)
  qed
qed

lemma run_ignoring_fine:
  "healthy s \<Longrightarrow> exec_stmts sts (committed s) = Inr d \<Longrightarrow>
     run_ignoring sts s = (None, s\<lparr>committed := d\<rparr>)"
  by (simp add: run_ignoring_def db_begin_fine tx_exec_all_fine tx_commit_fine)

lemma run_ignoring_wf:
  "run_ignoring sts s = (e, s1) \<Longrightarrow> db_wf (committed s) \<Longrightarrow> db_wf (committed s1)"
  by (cases e) (auto dest!: run_ignoring_ok run_ignoring_bad intro: exec_stmts_wf)

text \<open>The same for the function that stops at the first error.\<close>

lemma insert_slides_committed:
  "insert_slides i vs t s = (e, t1, s1) \<Longrightarrow> committed s1 = committed s"
  by (induction i vs t s rule: insert_slides.induct)
    (auto split: prod.splits option.splits dest!: tx_exec_committed)

lemma insert_slides_ok:
  "insert_slides i vs t s = (None, t1, s1) \<Longrightarrow>
     exec_stmts (list_inserts ''hero_slides'' i (map vals_HeroSlide vs)) (work t) = Inr (work t1)"
  by (induction i vs t s rule: insert_slides.induct)
    (auto split: prod.splits option.splits dest!: tx_exec_ok)

lemma insert_slides_fine:
  "healthy s \<Longrightarrow> \<not> aborted t \<Longrightarrow>
     exec_stmts (list_inserts ''hero_slides'' i (map vals_HeroSlide vs)) (work t) = Inr d \<Longrightarrow>
     insert_slides i vs t s = (None, t\<lparr>work := d\<rparr>, s)"
proof (induction vs arbitrary: i t)
  case Nil
  then show ?case by simp
next
  case (Cons v vs)
  from Cons.prems(3) obtain d1 where
    d1: "exec_stmt (list_insert ''hero_slides'' i (vals_HeroSlide v)) (work t) = Inr d1"
      "exec_stmts (list_inserts ''hero_slides'' (Suc i) (map vals_HeroSlide vs)) d1 = Inr d"
    by (auto split: sum.splits)
  from tx_exec_fine [OF Cons.prems(1,2) d1(1)] Cons.IH [of "t\<lparr>work := d1\<rparr>" "Suc i"] Cons.prems d1(2)
  show ?case by simp
qed

abbreviation hero_stmts :: "HeroSlide list \<Rightarrow> stmt list" where
  "hero_stmts xs \<equiv> replace_stmts ''hero_slides'' (map vals_HeroSlide xs)"

lemma UpdateHeroSlides_ok:
  "UpdateHeroSlides xs s = (None, s1) \<Longrightarrow>
     exec_stmts (hero_stmts (elems xs)) (committed s) = Inr (committed s1)"
  by (auto simp: UpdateHeroSlides_def replace_stmts_def split: prod.splits sum.splits option.splits
      dest!: tx_commit_ok insert_slides_ok tx_exec_ok db_begin_work)

lemma UpdateHeroSlides_bad:
  assumes "UpdateHeroSlides xs s = (Some e, s1)"
  shows "committed s1 = committed s \<or>
    exec_stmts (hero_stmts (elems xs)) (committed s) = Inr (committed s1)"
proof (cases "db_begin s")
  case (Pair r s2)
  show ?thesis
  proof (cases r)
    case (Inl e')
    with assms Pair show ?thesis by (auto simp: UpdateHeroSlides_def dest: db_begin_committed)
  next
    case (Inr t)
    obtain e1 t1 s3 where del: "tx_exec (DeleteAll ''hero_slides'') t s2 = (e1, t1, s3)"
      by (cases "tx_exec (DeleteAll ''hero_slides'') t s2") auto
    obtain e2 t2 s4 where ins: "insert_slides 0 (elems xs) t1 s3 = (e2, t2, s4)"
      by (cases "insert_slides 0 (elems xs) t1 s3") auto
    from Pair Inr have w: "work t = committed s" "committed s2 = committed s"
      by (auto dest: db_begin_work db_begin_committed)
    from del w have c3: "committed s3 = committed s" by (simp add: tx_exec_committed)
    with ins have c: "committed s3 = committed s" "committed s4 = committed s"
      by (simp_all add: insert_slides_committed)
    show ?thesis
    proof (cases "e1 = None \<and> e2 = None")
      case True
      with assms Pair Inr del ins have cm: "tx_commit t2 s4 = (Some e, s1)"
        by (simp add: UpdateHeroSlides_def)
      from True del ins w have "exec_stmts (hero_stmts (elems xs)) (committed s) = Inr (work t2)"
        by (auto simp: replace_stmts_def dest!: tx_exec_ok insert_slides_ok)
      with tx_commit_bad [OF cm] c show ?thesis by auto
    next
      case False
      with assms Pair Inr del ins have "s1 = tx_rollback s3 \<or> s1 = tx_rollback s4"
        by (auto simp: UpdateHeroSlides_def split: option.splits)
      with c show ?thesis by auto
    qed
  qed
qed

lemma UpdateHeroSlides_fine:
  assumes "healthy s" and "exec_stmts (hero_stmts (elems xs)) (committed s) = Inr d"
  shows "UpdateHeroSlides xs s = (None, s\<lparr>committed := d\<rparr>)"
proof -
  from assms(2) obtain d1 where
    del: "exec_stmt (DeleteAll ''hero_slides'') (committed s) = Inr d1" and
    ins: "exec_stmts (list_inserts ''hero_slides'' 0 (map vals_HeroSlide (elems xs))) d1 = Inr d"
    by (auto simp: replace_stmts_def split: sum.splits)
  let ?t = "\<lparr>work = committed s, aborted = False\<rparr>"
  have "tx_exec (DeleteAll ''hero_slides'') ?t s = (None, ?t\<lparr>work := d1\<rparr>, s)"
    by (rule tx_exec_fine) (simp_all add: assms(1) del)
  moreover have "insert_slides 0 (elems xs) (?t\<lparr>work := d1\<rparr>) s = (None, ?t\<lparr>work := d\<rparr>, s)"
    using insert_slides_fine [of s "?t\<lparr>work := d1\<rparr>" 0 "elems xs" d] assms(1) ins by simp
  ultimately show ?thesis
    using assms(1) by (simp add: UpdateHeroSlides_def db_begin_fine tx_commit_fine)
qed

section \<open>The contract of a list table\<close>

text \<open>The rows a list table holds after its elements were inserted from index \<open>i\<close> on.\<close>

fun list_rows :: "nat \<Rightarrow> sqlrow list \<Rightarrow> sqlrow list" where
  "list_rows i [] = []"
| "list_rows i (vs # vss) = (vs @ [(''sort_order'', VInt (int i))]) # list_rows (Suc i) vss"

text \<open>Values a table accepts: they fit the columns, and there are at most \<open>2 ^ 31\<close> elements.\<close>

definition storable :: "string \<Rightarrow> sqlrow list \<Rightarrow> bool" where
  "storable t vss \<longleftrightarrow>
     (case map_of schema t of
        None \<Rightarrow> False
      | Some td \<Rightarrow> list_all (assigns_ok td) vss \<and> int (length vss) \<le> 2 ^ 31)"

locale ordered_table =
  fixes tbl :: string
    and td :: table_def
    and cols :: "string list"
    and vals :: "'a \<Rightarrow> sqlrow"
    and scan :: "sqlval list \<Rightarrow> 'a option"
  assumes schema_tbl: "map_of schema tbl = Some td"
    and no_key: "td_key td = None"
    and not_single: "\<not> td_single td"
    and order_col: "col_type_of td ''sort_order'' = Some TInt"
    and no_order_val: "map_of (vals x) ''sort_order'' = None"
    and complete: "complete_row td (vals x @ [(''sort_order'', v)]) = Some (vals x @ [(''sort_order'', v)])"
    and project_vals: "project cols (vals x @ [p]) = Some (map snd (vals x))"
    and scan_vals: "scan (map snd (vals x)) = Some x"
begin

lemma exec_list_insert:
  assumes "exec_stmt (list_insert tbl i (vals x)) d = Inr d'" and "d tbl = Some rows"
  shows "d' = d(tbl \<mapsto> rows @ [vals x @ [(''sort_order'', VInt (int i))]])"
  using assms
  by (simp add: exec_stmt_def list_insert_def schema_tbl exec_insert_def complete not_single
      key_taken_def no_key split: if_splits)

lemma exec_list_insert_ok:
  assumes "assigns_ok td (vals x)" "int i < 2 ^ 31" "d tbl = Some rows"
  shows "exec_stmt (list_insert tbl i (vals x)) d =
    Inr (d(tbl \<mapsto> rows @ [vals x @ [(''sort_order'', VInt (int i))]]))"
proof -
  have "assigns_ok td (vals x @ [(''sort_order'', VInt (int i))])"
    using assms(1,2) by (simp add: assigns_ok_def order_col)
  with assms(3) show ?thesis
    by (simp add: exec_stmt_def list_insert_def schema_tbl exec_insert_def complete not_single
        key_taken_def no_key)
qed

lemma exec_list_inserts:
  "exec_stmts (list_inserts tbl i (map vals xs)) d = Inr d' \<Longrightarrow> d tbl = Some rows \<Longrightarrow>
     d' = d(tbl \<mapsto> rows @ list_rows i (map vals xs))"
proof (induction xs arbitrary: i d rows)
  case Nil
  then show ?case by (auto simp: fun_upd_idem)
next
  case (Cons x xs)
  then obtain d1 where d1: "exec_stmt (list_insert tbl i (vals x)) d = Inr d1"
    "exec_stmts (list_inserts tbl (Suc i) (map vals xs)) d1 = Inr d'"
    by (auto split: sum.splits)
  from exec_list_insert [OF d1(1) Cons.prems(2)]
  have "d1 tbl = Some (rows @ [vals x @ [(''sort_order'', VInt (int i))]])" by simp
  from Cons.IH [OF d1(2) this] exec_list_insert [OF d1(1) Cons.prems(2)] show ?case
    by (auto simp: fun_eq_iff)
qed

lemma exec_list_inserts_ok:
  "list_all (\<lambda>x. assigns_ok td (vals x)) xs \<Longrightarrow> int (i + length xs) \<le> 2 ^ 31 \<Longrightarrow>
   d tbl = Some rows \<Longrightarrow>
     exec_stmts (list_inserts tbl i (map vals xs)) d = Inr (d(tbl \<mapsto> rows @ list_rows i (map vals xs)))"
proof (induction xs arbitrary: i d rows)
  case Nil
  then show ?case by (auto simp: fun_upd_idem)
next
  case (Cons x xs)
  let ?d1 = "d(tbl \<mapsto> rows @ [vals x @ [(''sort_order'', VInt (int i))]])"
  have "exec_stmt (list_insert tbl i (vals x)) d = Inr ?d1"
    using Cons.prems by (intro exec_list_insert_ok) auto
  moreover have "exec_stmts (list_inserts tbl (Suc i) (map vals xs)) ?d1 =
      Inr (?d1(tbl \<mapsto> (rows @ [vals x @ [(''sort_order'', VInt (int i))]]) @ list_rows (Suc i) (map vals xs)))"
    using Cons.prems by (intro Cons.IH) auto
  ultimately show ?case by (auto simp: fun_eq_iff)
qed

lemma exec_replace:
  assumes "exec_stmts (replace_stmts tbl (map vals xs)) d = Inr d'"
  shows "d' = d(tbl \<mapsto> list_rows 0 (map vals xs))"
proof -
  from assms obtain rows where "d tbl = Some rows"
    by (auto simp: replace_stmts_def exec_stmt_def schema_tbl split: option.splits)
  then have del: "exec_stmt (DeleteAll tbl) d = Inr (d(tbl \<mapsto> []))"
    by (simp add: exec_stmt_def schema_tbl)
  with assms have "exec_stmts (list_inserts tbl 0 (map vals xs)) (d(tbl \<mapsto> [])) = Inr d'"
    by (simp add: replace_stmts_def)
  from exec_list_inserts [OF this] show ?thesis by simp
qed

lemma exec_replace_ok:
  assumes "storable tbl (map vals xs)" and "d tbl = Some rows"
  shows "exec_stmts (replace_stmts tbl (map vals xs)) d = Inr (d(tbl \<mapsto> list_rows 0 (map vals xs)))"
proof -
  have "exec_stmt (DeleteAll tbl) d = Inr (d(tbl \<mapsto> []))"
    using assms(2) by (simp add: exec_stmt_def schema_tbl)
  moreover have "exec_stmts (list_inserts tbl 0 (map vals xs)) (d(tbl \<mapsto> [])) =
      Inr ((d(tbl \<mapsto> []))(tbl \<mapsto> [] @ list_rows 0 (map vals xs)))"
    using assms(1) by (intro exec_list_inserts_ok) (simp_all add: storable_def schema_tbl list_all_iff)
  ultimately show ?thesis by (simp add: replace_stmts_def)
qed

lemma order_key_row: "order_key ''sort_order'' (vals x @ [(''sort_order'', VInt i)]) = i"
  by (simp add: order_key_def map_add_def no_order_val)

lemma list_rows_order: "map (order_key ''sort_order'') (list_rows i (map vals xs)) = map int [i..<i + length xs]"
  by (induction xs arbitrary: i) (simp_all add: order_key_row upt_rec)

lemma sort_list_rows: "sort_key (order_key ''sort_order'') (list_rows i (map vals xs)) = list_rows i (map vals xs)"
  by (rule sort_key_id) (simp add: list_rows_order sorted_upt_int)

lemma project_rows: "map (project cols) (list_rows i (map vals xs)) = map (\<lambda>x. Some (map snd (vals x))) xs"
  by (induction xs arbitrary: i) (simp_all add: project_vals)

lemma select_replaced:
  "d tbl = Some (list_rows 0 (map vals xs)) \<Longrightarrow>
     select_rows tbl cols None (Some ''sort_order'') d = Inr (map (\<lambda>x. map snd (vals x)) xs)"
  by (simp add: select_rows_def where_rows_def sort_list_rows project_rows Let_def)

text \<open>Reading a list that was written gives the list, or a part of it with an error.\<close>

lemma get_replaced:
  assumes "committed s tbl = Some (list_rows 0 (map vals xs))"
    and "get_list tbl cols scan s = ((ys, None), s1)"
  shows "ys = Some xs"
proof -
  obtain r s2 where q: "db_query tbl cols None (Some ''sort_order'') s = (r, s2)" by force
  obtain f s3 where f: "next_fault s = (f, s3)" by force
  have c3: "committed s3 = committed s" using f by (rule next_fault_committed)
  from assms(2) q obtain vs where r: "r = Inr (vs, None)" and ys: "those (map scan vs) = ys"
    by (auto simp: get_list_def split: sum.splits option.splits)
  from q r f c3 assms(1) have "vs = map (\<lambda>x. map snd (vals x)) xs"
    by (auto simp: db_query_def select_replaced split: fault.splits)
  then have "map scan vs = map Some xs" by (simp add: scan_vals comp_def)
  with ys show ?thesis by (simp add: those_eq_Some_iff)
qed

lemma get_replaced_fine:
  assumes "committed s tbl = Some (list_rows 0 (map vals xs))" and "healthy s"
  shows "get_list tbl cols scan s = ((Some xs, None), s)"
proof -
  have "map scan (map (\<lambda>x. map snd (vals x)) xs) = map Some xs" by (simp add: scan_vals comp_def)
  then have "those (map scan (map (\<lambda>x. map snd (vals x)) xs)) = Some xs"
    by (simp only: those_eq_Some_iff)
  with assms show ?thesis
    by (simp add: get_list_def db_query_def next_fault_fine select_replaced)
qed

end

section \<open>The five tables\<close>

lemma map_of_schema_lists:
  "map_of schema ''stats'' = Some (list_table_def
     [text_col ''icon'', text_col ''value'', text_col ''label''])"
  "map_of schema ''services'' = Some (list_table_def
     [text_col ''title'', text_col ''description'', text_col ''icon'', text_col ''image''])"
  "map_of schema ''news'' = Some (list_table_def
     [text_col ''title'', text_col ''date'', text_col ''excerpt'', text_col ''image''])"
  "map_of schema ''partners'' = Some (list_table_def [text_col ''name'', text_col ''logo''])"
  "map_of schema ''hero_slides'' = Some (list_table_def
     [text_col ''title'', text_col ''subtitle'', text_col ''image'',
      text_col_default ''button_text'' ''Explore'', text_col_default ''button_link'' ''#contact''])"
  by (simp_all add: schema_def)

interpretation stats: ordered_table "''stats''" "the (map_of schema ''stats'')" cols_Stat vals_Stat scan_Stat
  by unfold_locales
    (simp_all add: map_of_schema_lists col_type_of_def complete_row_def project_def vals_Stat_def
      cols_Stat_def scan_Stat_def)

interpretation services: ordered_table "''services''" "the (map_of schema ''services'')"
    cols_Service vals_Service scan_Service
  by unfold_locales
    (simp_all add: map_of_schema_lists col_type_of_def complete_row_def project_def vals_Service_def
      cols_Service_def scan_Service_def)

interpretation news: ordered_table "''news''" "the (map_of schema ''news'')"
    cols_NewsItem vals_NewsItem scan_NewsItem
  by unfold_locales
    (simp_all add: map_of_schema_lists col_type_of_def complete_row_def project_def vals_NewsItem_def
      cols_NewsItem_def scan_NewsItem_def)

interpretation partners: ordered_table "''partners''" "the (map_of schema ''partners'')"
    cols_Partner vals_Partner scan_Partner
  by unfold_locales
    (simp_all add: map_of_schema_lists col_type_of_def complete_row_def project_def vals_Partner_def
      cols_Partner_def scan_Partner_def)

interpretation hero: ordered_table "''hero_slides''" "the (map_of schema ''hero_slides'')"
    cols_HeroSlide vals_HeroSlide scan_HeroSlide
  by unfold_locales
    (simp_all add: map_of_schema_lists col_type_of_def complete_row_def project_def vals_HeroSlide_def
      cols_HeroSlide_def scan_HeroSlide_def)

end
