(* ===== verification/RepoSingles.thy ===== *)
theory RepoSingles
  imports RepoThms
begin

text \<open>
  The singleton tables (\<open>site\<close>, \<open>about\<close>, \<open>contact\<close>, \<open>admin_password\<close>): one row with \<open>id = 1\<close>, written
  by \<open>UPDATE ... WHERE id = 1\<close>. The locale \<open>single_table\<close> is the contract between such a table and
  the function that reads it.
\<close>

lemma single_rows:
  assumes "table_wf td rows" "td_single td" "td_wf td"
  shows "rows = [] \<or> (\<exists>r. rows = [r])"
proof (cases rows)
  case (Cons r rs)
  show ?thesis
  proof (cases rs)
    case (Cons r' rs')
    with \<open>rows = r # rs\<close> assms have "map_of r ''id'' = Some (VInt 1)" "map_of r' ''id'' = Some (VInt 1)"
      by (simp_all add: table_wf_def row_wf_def)
    with Cons \<open>rows = r # rs\<close> assms show ?thesis
      by (simp add: table_wf_def key_distinct_def td_wf_def)
  qed (use Cons in simp)
qed simp

locale single_table =
  fixes tbl :: string
    and td :: table_def
    and cols :: "string list"
    and vals :: "'a \<Rightarrow> sqlrow"
    and scan :: "sqlval list \<Rightarrow> 'a option"
  assumes schema_tbl: "map_of schema tbl = Some td"
    and single: "td_single td"
    and cols_vals: "map fst (vals x) = cols"
    and cols_distinct: "distinct cols"
    and cols_typed: "list_all (\<lambda>c. col_type_of td c \<noteq> None) cols"
    and no_id: "''id'' \<notin> set cols"
    and scan_vals: "scan (map snd (vals x)) = Some x"
begin

lemma not_id_vals: "\<not> list_ex (\<lambda>(c, v). c = ''id'' \<and> v \<noteq> VInt 1) (vals x)"
  using no_id cols_vals [of x] by (force simp: list_ex_iff)

lemma exec_update_single:
  "d tbl = Some rows \<Longrightarrow>
     exec_stmt (UpdateId1 tbl (vals x)) d =
       (if assigns_ok td (vals x) then Inr (d(tbl \<mapsto> update_id1 (vals x) rows))
        else Inl (ErrDriver ''pq: invalid value''))"
  by (simp add: exec_stmt_def schema_tbl exec_update_def single not_id_vals)

lemma id_set_cols: "map_of r ''id'' = Some (VInt 1) \<Longrightarrow> map_of (set_cols (vals x) r) ''id'' = Some (VInt 1)"
  using no_id cols_vals [of x]
  by (auto simp: map_of_set_cols split: option.splits dest: map_of_in_fst)

lemma project_set_cols:
  assumes "row_wf td r"
  shows "project cols (set_cols (vals x) r) = Some (map snd (vals x))"
proof -
  have "map (map_of (set_cols (vals x) r)) cols = map (Some \<circ> snd) (vals x)"
  proof -
    have "map_of (set_cols (vals x) r) c = Some v" if m: "(c, v) \<in> set (vals x)" for c v
    proof -
      from m cols_vals [of x] have c: "c \<in> set cols" by force
      with cols_typed obtain ty where "col_type_of td c = Some ty" by (auto simp: list_all_iff)
      with row_wf_map_of [OF assms] obtain v0 where "map_of r c = Some v0" by blast
      moreover have "map_of (vals x) c = Some v"
        using m cols_distinct cols_vals [of x] by simp
      ultimately show ?thesis by (simp add: map_of_set_cols)
    qed
    then have "map (\<lambda>p. map_of (set_cols (vals x) r) (fst p)) (vals x) = map (Some \<circ> snd) (vals x)"
      by (intro map_cong) auto
    then show ?thesis by (simp add: cols_vals [symmetric, of x] comp_def)
  qed
  then show ?thesis by (simp add: project_def those_eq_Some_iff)
qed

lemma get_updated:
  assumes "committed s tbl = Some [set_cols (vals x) r]" "row_wf td r"
    and "get_row tbl cols scan zero s = ((y, None), s1)"
  shows "y = x"
proof -
  have id1: "map_of (set_cols (vals x) r) ''id'' = Some (VInt 1)"
    using assms(2) single by (simp add: row_wf_def id_set_cols)
  then have sel: "select_rows tbl cols (Some (''id'', VInt 1)) None (committed s) = Inr [map snd (vals x)]"
    using assms(1,2) by (simp add: select_rows_def where_rows_def project_set_cols)
  obtain q s2 where q: "db_query tbl cols (Some (''id'', VInt 1)) None s = (q, s2)" by force
  obtain f s3 where f: "next_fault s = (f, s3)" by force
  have "committed s3 = committed s" using f by (rule next_fault_committed)
  with q f sel have "q = Inr ([map snd (vals x)], None) \<or> (\<exists>e. q = Inl e) \<or>
      (\<exists>n e. q = Inr (take n [map snd (vals x)], Some e))"
    by (auto simp: db_query_def split: fault.splits)
  with assms(3) q show ?thesis
    by (auto simp: get_row_def db_query_row_def scan_vals take_Cons' split: if_splits)
qed

text \<open>An update that returned no error is read back, if there is a row; without one it changes nothing.\<close>

lemma update_stores:
  assumes "db_wf (committed s)" "committed s tbl \<noteq> Some []"
    and "db_exec (UpdateId1 tbl (vals x)) s = (None, s1)"
  obtains r where "row_wf td r" "committed s1 tbl = Some [set_cols (vals x) r]"
proof -
  obtain rows where rows: "committed s tbl = Some rows" "table_wf td rows"
    using db_wf_tableE [OF assms(1) schema_tbl] .
  from single_rows [OF rows(2) single schema_td_wf [OF schema_tbl]] rows(1) assms(2)
  obtain r where r: "rows = [r]" by auto
  with rows(2) have wf: "row_wf td r" by (simp add: table_wf_def)
  then have "map_of r ''id'' = Some (VInt 1)" using single by (simp add: row_wf_def)
  with r have "update_id1 (vals x) rows = [set_cols (vals x) r]" by (simp add: update_id1_def)
  with db_exec_ok [OF assms(3)] rows(1)
  have "(committed s)(tbl \<mapsto> [set_cols (vals x) r]) = committed s1"
    by (auto simp: exec_update_single split: if_splits)
  then have "committed s1 tbl = Some [set_cols (vals x) r]" by (metis fun_upd_same)
  with wf that show thesis by blast
qed

lemma update_read_back:
  assumes "db_wf (committed s)" "committed s tbl \<noteq> Some []"
    and "db_exec (UpdateId1 tbl (vals x)) s = (None, s1)"
    and "get_row tbl cols scan zero s1 = ((y, None), s2)"
  shows "y = x"
  using update_stores [OF assms(1-3)] get_updated [OF _ _ assms(4)] by metis

lemma get_updated_fine:
  assumes "committed s tbl = Some [set_cols (vals x) r]" "row_wf td r" "healthy s"
  shows "get_row tbl cols scan zero s = ((x, None), s)"
proof -
  have "map_of (set_cols (vals x) r) ''id'' = Some (VInt 1)"
    using assms(2) single by (simp add: row_wf_def id_set_cols)
  then have "select_rows tbl cols (Some (''id'', VInt 1)) None (committed s) = Inr [map snd (vals x)]"
    using assms(1,2) by (simp add: select_rows_def where_rows_def project_set_cols)
  with assms(3) show ?thesis
    by (simp add: get_row_def db_query_row_def db_query_def next_fault_fine scan_vals)
qed

lemma update_read_fine:
  assumes "db_wf (committed s)" "committed s tbl \<noteq> Some []"
    and "db_exec (UpdateId1 tbl (vals x)) s = (None, s1)"
    and "healthy s2" "committed s2 = committed s1"
  shows "get_row tbl cols scan zero s2 = ((x, None), s2)"
proof -
  obtain r where "row_wf td r" "committed s1 tbl = Some [set_cols (vals x) r]"
    by (rule update_stores [OF assms(1-3)])
  with assms(4,5) get_updated_fine [of s2 x r zero] show ?thesis by simp
qed

lemma update_without_row:
  assumes "committed s tbl = Some []" "healthy s" "assigns_ok td (vals x)"
  shows "db_exec (UpdateId1 tbl (vals x)) s = (None, s)"
proof -
  have "(committed s)(tbl \<mapsto> []) = committed s" using assms(1) by (simp add: fun_upd_idem)
  then show ?thesis
    using assms by (simp add: db_exec_def next_fault_fine exec_update_single update_id1_def)
qed

text \<open>A row with exactly these values is read as it is.\<close>

lemma project_id_vals: "project cols ((''id'', VInt 1) # vals x) = Some (map snd (vals x))"
proof -
  have "map (\<lambda>p. map_of ((''id'', VInt 1) # vals x) (fst p)) (vals x) = map (Some \<circ> snd) (vals x)"
  proof (intro map_cong refl)
    fix p assume p: "p \<in> set (vals x)"
    then have "fst p \<in> set cols" using cols_vals [of x] by force
    with no_id have "fst p \<noteq> ''id''" by auto
    moreover have "map_of (vals x) (fst p) = Some (snd p)"
      using p cols_distinct cols_vals [of x] by (simp add: map_of_eq_Some_distinct)
    ultimately show "map_of ((''id'', VInt 1) # vals x) (fst p) = (Some \<circ> snd) p" by simp
  qed
  then show ?thesis by (simp add: project_def those_eq_Some_iff cols_vals [symmetric, of x] comp_def)
qed

lemma get_present:
  assumes "healthy s" "committed s tbl = Some [(''id'', VInt 1) # vals x]"
  shows "get_row tbl cols scan zero s = ((x, None), s)"
  using assms project_id_vals [of x]
  by (simp add: get_row_def db_query_row_def db_query_def next_fault_fine select_rows_def where_rows_def
      scan_vals)

end

definition vals_Site :: "Site \<Rightarrow> sqlrow" where
  "vals_Site v = [(''company_name'', VText (site_companyName v)), (''tagline'', VText (site_tagline v))]"

definition vals_About :: "About \<Rightarrow> sqlrow" where
  "vals_About v =
     [(''title'', VText (ab_title v)), (''description'', VText (ab_description v)),
      (''image'', VText (ab_image v))]"

definition vals_Contact :: "Contact \<Rightarrow> sqlrow" where
  "vals_Contact v =
     [(''address'', VText (co_address v)), (''phone'', VText (co_phone v)),
      (''email'', VText (co_email v)), (''whatsapp'', VText (co_whatsapp v))]"

definition scan_hash :: "sqlval list \<Rightarrow> string option" where
  "scan_hash vs = (case scan_texts vs of Some [h] \<Rightarrow> Some h | _ \<Rightarrow> None)"

interpretation site: single_table "''site''" "the (map_of schema ''site'')"
    "[''company_name'', ''tagline'']" vals_Site scan_Site
  by unfold_locales (simp_all add: schema_def col_type_of_def vals_Site_def scan_Site_def)

interpretation about: single_table "''about''" "the (map_of schema ''about'')"
    "[''title'', ''description'', ''image'']" vals_About scan_About
  by unfold_locales (simp_all add: schema_def col_type_of_def vals_About_def scan_About_def)

interpretation contact: single_table "''contact''" "the (map_of schema ''contact'')"
    "[''address'', ''phone'', ''email'', ''whatsapp'']" vals_Contact scan_Contact
  by unfold_locales (simp_all add: schema_def col_type_of_def vals_Contact_def scan_Contact_def)

interpretation password: single_table "''admin_password''" "the (map_of schema ''admin_password'')"
    "[''hash'']" "\<lambda>h. [(''hash'', VText h)]" scan_hash
  by unfold_locales (simp_all add: schema_def col_type_of_def scan_hash_def)

definition scan_json :: "sqlval list \<Rightarrow> json option" where
  "scan_json vs = (case vs of [VJson j] \<Rightarrow> Some j | _ \<Rightarrow> None)"

interpretation panel_row: single_table "''sidepanel''" "the (map_of schema ''sidepanel'')"
    "[''config'']" "\<lambda>j. [(''config'', VJson j)]" scan_json
  by unfold_locales (simp_all add: schema_def col_type_of_def scan_json_def)

lemma GetAdminPasswordHash_scan:
  "GetAdminPasswordHash = get_row ''admin_password'' [''hash''] scan_hash []"
  unfolding GetAdminPasswordHash_def scan_hash_def [abs_def] ..

lemma UpdateSite_vals: "UpdateSite v = db_exec (UpdateId1 ''site'' (vals_Site v))"
  by (simp add: UpdateSite_def vals_Site_def)

lemma UpdateAbout_vals: "UpdateAbout v = db_exec (UpdateId1 ''about'' (vals_About v))"
  by (simp add: UpdateAbout_def vals_About_def)

lemma UpdateContact_vals: "UpdateContact v = db_exec (UpdateId1 ''contact'' (vals_Contact v))"
  by (simp add: UpdateContact_def vals_Contact_def)

lemma password_read_back:
  "db_wf (committed s) \<Longrightarrow> committed s ''admin_password'' \<noteq> Some [] \<Longrightarrow>
   UpdateAdminPassword h s = (None, s1) \<Longrightarrow> GetAdminPasswordHash s1 = ((h', None), s2) \<Longrightarrow> h' = h"
  unfolding UpdateAdminPassword_def GetAdminPasswordHash_scan by (rule password.update_read_back)

text \<open>
  Round trip of the singletons: in well-formed tables that hold the row, an update that returned
  no error is what the next successful read returns, for the site, the about page, the contact and the
  password hash.
\<close>

theorem singles_read_back:
  assumes "db_wf (committed s)"
    and "committed s ''site'' \<noteq> Some []" "committed s ''about'' \<noteq> Some []"
    and "committed s ''contact'' \<noteq> Some []" "committed s ''admin_password'' \<noteq> Some []"
    and "UpdateSite v1 s = (None, s1)" "GetSite s1 = ((w1, None), s1')"
    and "UpdateAbout v2 s = (None, s2)" "GetAbout s2 = ((w2, None), s2')"
    and "UpdateContact v3 s = (None, s3)" "GetContact s3 = ((w3, None), s3')"
    and "UpdateAdminPassword v4 s = (None, s4)" "GetAdminPasswordHash s4 = ((w4, None), s4')"
  shows "w1 = v1 \<and> w2 = v2 \<and> w3 = v3 \<and> w4 = v4"
  by (intro conjI site.update_read_back [OF assms(1,2) assms(6) [unfolded UpdateSite_vals]
        assms(7) [unfolded GetSite_def]]
      about.update_read_back [OF assms(1,3) assms(8) [unfolded UpdateAbout_vals]
        assms(9) [unfolded GetAbout_def]]
      contact.update_read_back [OF assms(1,4) assms(10) [unfolded UpdateContact_vals]
        assms(11) [unfolded GetContact_def]]
      password_read_back [OF assms(1,5,12,13)])

text \<open>Tables with a row in each singleton.\<close>

definition seeded_db :: db where
  "seeded_db =
     empty_db(
       ''site'' \<mapsto> [[(''id'', VInt 1), (''company_name'', VText ''NexLog''), (''tagline'', VText ''T'')]],
       ''about'' \<mapsto> [[(''id'', VInt 1), (''title'', VText ''About''), (''description'', VText ''D''),
                     (''image'', VText ''/i.png'')]],
       ''contact'' \<mapsto> [[(''id'', VInt 1), (''address'', VText ''A''), (''phone'', VText ''1''),
                       (''email'', VText ''e''), (''whatsapp'', VText ''2'')]],
       ''admin_password'' \<mapsto> [[(''id'', VInt 1), (''hash'', VText ''h'')]],
       ''sidepanel'' \<mapsto> [[(''id'', VInt 1), (''config'', VJson (JObj []))]])"

definition seeded_server :: server where
  "seeded_server = \<lparr>committed = seeded_db, faults = [], delays = [], clock = 0, deadline = None\<rparr>"

lemma seeded_db_wf: "db_wf seeded_db"
  by code_simp

theorem singles_read_back_witness:
  "fst (fst (GetSite (snd (UpdateSite \<lparr>site_companyName = ''N'', site_tagline = ''t''\<rparr> seeded_server)))) =
     \<lparr>site_companyName = ''N'', site_tagline = ''t''\<rparr>"
proof -
  let ?s = seeded_server
  let ?v1 = "\<lparr>site_companyName = ''N'', site_tagline = ''t''\<rparr>"
  let ?v2 = "\<lparr>ab_title = ''x'', ab_description = ''y'', ab_image = ''z''\<rparr>"
  let ?v3 = "\<lparr>co_address = ''a'', co_phone = ''b'', co_email = ''c'', co_whatsapp = ''d''\<rparr>"
  have wf: "db_wf (committed ?s)" by (simp add: seeded_server_def seeded_db_wf)
  have n: "committed ?s ''site'' \<noteq> Some []" "committed ?s ''about'' \<noteq> Some []"
    "committed ?s ''contact'' \<noteq> Some []" "committed ?s ''admin_password'' \<noteq> Some []"
    by (simp_all add: seeded_server_def seeded_db_def)
  have "fst (UpdateSite ?v1 ?s) = None" by code_simp
  note h1 = split_pair [OF this]
  have "snd (fst (GetSite (snd (UpdateSite ?v1 ?s)))) = None" by code_simp
  note h1' = split_pair2 [OF this]
  have "fst (UpdateAbout ?v2 ?s) = None" by code_simp
  note h2 = split_pair [OF this]
  have "snd (fst (GetAbout (snd (UpdateAbout ?v2 ?s)))) = None" by code_simp
  note h2' = split_pair2 [OF this]
  have "fst (UpdateContact ?v3 ?s) = None" by code_simp
  note h3 = split_pair [OF this]
  have "snd (fst (GetContact (snd (UpdateContact ?v3 ?s)))) = None" by code_simp
  note h3' = split_pair2 [OF this]
  have "fst (UpdateAdminPassword ''k'' ?s) = None" by code_simp
  note h4 = split_pair [OF this]
  have "snd (fst (GetAdminPasswordHash (snd (UpdateAdminPassword ''k'' ?s)))) = None" by code_simp
  note h4' = split_pair2 [OF this]
  show ?thesis
    using singles_read_back [OF wf n h1 h1' h2 h2' h3 h3' h4 h4'] by simp
qed

text \<open>
  C40. An update of a singleton that has no row yet (before the tables are seeded) reports success and
  changes nothing: here for the site, whose next read still finds no row.
\<close>

theorem update_site_without_row:
  assumes "committed s ''site'' = Some []" and "healthy s"
    and "text_ok (site_companyName v)" and "text_ok (site_tagline v)"
  shows "UpdateSite v s = (None, s) \<and> GetSite s = ((zero_Site, Some ErrNoRows), s)"
proof
  have "assigns_ok (the (map_of schema ''site'')) (vals_Site v)"
    using assms(3,4) by (simp add: schema_def assigns_ok_def col_type_of_def vals_Site_def)
  with assms(1,2) show "UpdateSite v s = (None, s)"
    unfolding UpdateSite_vals by (rule site.update_without_row)
  show "GetSite s = ((zero_Site, Some ErrNoRows), s)"
    using assms(1,2)
    by (simp add: GetSite_def get_row_def db_query_row_def db_query_def next_fault_fine
        select_rows_def where_rows_def)
qed

theorem update_site_without_row_witness:
  "fst (UpdateSite \<lparr>site_companyName = ''N'', site_tagline = ''t''\<rparr> fresh_server) = None \<and>
   fst (GetSite fresh_server) = (zero_Site, Some ErrNoRows)"
proof -
  have "committed fresh_server ''site'' = Some []" by code_simp
  moreover have "healthy fresh_server" by (simp add: fresh_server_def healthy_def)
  ultimately show ?thesis
    using update_site_without_row [of fresh_server "\<lparr>site_companyName = ''N'', site_tagline = ''t''\<rparr>"]
    by (simp add: text_ok_def no_nul_def valid_utf8_ascii byte_def)
qed

end
