(* ===== verification/RepoLanguages.thy ===== *)
theory RepoLanguages
  imports RepoThms "HOL-Library.Multiset"
begin

text \<open>
  The languages: a Go map of objects is split into rows (code, flag, name and the rest as
  \<open>jsonb\<close>), and the rows are put together again when they are read. Also here: the singleton tables.
\<close>

section \<open>Decoded values are normal\<close>

lemma put_all_Nil: "distinct (map fst kvs) \<Longrightarrow> put_all [] kvs = kvs"
  using put_all_fresh [of "[]" kvs] by simp

lemma values_put_all: "snd ` set (put_all m kvs) \<subseteq> snd ` set m \<union> snd ` set kvs"
proof (induction m kvs rule: put_all.induct)
  case (2 m k v kvs)
  have "snd ` set (AList.update k v m) \<subseteq> insert v (snd ` set m)" by (induction m) auto
  with 2 show ?case by auto
qed simp

lemma map_val_id: "(\<And>v. v \<in> snd ` set m \<Longrightarrow> f v = v) \<Longrightarrow> map (\<lambda>(k, v). (k, f v)) m = m"
  by (induction m) auto

lemma to_iface_idem: "to_iface (to_iface j) = to_iface j"
proof (induction j rule: to_iface.induct)
  case (2 kvs)
  let ?m = "put_all [] (map (\<lambda>(k, v). (k, to_iface v)) kvs)"
  have "to_iface v = v" if "v \<in> snd ` set ?m" for v
  proof -
    from that values_put_all [of "[]" "map (\<lambda>(k, v). (k, to_iface v)) kvs"]
    obtain k w where "(k, w) \<in> set kvs" "v = to_iface w" by force
    with 2 show ?thesis by force
  qed
  then have "map (\<lambda>(k, v). (k, to_iface v)) ?m = ?m" by (rule map_val_id)
  moreover have "distinct (map fst ?m)" by (rule distinct_put_all) simp
  ultimately show ?case by (simp add: put_all_Nil)
qed auto

text \<open>What it means for a map to have come out of the decoder.\<close>

definition decoded :: "gomap \<Rightarrow> bool" where
  "decoded m \<longleftrightarrow> wf_gomap m \<and> list_all (\<lambda>(k, v). to_iface v = v) m"

lemma decoded_iff: "decoded m \<longleftrightarrow> to_iface (JObj m) = JObj m"
proof
  assume d: "decoded m"
  then have "map (\<lambda>(k, v). (k, to_iface v)) m = m"
    by (intro map_val_id) (auto simp: decoded_def list_all_iff)
  with d show "to_iface (JObj m) = JObj m" by (simp add: put_all_Nil decoded_def wf_gomap_def)
next
  assume t: "to_iface (JObj m) = JObj m"
  let ?n = "map (\<lambda>(k, v). (k, to_iface v)) m"
  from t have e: "put_all [] ?n = m" by simp
  have "distinct (map fst (put_all [] ?n))" by (rule distinct_put_all) simp
  with e have dm: "distinct (map fst m)" by simp
  moreover have "map fst ?n = map fst m" by auto
  ultimately have "put_all [] ?n = ?n" by (metis put_all_Nil)
  with e have "?n = m" by simp
  then have "map (\<lambda>(k, v). (k, to_iface v)) m = map id m" by simp
  then have "to_iface v = v" if "(k, v) \<in> set m" for k v
    using that unfolding map_eq_conv by auto
  with dm show "decoded m" by (auto simp: decoded_def wf_gomap_def list_all_iff)
qed

lemma decode_map_decoded: "decode_map j None = (Some m, e) \<Longrightarrow> decoded m"
proof -
  assume h: "decode_map j None = (Some m, e)"
  then obtain kvs where "j = JObj kvs" "m = put_all [] (map (\<lambda>(k, v). (k, to_iface v)) kvs)"
    by (cases j) (auto simp: decode_map_def)
  then have "JObj m = to_iface (JObj kvs)" by simp
  with to_iface_idem [of "JObj kvs"] show "decoded m" by (simp only: decoded_iff)
qed

lemma to_iface_no_overflow: "\<not> num_overflow (to_iface j)"
proof (induction j rule: to_iface.induct)
  case (2 kvs)
  let ?n = "map (\<lambda>(k, v). (k, to_iface v)) kvs"
  have "\<not> num_overflow v" if "v \<in> snd ` set (put_all [] ?n)" for v
  proof -
    from that values_put_all [of "[]" ?n] obtain k w where "(k, w) \<in> set kvs" "v = to_iface w" by force
    with 2 show ?thesis by force
  qed
  then show ?case by (force simp: list_ex_iff)
qed (auto simp: list_ex_iff)

lemma decode_decoded: "decoded m \<Longrightarrow> decode_map (JObj m) None = (Some m, False)"
proof -
  assume d: "decoded m"
  have "\<not> num_overflow v" if "(k, v) \<in> set m" for k v
    using that d to_iface_no_overflow [of v] by (force simp: decoded_def list_all_iff)
  with d show ?thesis by (auto simp: decode_map_def decoded_iff list_ex_iff)
qed

lemma decoded_filter: "decoded m \<Longrightarrow> decoded (filter P m)"
  by (auto simp: decoded_def wf_gomap_def list_all_iff distinct_map_filter)

lemma decoded_member: "decoded m \<Longrightarrow> (c, JObj lm) \<in> set m \<Longrightarrow> decoded lm"
  unfolding decoded_iff [of lm] by (auto simp: decoded_def list_all_iff)

section \<open>Languages\<close>

fun lang_rows :: "gomap \<Rightarrow> sqlrow list" where
  "lang_rows [] = []"
| "lang_rows ((code, JObj m) # kvs) = lang_vals code m # lang_rows kvs"
| "lang_rows ((code, v) # kvs) = lang_rows kvs"

text \<open>What is read back: the objects only, with \<open>flag\<close> and \<open>name\<close> forced to strings.\<close>

definition lang_norm :: "gomap \<Rightarrow> gomap" where
  "lang_norm m = lang_rest m @
     [(''flag'', JStr (string_member m ''flag'')), (''name'', JStr (string_member m ''name''))]"

fun lang_view :: "gomap \<Rightarrow> gomap" where
  "lang_view [] = []"
| "lang_view ((code, JObj m) # kvs) = (code, JObj (lang_norm m)) # lang_view kvs"
| "lang_view ((code, v) # kvs) = lang_view kvs"

lemma schema_languages:
  "map_of schema ''languages'' = Some
     \<lparr>td_cols = [text_col ''code'', jsonb_col ''data'', text_col ''flag'', text_col ''name''],
      td_key = Some ''code'', td_single = False\<rparr>"
  by (simp add: schema_def)

abbreviation languages_td :: table_def where
  "languages_td \<equiv>
     \<lparr>td_cols = [text_col ''code'', jsonb_col ''data'', text_col ''flag'', text_col ''name''],
      td_key = Some ''code'', td_single = False\<rparr>"

lemma complete_lang: "complete_row languages_td (lang_vals c m) = Some (lang_vals c m)"
  by (simp add: complete_row_def lang_vals_def)

lemma exec_lang_insert:
  "d ''languages'' = Some rows \<Longrightarrow>
   exec_stmt (Insert ''languages'' (lang_vals c m) False) d =
     (if \<not> assigns_ok languages_td (lang_vals c m) then Inl (ErrDriver ''pq: invalid value'')
      else if key_taken languages_td rows (lang_vals c m)
      then Inl (ErrDriver ''pq: duplicate key value violates unique constraint'')
      else Inr (d(''languages'' \<mapsto> rows @ [lang_vals c m])))"
  by (simp add: exec_stmt_def schema_languages exec_insert_def complete_lang)

lemma exec_lang_inserts:
  "exec_stmts (lang_inserts m) d = Inr d' \<Longrightarrow> d ''languages'' = Some rows \<Longrightarrow>
     d' = d(''languages'' \<mapsto> rows @ lang_rows m) \<and> list_all (assigns_ok languages_td) (lang_rows m)"
proof (induction m arbitrary: d rows rule: lang_inserts.induct)
  case 1
  then show ?case by (auto simp: fun_upd_idem)
next
  case (2 code m kvs)
  then obtain d1 where
    d1: "exec_stmt (Insert ''languages'' (lang_vals code m) False) d = Inr d1"
      "exec_stmts (lang_inserts kvs) d1 = Inr d'"
    by (auto split: sum.splits)
  with 2(3) have ok: "assigns_ok languages_td (lang_vals code m)"
    and eq: "d1 = d(''languages'' \<mapsto> rows @ [lang_vals code m])"
    by (auto simp: exec_lang_insert split: if_splits)
  then have "d1 ''languages'' = Some (rows @ [lang_vals code m])" by simp
  from "2.IH" [OF d1(2) this] ok eq show ?case by (auto simp: fun_eq_iff)
qed auto

lemma key_taken_lang:
  "key_taken languages_td rows (lang_vals c m) \<longleftrightarrow> Some (VText c) \<in> (\<lambda>r. map_of r ''code'') ` set rows"
  by (auto simp: key_taken_def list_ex_iff lang_vals_def image_iff eq_commute [of "Some (VText c)"])

lemma code_lang_vals: "map_of (lang_vals c m) ''code'' = Some (VText c)"
  by (simp add: lang_vals_def)

lemma exec_lang_inserts_ok:
  "list_all (assigns_ok languages_td) (lang_rows m) \<Longrightarrow> wf_gomap m \<Longrightarrow>
   d ''languages'' = Some rows \<Longrightarrow>
   (\<forall>c \<in> fst ` set m. Some (VText c) \<notin> (\<lambda>r. map_of r ''code'') ` set rows) \<Longrightarrow>
     exec_stmts (lang_inserts m) d = Inr (d(''languages'' \<mapsto> rows @ lang_rows m))"
proof (induction m arbitrary: d rows rule: lang_inserts.induct)
  case 1
  then show ?case by (auto simp: fun_upd_idem)
next
  case (2 code m kvs)
  let ?d1 = "d(''languages'' \<mapsto> rows @ [lang_vals code m])"
  have "\<not> key_taken languages_td rows (lang_vals code m)"
    using "2.prems"(4) by (auto simp: key_taken_lang)
  with "2.prems" have a: "exec_stmt (Insert ''languages'' (lang_vals code m) False) d = Inr ?d1"
    by (simp add: exec_lang_insert)
  have "exec_stmts (lang_inserts kvs) ?d1 =
      Inr (?d1(''languages'' \<mapsto> (rows @ [lang_vals code m]) @ lang_rows kvs))"
  proof (rule "2.IH")
    show "\<forall>c \<in> fst ` set kvs.
        Some (VText c) \<notin> (\<lambda>r. map_of r ''code'') ` set (rows @ [lang_vals code m])"
      using "2.prems"(2,4) by (auto simp: code_lang_vals wf_gomap_def image_iff)
  qed (use "2.prems" in \<open>simp_all add: wf_gomap_def\<close>)
  with a show ?case by (auto simp: fun_eq_iff)
qed (auto simp: wf_gomap_def)

definition languages_stmts :: "gomap \<Rightarrow> stmt list" where
  "languages_stmts m = DeleteAll ''languages'' # lang_inserts m"

lemma UpdateLanguages_run: "UpdateLanguages ms = run_ignoring (languages_stmts (elems ms))"
  by (simp add: UpdateLanguages_def languages_stmts_def)

lemma exec_delete_languages:
  "exec_stmt (DeleteAll ''languages'') d =
     (case d ''languages'' of
        None \<Rightarrow> Inl (ErrDriver ''pq: relation does not exist'')
      | Some _ \<Rightarrow> Inr (d(''languages'' \<mapsto> [])))"
  by (simp add: exec_stmt_def schema_languages split: option.splits)

lemma exec_languages:
  "exec_stmts (languages_stmts m) d = Inr d' \<Longrightarrow>
     d' = d(''languages'' \<mapsto> lang_rows m) \<and> list_all (assigns_ok languages_td) (lang_rows m) \<and>
     d ''languages'' \<noteq> None"
  by (auto simp: languages_stmts_def exec_delete_languages split: option.splits dest!: exec_lang_inserts)

lemma exec_languages_ok:
  "list_all (assigns_ok languages_td) (lang_rows m) \<Longrightarrow> wf_gomap m \<Longrightarrow> d ''languages'' \<noteq> None \<Longrightarrow>
     exec_stmts (languages_stmts m) d = Inr (d(''languages'' \<mapsto> lang_rows m))"
proof -
  assume h: "list_all (assigns_ok languages_td) (lang_rows m)" "wf_gomap m" "d ''languages'' \<noteq> None"
  from h(3) have "exec_stmt (DeleteAll ''languages'') d = Inr (d(''languages'' \<mapsto> []))"
    by (auto simp: exec_delete_languages)
  moreover from h(1,2) have "exec_stmts (lang_inserts m) (d(''languages'' \<mapsto> [])) =
      Inr ((d(''languages'' \<mapsto> []))(''languages'' \<mapsto> [] @ lang_rows m))"
    by (intro exec_lang_inserts_ok) auto
  ultimately show ?thesis by (simp add: languages_stmts_def)
qed

subsection \<open>Reading the rows\<close>

lemma scan_lang_vals:
  "scan_language (map snd (lang_vals c m)) =
     Some (c, JObj (lang_rest m), string_member m ''flag'', string_member m ''name'')"
  by (simp add: scan_language_def lang_vals_def scan_text_def)

lemma project_lang_vals:
  "project [''code'', ''data'', ''flag'', ''name''] (lang_vals c m) = Some (map snd (lang_vals c m))"
  by (simp add: project_def lang_vals_def)

fun lang_scans :: "gomap \<Rightarrow> (string \<times> json \<times> string \<times> string) list" where
  "lang_scans [] = []"
| "lang_scans ((c, JObj m) # kvs) =
     (c, JObj (lang_rest m), string_member m ''flag'', string_member m ''name'') # lang_scans kvs"
| "lang_scans ((c, v) # kvs) = lang_scans kvs"

lemma select_languages:
  "d ''languages'' = Some (lang_rows m) \<Longrightarrow>
   select_rows ''languages'' [''code'', ''data'', ''flag'', ''name''] None None d =
     Inr (map (map snd) (lang_rows m))"
proof -
  have "map (project [''code'', ''data'', ''flag'', ''name'']) (lang_rows m) =
      map Some (map (map snd) (lang_rows m))"
    by (induction m rule: lang_rows.induct) (simp_all add: project_lang_vals)
  then have "those (map (project [''code'', ''data'', ''flag'', ''name'']) (lang_rows m)) =
      Some (map (map snd) (lang_rows m))"
    by (simp only: those_eq_Some_iff)
  then show "d ''languages'' = Some (lang_rows m) \<Longrightarrow> ?thesis"
    by (simp add: select_rows_def where_rows_def)
qed

lemma scan_lang_rows:
  "those (map scan_language (map (map snd) (lang_rows m))) = Some (lang_scans m)"
proof -
  have "map scan_language (map (map snd) (lang_rows m)) = map Some (lang_scans m)"
    by (induction m rule: lang_rows.induct) (simp_all add: scan_lang_vals)
  then show ?thesis by (simp only: those_eq_Some_iff)
qed

lemma lang_of_row_norm:
  "decoded m \<Longrightarrow>
     lang_of_row (JObj (lang_rest m)) (string_member m ''flag'') (string_member m ''name'') = lang_norm m"
proof -
  assume "decoded m"
  then have d: "decode_map (JObj (lang_rest m)) None = (Some (lang_rest m), False)"
    by (simp add: decode_decoded decoded_filter lang_rest_def)
  have fresh: "AList.update k v r = r @ [(k, v)]" if "k \<notin> fst ` set r" for k v and r :: gomap
    using that by (induction r) auto
  have "''flag'' \<notin> fst ` set (lang_rest m)" "''name'' \<notin> fst ` set (lang_rest m)"
    by (auto simp: lang_rest_def)
  with d show ?thesis by (simp add: lang_of_row_def lang_norm_def fresh)
qed

lemma languages_loop_view:
  "decoded m \<Longrightarrow> (\<forall>c \<in> fst ` set m. c \<notin> fst ` set acc) \<Longrightarrow>
     languages_loop acc (lang_scans m) = acc @ lang_view m"
proof (induction m arbitrary: acc rule: lang_view.induct)
  case (2 code m kvs)
  have dm: "decoded m" using "2.prems"(1) by (rule decoded_member [where c = code]) simp
  have rest: "decoded kvs" using "2.prems"(1) by (simp add: decoded_def wf_gomap_def)
  have upd: "AList.update code v acc = acc @ [(code, v)]" for v
  proof -
    have "code \<notin> fst ` set acc" using "2.prems"(2) by simp
    then show ?thesis by (induction acc) auto
  qed
  have "languages_loop (acc @ [(code, JObj (lang_norm m))]) (lang_scans kvs) =
      (acc @ [(code, JObj (lang_norm m))]) @ lang_view kvs"
    by (rule "2.IH" [OF rest]) (use "2.prems" in \<open>auto simp: decoded_def wf_gomap_def\<close>)
  then show ?case by (simp add: lang_of_row_norm [OF dm] upd)
qed (simp_all add: decoded_def wf_gomap_def)

lemma GetLanguages_view:
  assumes "decoded m" "committed s ''languages'' = Some (lang_rows m)"
    and "GetLanguages s = ((r, None), s1)"
  shows "r = Some (lang_view m)"
proof -
  let ?cols = "[''code'', ''data'', ''flag'', ''name'']"
  obtain q s2 where q: "db_query ''languages'' ?cols None None s = (q, s2)" by force
  obtain f s3 where f: "next_fault s = (f, s3)" by force
  have c3: "committed s3 = committed s" using f by (rule next_fault_committed)
  from assms(3) q obtain vs where v: "q = Inr (vs, None)"
    and r: "r = map_option (languages_loop []) (those (map scan_language vs))"
    by (auto simp: GetLanguages_def split: sum.splits option.splits)
  from q v f c3 assms(2) have "vs = map (map snd) (lang_rows m)"
    by (auto simp: db_query_def select_languages split: fault.splits)
  then have "those (map scan_language vs) = Some (lang_scans m)" by (simp only: scan_lang_rows)
  with r languages_loop_view [OF assms(1), of "[]"] show ?thesis by simp
qed

text \<open>
  C23. Round trip of the languages: after an update with a decoded map that returned no error, a read
  that returns no error gives the same languages, in which every entry that is not an object is gone
  and \<open>flag\<close> and \<open>name\<close> are strings (empty when they were not).
\<close>

theorem languages_read_back:
  assumes "decode_map j None = (Some m, False)"
    and "UpdateLanguages (Some m) s = (None, s1)"
    and "GetLanguages s1 = ((r, None), s2)"
  shows "r = Some (lang_view m)"
proof -
  from assms(2) have "committed s1 ''languages'' = Some (lang_rows m)"
    by (auto simp: UpdateLanguages_run dest!: run_ignoring_ok exec_languages)
  with assms(1,3) show ?thesis by (blast intro: GetLanguages_view decode_map_decoded)
qed

definition a_language_map :: gomap where
  "a_language_map =
     [(''en'', JObj [(''flag'', JStr ''E''), (''name'', JStr ''English''), (''nav_home'', JStr ''Home'')]),
      (''xx'', JNull)]"

theorem languages_read_back_witness:
  "fst (fst (GetLanguages (snd (UpdateLanguages (Some a_language_map) fresh_server)))) =
     Some [(''en'', JObj [(''nav_home'', JStr ''Home''), (''flag'', JStr ''E''), (''name'', JStr ''English'')])]"
proof -
  have d: "decode_map (JObj a_language_map) None = (Some a_language_map, False)" by code_simp
  have "fst (UpdateLanguages (Some a_language_map) fresh_server) = None" by code_simp
  note u = split_pair [OF this]
  have "snd (fst (GetLanguages (snd (UpdateLanguages (Some a_language_map) fresh_server)))) = None"
    by code_simp
  note g = split_pair2 [OF this]
  have "lang_view a_language_map =
      [(''en'', JObj [(''nav_home'', JStr ''Home''), (''flag'', JStr ''E''), (''name'', JStr ''English'')])]"
    by code_simp
  with languages_read_back [OF d u g] show ?thesis by simp
qed

subsection \<open>The order of the map does not matter\<close>

lemma mset_lang_rows: "mset m = mset m' \<Longrightarrow> mset (lang_rows m) = mset (lang_rows m')"
proof -
  have rows: "lang_rows m = map (\<lambda>p. lang_vals (fst p) (case snd p of JObj lm \<Rightarrow> lm | _ \<Rightarrow> []))
      (filter (\<lambda>p. case snd p of JObj _ \<Rightarrow> True | _ \<Rightarrow> False) m)" for m
    by (induction m rule: lang_rows.induct) simp_all
  assume "mset m = mset m'"
  then show ?thesis by (simp add: rows)
qed

lemma run_ignoring_fails:
  assumes "healthy s" and "exec_stmts sts (committed s) = Inl e"
  shows "run_ignoring sts s = (Some ErrInFailedTransaction, s)"
proof -
  have fail: "\<exists>t1. tx_exec_all sts t s = (t1, s) \<and> aborted t1"
    if "exec_stmts sts (work t) = Inl e \<or> aborted t" for sts t
    using that
  proof (induction sts arbitrary: t)
    case Nil
    then show ?case by auto
  next
    case (Cons st sts)
    show ?case
    proof (cases "\<not> aborted t \<and> (\<exists>d. exec_stmt st (work t) = Inr d)")
      case True
      then obtain d where d: "exec_stmt st (work t) = Inr d" by blast
      with True assms(1) have "tx_exec st t s = (None, t\<lparr>work := d\<rparr>, s)" by (simp add: tx_exec_fine)
      with Cons.IH [of "t\<lparr>work := d\<rparr>"] Cons.prems d True show ?thesis by auto
    next
      case False
      then obtain e' t1 where "tx_exec st t s = (Some e', t1, s)" "aborted t1"
        using assms(1)
        by (cases "aborted t"; cases "exec_stmt st (work t)") (auto simp: tx_exec_def next_fault_fine)
      with Cons.IH [of t1] show ?thesis by auto
    qed
  qed
  obtain t1 where "tx_exec_all sts \<lparr>work = committed s, aborted = False\<rparr> s = (t1, s)" "aborted t1"
    using fail [of sts "\<lparr>work = committed s, aborted = False\<rparr>"] assms(2) by auto
  with assms(1) show ?thesis
    by (simp add: run_ignoring_def db_begin_fine tx_commit_def next_fault_fine)
qed

text \<open>
  The result of \<open>UpdateLanguages\<close> does not depend on the order in which Go happens to iterate over
  the map: for two orders of the same map the same error is returned, and the table holds the same
  rows (as a multiset).
\<close>

theorem languages_order_irrelevant:
  assumes "wf_gomap m" and "mset m' = mset m" and "healthy s"
    and "committed s ''languages'' = Some rows"
  shows "fst (UpdateLanguages (Some m) s) = fst (UpdateLanguages (Some m') s) \<and>
    (\<exists>rs rs'. committed (snd (UpdateLanguages (Some m) s)) ''languages'' = Some rs \<and>
       committed (snd (UpdateLanguages (Some m') s)) ''languages'' = Some rs' \<and> mset rs = mset rs')"
proof -
  have wf': "wf_gomap m'"
  proof -
    from assms(2) have "mset (map fst m') = mset (map fst m)" by simp
    then show ?thesis using assms(1) unfolding wf_gomap_def by (rule mset_eq_imp_distinct_iff [THEN iffD2])
  qed
  have ms: "mset (lang_rows m) = mset (lang_rows m')" using assms(2) [symmetric] by (rule mset_lang_rows)
  then have all: "list_all (assigns_ok languages_td) (lang_rows m) \<longleftrightarrow>
      list_all (assigns_ok languages_td) (lang_rows m')"
    unfolding list_all_iff by (simp only: mset_eq_setD [OF ms])
  show ?thesis
  proof (cases "list_all (assigns_ok languages_td) (lang_rows m)")
    case True
    have ok: "run_ignoring (languages_stmts k) s =
        (None, s\<lparr>committed := (committed s)(''languages'' \<mapsto> lang_rows k)\<rparr>)"
      if "list_all (assigns_ok languages_td) (lang_rows k)" "wf_gomap k" for k
      using that assms(3,4) by (simp add: run_ignoring_fine exec_languages_ok)
    from ok [OF True assms(1)] ok [OF True [unfolded all] wf'] ms show ?thesis
      by (simp add: UpdateLanguages_run)
  next
    case False
    have bad: "run_ignoring (languages_stmts k) s = (Some ErrInFailedTransaction, s)"
      if "\<not> list_all (assigns_ok languages_td) (lang_rows k)" for k
    proof (cases "exec_stmts (languages_stmts k) (committed s)")
      case (Inl e)
      with assms(3) show ?thesis by (rule run_ignoring_fails)
    next
      case (Inr d)
      with that show ?thesis by (auto dest: exec_languages)
    qed
    from bad [OF False] bad [OF False [unfolded all]] assms(4) show ?thesis
      by (simp add: UpdateLanguages_run)
  qed
qed

theorem languages_order_irrelevant_witness:
  "fst (UpdateLanguages (Some a_language_map) fresh_server) =
     fst (UpdateLanguages (Some (rev a_language_map)) fresh_server)"
proof -
  have "wf_gomap a_language_map" by code_simp
  moreover have "mset (rev a_language_map) = mset a_language_map" by simp
  moreover have "healthy fresh_server" by (simp add: fresh_server_def healthy_def)
  moreover have "committed fresh_server ''languages'' = Some []" by code_simp
  ultimately show ?thesis
    using languages_order_irrelevant [of a_language_map "rev a_language_map" fresh_server "[]"] by blast
qed

end
