(* ===== verification/Languages.thy ===== *)
theory Languages
  imports Json
begin

text \<open>
  \<open>internal/service/languages.go\<close>: the texts of the five languages that are seeded on the first boot
  and added when they are missing. A text outside ASCII is given by its code points.
\<close>

text \<open>A language of \<open>DefaultLanguages()\<close> is a map from keys to texts.\<close>

type_synonym langmap = "(string \<times> string) list"

definition lang_en :: langmap where
  "lang_en =
     [(''flag'', utf8 [0x1F1EC, 0x1F1E7]),
      (''name'', ''English''),
      (''nav_home'', ''Home''),
      (''nav_about'', ''About''),
      (''nav_services'', ''Services''),
      (''nav_news'', ''News''),
      (''nav_quote'', ''Get Quote''),
      (''eyebrow_who'', ''Who We Are''),
      (''eyebrow_offer'', ''What We Offer''),
      (''eyebrow_updates'', ''Latest Updates''),
      (''eyebrow_partners'', ''Trusted By''),
      (''eyebrow_touch'', ''Get In Touch''),
      (''sec_about'', ''About Us''),
      (''sec_services'', ''Our Services''),
      (''sec_news'', ''Our News''),
      (''sec_partners'', ''Our Key Partners''),
      (''cta_title'', ''Ready to Ship With Us?''),
      (''cta_sub'', ''Contact our team for a custom logistics solution.''),
      (''cta_btn'', (''Request a Quote '' @ utf8 [0x2192])),
      (''about_btn'', (''Contact Us '' @ utf8 [0x2192])),
      (''slide_tag'', ''Global Logistics''),
      (''slide_title'', ''Global Logistics Solutions''),
      (''slide_subtitle'', ''Fast, Reliable & Trusted Worldwide''),
      (''slide_btn_text'', ''Explore''),
      (''footer_services'', ''Services''),
      (''footer_company'', ''Company''),
      (''footer_team'', ''Team''),
      (''footer_careers'', ''Careers''),
      (''footer_news'', ''News''),
      (''footer_contact'', ''Contact''),
      (''years'', ''Years''),
      (''footer_tagline'', ''Connecting the World, Delivering Excellence since 2001.''),
      (''page_title'', (''NexLog Global '' @ utf8 [0x2014] @ '' International Logistics'')),
      (''rights'', ''All Rights Reserved'')]"

definition lang_ru :: langmap where
  "lang_ru =
     [(''flag'', utf8 [0x1F1F7, 0x1F1FA]),
      (''name'', utf8 [0x420, 0x443, 0x441, 0x441, 0x43A, 0x438, 0x439]),
      (''nav_home'', utf8 [0x413, 0x43B, 0x430, 0x432, 0x43D, 0x430, 0x44F]),
      (''nav_about'', utf8 [0x41E, 0x20, 0x43D, 0x430, 0x441]),
      (''nav_services'', utf8 [0x423, 0x441, 0x43B, 0x443, 0x433, 0x438]),
      (''nav_news'', utf8 [0x41D, 0x43E, 0x432, 0x43E, 0x441, 0x442, 0x438]),
      (''nav_quote'', utf8 [0x417, 0x430, 0x43F, 0x440, 0x43E, 0x441]),
      (''eyebrow_who'', utf8 [0x41A, 0x442, 0x43E, 0x20, 0x43C, 0x44B]),
      (''eyebrow_offer'', utf8 [0x427, 0x442, 0x43E, 0x20, 0x43C, 0x44B, 0x20, 0x43F, 0x440, 0x435, 0x434, 0x43B, 0x430, 0x433, 0x430, 0x435, 0x43C]),
      (''eyebrow_updates'', utf8 [0x41F, 0x43E, 0x441, 0x43B, 0x435, 0x434, 0x43D, 0x438, 0x435, 0x20, 0x43D, 0x43E, 0x432, 0x43E, 0x441, 0x442, 0x438]),
      (''eyebrow_partners'', utf8 [0x41D, 0x430, 0x43C, 0x20, 0x434, 0x43E, 0x432, 0x435, 0x440, 0x44F, 0x44E, 0x442]),
      (''eyebrow_touch'', utf8 [0x421, 0x432, 0x44F, 0x437, 0x430, 0x442, 0x44C, 0x441, 0x44F, 0x20, 0x441, 0x20, 0x43D, 0x430, 0x43C, 0x438]),
      (''sec_about'', utf8 [0x41E, 0x20, 0x43A, 0x43E, 0x43C, 0x43F, 0x430, 0x43D, 0x438, 0x438]),
      (''sec_services'', utf8 [0x41D, 0x430, 0x448, 0x438, 0x20, 0x443, 0x441, 0x43B, 0x443, 0x433, 0x438]),
      (''sec_news'', utf8 [0x41D, 0x43E, 0x432, 0x43E, 0x441, 0x442, 0x438]),
      (''sec_partners'', utf8 [0x41D, 0x430, 0x448, 0x438, 0x20, 0x43F, 0x430, 0x440, 0x442, 0x43D, 0x451, 0x440, 0x44B]),
      (''cta_title'', utf8 [0x413, 0x43E, 0x442, 0x43E, 0x432, 0x44B, 0x20, 0x43E, 0x442, 0x43F, 0x440, 0x430, 0x432, 0x438, 0x442, 0x44C, 0x20, 0x433, 0x440, 0x443, 0x437, 0x3F]),
      (''cta_sub'', utf8 [0x421, 0x432, 0x44F, 0x436, 0x438, 0x442, 0x435, 0x441, 0x44C, 0x20, 0x441, 0x20, 0x43D, 0x430, 0x448, 0x435, 0x439, 0x20, 0x43A, 0x43E, 0x43C, 0x430, 0x43D, 0x434, 0x43E, 0x439, 0x20, 0x434, 0x43B, 0x44F, 0x20, 0x440, 0x435, 0x448, 0x435, 0x43D, 0x438, 0x44F, 0x20, 0x43B, 0x43E, 0x433, 0x438, 0x441, 0x442, 0x438, 0x447, 0x435, 0x441, 0x43A, 0x438, 0x445, 0x20, 0x437, 0x430, 0x434, 0x430, 0x447, 0x2E]),
      (''cta_btn'', utf8 [0x417, 0x430, 0x43F, 0x440, 0x43E, 0x441, 0x438, 0x442, 0x44C, 0x20, 0x446, 0x435, 0x43D, 0x443, 0x20, 0x2192]),
      (''about_btn'', utf8 [0x421, 0x432, 0x44F, 0x437, 0x430, 0x442, 0x44C, 0x441, 0x44F, 0x20, 0x2192]),
      (''slide_tag'', utf8 [0x413, 0x43B, 0x43E, 0x431, 0x430, 0x43B, 0x44C, 0x43D, 0x430, 0x44F, 0x20, 0x43B, 0x43E, 0x433, 0x438, 0x441, 0x442, 0x438, 0x43A, 0x430]),
      (''slide_title'', utf8 [0x413, 0x43B, 0x43E, 0x431, 0x430, 0x43B, 0x44C, 0x43D, 0x44B, 0x435, 0x20, 0x43B, 0x43E, 0x433, 0x438, 0x441, 0x442, 0x438, 0x447, 0x435, 0x441, 0x43A, 0x438, 0x435, 0x20, 0x440, 0x435, 0x448, 0x435, 0x43D, 0x438, 0x44F]),
      (''slide_subtitle'', utf8 [0x411, 0x44B, 0x441, 0x442, 0x440, 0x43E, 0x2C, 0x20, 0x43D, 0x430, 0x434, 0x451, 0x436, 0x43D, 0x43E, 0x20, 0x438, 0x20, 0x441, 0x20, 0x434, 0x43E, 0x432, 0x435, 0x440, 0x438, 0x435, 0x43C, 0x20, 0x43F, 0x43E, 0x20, 0x432, 0x441, 0x435, 0x43C, 0x443, 0x20, 0x43C, 0x438, 0x440, 0x443]),
      (''slide_btn_text'', utf8 [0x423, 0x437, 0x43D, 0x430, 0x442, 0x44C, 0x20, 0x431, 0x43E, 0x43B, 0x44C, 0x448, 0x435]),
      (''footer_services'', utf8 [0x423, 0x441, 0x43B, 0x443, 0x433, 0x438]),
      (''footer_company'', utf8 [0x41A, 0x43E, 0x43C, 0x43F, 0x430, 0x43D, 0x438, 0x44F]),
      (''footer_team'', utf8 [0x41A, 0x43E, 0x43C, 0x430, 0x43D, 0x434, 0x430]),
      (''footer_careers'', utf8 [0x41A, 0x430, 0x440, 0x44C, 0x435, 0x440, 0x430]),
      (''footer_news'', utf8 [0x41D, 0x43E, 0x432, 0x43E, 0x441, 0x442, 0x438]),
      (''footer_contact'', utf8 [0x41A, 0x43E, 0x43D, 0x442, 0x430, 0x43A, 0x442, 0x44B]),
      (''years'', utf8 [0x41B, 0x435, 0x442]),
      (''footer_tagline'', utf8 [0x41E, 0x431, 0x44A, 0x435, 0x434, 0x438, 0x43D, 0x44F, 0x435, 0x43C, 0x20, 0x43C, 0x438, 0x440, 0x2C, 0x20, 0x43E, 0x431, 0x435, 0x441, 0x43F, 0x435, 0x447, 0x438, 0x432, 0x430, 0x44F, 0x20, 0x441, 0x43E, 0x432, 0x435, 0x440, 0x448, 0x435, 0x43D, 0x441, 0x442, 0x432, 0x43E, 0x20, 0x441, 0x20, 0x32, 0x30, 0x30, 0x31, 0x20, 0x433, 0x43E, 0x434, 0x430, 0x2E]),
      (''page_title'', utf8 [0x4E, 0x65, 0x78, 0x4C, 0x6F, 0x67, 0x20, 0x47, 0x6C, 0x6F, 0x62, 0x61, 0x6C, 0x20, 0x2014, 0x20, 0x41C, 0x435, 0x436, 0x434, 0x443, 0x43D, 0x430, 0x440, 0x43E, 0x434, 0x43D, 0x430, 0x44F, 0x20, 0x43B, 0x43E, 0x433, 0x438, 0x441, 0x442, 0x438, 0x43A, 0x430]),
      (''rights'', utf8 [0x412, 0x441, 0x435, 0x20, 0x43F, 0x440, 0x430, 0x432, 0x430, 0x20, 0x437, 0x430, 0x449, 0x438, 0x449, 0x435, 0x43D, 0x44B])]"

definition lang_ja :: langmap where
  "lang_ja =
     [(''flag'', utf8 [0x1F1EF, 0x1F1F5]),
      (''name'', utf8 [0x65E5, 0x672C, 0x8A9E]),
      (''nav_home'', utf8 [0x30DB, 0x30FC, 0x30E0]),
      (''nav_about'', utf8 [0x4F1A, 0x793E, 0x6982, 0x8981]),
      (''nav_services'', utf8 [0x30B5, 0x30FC, 0x30D3, 0x30B9]),
      (''nav_news'', utf8 [0x30CB, 0x30E5, 0x30FC, 0x30B9]),
      (''nav_quote'', utf8 [0x898B, 0x7A4D, 0x3082, 0x308A]),
      (''eyebrow_who'', utf8 [0x79C1, 0x305F, 0x3061, 0x306B, 0x3064, 0x3044, 0x3066]),
      (''eyebrow_offer'', utf8 [0x30B5, 0x30FC, 0x30D3, 0x30B9, 0x5185, 0x5BB9]),
      (''eyebrow_updates'', utf8 [0x6700, 0x65B0, 0x30CB, 0x30E5, 0x30FC, 0x30B9]),
      (''eyebrow_partners'', utf8 [0x4FE1, 0x983C, 0x3055, 0x308C, 0x3066, 0x3044, 0x307E, 0x3059]),
      (''eyebrow_touch'', utf8 [0x304A, 0x554F, 0x3044, 0x5408, 0x308F, 0x305B]),
      (''sec_about'', utf8 [0x4F1A, 0x793E, 0x6982, 0x8981]),
      (''sec_services'', utf8 [0x30B5, 0x30FC, 0x30D3, 0x30B9]),
      (''sec_news'', utf8 [0x30CB, 0x30E5, 0x30FC, 0x30B9]),
      (''sec_partners'', utf8 [0x4E3B, 0x8981, 0x30D1, 0x30FC, 0x30C8, 0x30CA, 0x30FC]),
      (''cta_title'', utf8 [0x4E00, 0x7DD2, 0x306B, 0x51FA, 0x8377, 0x3057, 0x307E, 0x305B, 0x3093, 0x304B, 0xFF1F]),
      (''cta_sub'', utf8 [0x304A, 0x5BA2, 0x69D8, 0x306E, 0x30CB, 0x30FC, 0x30BA, 0x306B, 0x5408, 0x3063, 0x305F, 0x7269, 0x6D41, 0x30BD, 0x30EA, 0x30E5, 0x30FC, 0x30B7, 0x30E7, 0x30F3, 0x306B, 0x3064, 0x3044, 0x3066, 0x3001, 0x30C1, 0x30FC, 0x30E0, 0x306B, 0x304A, 0x554F, 0x3044, 0x5408, 0x308F, 0x305B, 0x304F, 0x3060, 0x3055, 0x3044, 0x3002]),
      (''cta_btn'', utf8 [0x898B, 0x7A4D, 0x3082, 0x308A, 0x3092, 0x4F9D, 0x983C, 0x3059, 0x308B, 0x20, 0x2192]),
      (''about_btn'', utf8 [0x304A, 0x554F, 0x3044, 0x5408, 0x308F, 0x305B, 0x20, 0x2192]),
      (''slide_tag'', utf8 [0x30B0, 0x30ED, 0x30FC, 0x30D0, 0x30EB, 0x7269, 0x6D41]),
      (''slide_title'', utf8 [0x30B0, 0x30ED, 0x30FC, 0x30D0, 0x30EB, 0x7269, 0x6D41, 0x30BD, 0x30EA, 0x30E5, 0x30FC, 0x30B7, 0x30E7, 0x30F3]),
      (''slide_subtitle'', utf8 [0x8FC5, 0x901F, 0x30FB, 0x78BA, 0x5B9F, 0x30FB, 0x4E16, 0x754C, 0x4E2D, 0x3067, 0x4FE1, 0x983C, 0x3055, 0x308C, 0x308B]),
      (''slide_btn_text'', utf8 [0x8A73, 0x3057, 0x304F, 0x898B, 0x308B]),
      (''footer_services'', utf8 [0x30B5, 0x30FC, 0x30D3, 0x30B9]),
      (''footer_company'', utf8 [0x4F1A, 0x793E]),
      (''footer_team'', utf8 [0x30C1, 0x30FC, 0x30E0]),
      (''footer_careers'', utf8 [0x63A1, 0x7528, 0x60C5, 0x5831]),
      (''footer_news'', utf8 [0x30CB, 0x30E5, 0x30FC, 0x30B9]),
      (''footer_contact'', utf8 [0x304A, 0x554F, 0x3044, 0x5408, 0x308F, 0x305B]),
      (''years'', utf8 [0x5E74]),
      (''footer_tagline'', utf8 [0x32, 0x30, 0x30, 0x31, 0x5E74, 0x304B, 0x3089, 0x4E16, 0x754C, 0x3092, 0x3064, 0x306A, 0x304E, 0x3001, 0x5353, 0x8D8A, 0x3057, 0x305F, 0x30B5, 0x30FC, 0x30D3, 0x30B9, 0x3092, 0x304A, 0x5C4A, 0x3051, 0x3057, 0x3066, 0x3044, 0x307E, 0x3059, 0x3002]),
      (''page_title'', (''NexLog Global '' @ utf8 [0x2014] @ '' '' @ utf8 [0x56FD, 0x969B, 0x7269, 0x6D41])),
      (''rights'', utf8 [0x5168, 0x8457, 0x4F5C, 0x6A29, 0x6240, 0x6709])]"

definition lang_tk :: langmap where
  "lang_tk =
     [(''flag'', utf8 [0x1F1F9, 0x1F1F2]),
      (''name'', (''T'' @ utf8 [0xFC] @ ''rkmen'')),
      (''nav_home'', (''Ba'' @ utf8 [0x15F] @ '' sahypa'')),
      (''nav_about'', ''Biz hakda''),
      (''nav_services'', ''Hyzmatlar''),
      (''nav_news'', ''Habarlar''),
      (''nav_quote'', ''Teklip al''),
      (''eyebrow_who'', ''Biz kimler''),
      (''eyebrow_offer'', (''N'' @ utf8 [0xE4] @ ''me h'' @ utf8 [0xF6] @ ''d'' @ utf8 [0xFC] @ ''rle'' @ utf8 [0xFD, 0xE4] @ ''ris'')),
      (''eyebrow_updates'', (''So'' @ utf8 [0x148] @ ''ky habarlar'')),
      (''eyebrow_partners'', (''Bize ynan'' @ utf8 [0xFD] @ ''arlar'')),
      (''eyebrow_touch'', (''Habarla'' @ utf8 [0x15F] @ ''y'' @ utf8 [0x148])),
      (''sec_about'', ''Biz hakda''),
      (''sec_services'', ''Hyzmatlarymyz''),
      (''sec_news'', ''Habarlar''),
      (''sec_partners'', (''Esasy hyzmatda'' @ utf8 [0x15F] @ ''lar'')),
      (''cta_title'', (''Biz bilen iberm'' @ utf8 [0xE4] @ ''ge ta'' @ utf8 [0xFD] @ ''ynmy?'')),
      (''cta_sub'', (utf8 [0xD6] @ ''z zerurlyklary'' @ utf8 [0x148] @ ''yza la'' @ utf8 [0xFD] @ ''yk logistika '' @ utf8 [0xE7, 0xF6] @ ''zg'' @ utf8 [0xFC] @ ''di '' @ utf8 [0xFC, 0xE7] @ ''in toparymyz bilen habarla'' @ utf8 [0x15F] @ ''y'' @ utf8 [0x148] @ ''.'')),
      (''cta_btn'', (''Teklip soramak '' @ utf8 [0x2192])),
      (''about_btn'', (''Habarla'' @ utf8 [0x15F] @ ''mak '' @ utf8 [0x2192])),
      (''slide_tag'', ''Global logistika''),
      (''slide_title'', (''Global logistika '' @ utf8 [0xE7, 0xF6] @ ''zg'' @ utf8 [0xFC] @ ''tleri'')),
      (''slide_subtitle'', (utf8 [0xC7] @ ''alt, ynamdar we d'' @ utf8 [0xFC] @ ''n'' @ utf8 [0xFD, 0xE4] @ '' bo'' @ utf8 [0xFD] @ ''un'' @ utf8 [0xE7] @ ''a ynanyl'' @ utf8 [0xFD] @ ''an'')),
      (''slide_btn_text'', (utf8 [0xD6] @ ''wren'')),
      (''footer_services'', ''Hyzmatlar''),
      (''footer_company'', (''Kompani'' @ utf8 [0xFD] @ ''a'')),
      (''footer_team'', ''Topar''),
      (''footer_careers'', (''I'' @ utf8 [0x15F] @ '' orunlary'')),
      (''footer_news'', ''Habarlar''),
      (''footer_contact'', (''Habarla'' @ utf8 [0x15F] @ ''mak'')),
      (''years'', (utf8 [0xDD] @ ''yl'')),
      (''footer_tagline'', (''2001-nji '' @ utf8 [0xFD] @ ''yldan b'' @ utf8 [0xE4] @ ''ri d'' @ utf8 [0xFC] @ ''n'' @ utf8 [0xFD, 0xE4] @ ''ni birikdirip, aja'' @ utf8 [0xFD] @ ''yplygy '' @ utf8 [0xFC] @ ''pj'' @ utf8 [0xFC] @ ''n ed'' @ utf8 [0xFD, 0xE4] @ ''ris.'')),
      (''page_title'', (''NexLog Global '' @ utf8 [0x2014] @ '' Halkara logistika'')),
      (''rights'', (utf8 [0xC4] @ ''hli hukuklar goralan''))]"

definition lang_zh :: langmap where
  "lang_zh =
     [(''flag'', utf8 [0x1F1E8, 0x1F1F3]),
      (''name'', utf8 [0x4E2D, 0x6587]),
      (''nav_home'', utf8 [0x9996, 0x9875]),
      (''nav_about'', utf8 [0x5173, 0x4E8E, 0x6211, 0x4EEC]),
      (''nav_services'', utf8 [0x670D, 0x52A1]),
      (''nav_news'', utf8 [0x65B0, 0x95FB]),
      (''nav_quote'', utf8 [0x83B7, 0x53D6, 0x62A5, 0x4EF7]),
      (''eyebrow_who'', utf8 [0x6211, 0x4EEC, 0x662F, 0x8C01]),
      (''eyebrow_offer'', utf8 [0x6211, 0x4EEC, 0x63D0, 0x4F9B, 0x4EC0, 0x4E48]),
      (''eyebrow_updates'', utf8 [0x6700, 0x65B0, 0x52A8, 0x6001]),
      (''eyebrow_partners'', utf8 [0x5408, 0x4F5C, 0x4F19, 0x4F34]),
      (''eyebrow_touch'', utf8 [0x8054, 0x7CFB, 0x6211, 0x4EEC]),
      (''sec_about'', utf8 [0x5173, 0x4E8E, 0x6211, 0x4EEC]),
      (''sec_services'', utf8 [0x6211, 0x4EEC, 0x7684, 0x670D, 0x52A1]),
      (''sec_news'', utf8 [0x65B0, 0x95FB, 0x8D44, 0x8BAF]),
      (''sec_partners'', utf8 [0x4E3B, 0x8981, 0x5408, 0x4F5C, 0x4F19, 0x4F34]),
      (''cta_title'', utf8 [0x51C6, 0x5907, 0x597D, 0x4E0E, 0x6211, 0x4EEC, 0x5408, 0x4F5C, 0x4E86, 0x5417, 0xFF1F]),
      (''cta_sub'', utf8 [0x8054, 0x7CFB, 0x6211, 0x4EEC, 0x7684, 0x56E2, 0x961F, 0xFF0C, 0x83B7, 0x53D6, 0x4E13, 0x5C5E, 0x7269, 0x6D41, 0x89E3, 0x51B3, 0x65B9, 0x6848, 0x3002]),
      (''cta_btn'', utf8 [0x7533, 0x8BF7, 0x62A5, 0x4EF7, 0x20, 0x2192]),
      (''about_btn'', utf8 [0x8054, 0x7CFB, 0x6211, 0x4EEC, 0x20, 0x2192]),
      (''slide_tag'', utf8 [0x5168, 0x7403, 0x7269, 0x6D41]),
      (''slide_title'', utf8 [0x5168, 0x7403, 0x7269, 0x6D41, 0x89E3, 0x51B3, 0x65B9, 0x6848]),
      (''slide_subtitle'', utf8 [0x5FEB, 0x901F, 0x3001, 0x53EF, 0x9760, 0x3001, 0x503C, 0x5F97, 0x5168, 0x7403, 0x4FE1, 0x8D56]),
      (''slide_btn_text'', utf8 [0x4E86, 0x89E3, 0x66F4, 0x591A]),
      (''footer_services'', utf8 [0x670D, 0x52A1]),
      (''footer_company'', utf8 [0x516C, 0x53F8]),
      (''footer_team'', utf8 [0x56E2, 0x961F]),
      (''footer_careers'', utf8 [0x62DB, 0x8058]),
      (''footer_news'', utf8 [0x65B0, 0x95FB]),
      (''footer_contact'', utf8 [0x8054, 0x7CFB, 0x6211, 0x4EEC]),
      (''years'', utf8 [0x5E74]),
      (''footer_tagline'', utf8 [0x81EA, 0x32, 0x30, 0x30, 0x31, 0x5E74, 0x4EE5, 0x6765, 0x8FDE, 0x63A5, 0x4E16, 0x754C, 0xFF0C, 0x7F14, 0x9020, 0x5353, 0x8D8A, 0x3002]),
      (''page_title'', (''NexLog Global '' @ utf8 [0x2014] @ '' '' @ utf8 [0x56FD, 0x9645, 0x7269, 0x6D41])),
      (''rights'', utf8 [0x7248, 0x6743, 0x6240, 0x6709])]"

definition DefaultLanguages :: "(string \<times> langmap) list" where
  "DefaultLanguages =
     [(''en'', lang_en), (''ru'', lang_ru), (''ja'', lang_ja), (''tk'', lang_tk), (''zh'', lang_zh)]"

end
