(* ===== verification/Service.thy ===== *)
theory Service
  imports RepoSingles RepoLanguages Languages
begin

text \<open>
  \<open>internal/service/service.go\<close>: the seed of the first boot, the migration of missing languages, and
  the delegation to the repository with a time limit for each call.

  A Go \<open>range\<close> loop over a map visits it in an order of its own choosing: the seed and the migration
  take the languages in the order of the iteration as an argument \<open>langs\<close>. The hash that
  \<open>bcrypt.GenerateFromPassword\<close> returns for the default password is an argument too (\<open>None\<close> when it
  fails; the code drops that error and goes on with the empty string).
\<close>

section \<open>Delegation with a time limit\<close>

definition dbTimeout :: int where
  "dbTimeout = 8 * 10 ^ 9"

definition Svc_GetSite :: "server \<Rightarrow> (Site \<times> goerr option) \<times> server" where
  "Svc_GetSite = with_timeout dbTimeout GetSite"

definition Svc_GetHeroSlides :: "server \<Rightarrow> (HeroSlide list option \<times> goerr option) \<times> server" where
  "Svc_GetHeroSlides = with_timeout dbTimeout GetHeroSlides"

definition Svc_GetStats :: "server \<Rightarrow> (Stat list option \<times> goerr option) \<times> server" where
  "Svc_GetStats = with_timeout dbTimeout GetStats"

definition Svc_GetAbout :: "server \<Rightarrow> (About \<times> goerr option) \<times> server" where
  "Svc_GetAbout = with_timeout dbTimeout GetAbout"

definition Svc_GetServices :: "server \<Rightarrow> (Service list option \<times> goerr option) \<times> server" where
  "Svc_GetServices = with_timeout dbTimeout GetServices"

definition Svc_GetNews :: "server \<Rightarrow> (NewsItem list option \<times> goerr option) \<times> server" where
  "Svc_GetNews = with_timeout dbTimeout GetNews"

definition Svc_GetPartners :: "server \<Rightarrow> (Partner list option \<times> goerr option) \<times> server" where
  "Svc_GetPartners = with_timeout dbTimeout GetPartners"

definition Svc_GetContact :: "server \<Rightarrow> (Contact \<times> goerr option) \<times> server" where
  "Svc_GetContact = with_timeout dbTimeout GetContact"

definition Svc_GetLanguages :: "server \<Rightarrow> (gomap option \<times> goerr option) \<times> server" where
  "Svc_GetLanguages = with_timeout dbTimeout GetLanguages"

definition Svc_GetSidePanel :: "server \<Rightarrow> (gomap option \<times> goerr option) \<times> server" where
  "Svc_GetSidePanel = with_timeout dbTimeout GetSidePanel"

definition Svc_GetAdminPasswordHash :: "server \<Rightarrow> (string \<times> goerr option) \<times> server" where
  "Svc_GetAdminPasswordHash = with_timeout dbTimeout GetAdminPasswordHash"

definition Svc_UpdateSite :: "Site \<Rightarrow> server \<Rightarrow> goerr option \<times> server" where
  "Svc_UpdateSite v = with_timeout dbTimeout (UpdateSite v)"

definition Svc_UpdateHeroSlides :: "HeroSlide list option \<Rightarrow> server \<Rightarrow> goerr option \<times> server" where
  "Svc_UpdateHeroSlides v = with_timeout dbTimeout (UpdateHeroSlides v)"

definition Svc_UpdateStats :: "Stat list option \<Rightarrow> server \<Rightarrow> goerr option \<times> server" where
  "Svc_UpdateStats v = with_timeout dbTimeout (UpdateStats v)"

definition Svc_UpdateAbout :: "About \<Rightarrow> server \<Rightarrow> goerr option \<times> server" where
  "Svc_UpdateAbout v = with_timeout dbTimeout (UpdateAbout v)"

definition Svc_UpdateServices :: "Service list option \<Rightarrow> server \<Rightarrow> goerr option \<times> server" where
  "Svc_UpdateServices v = with_timeout dbTimeout (UpdateServices v)"

definition Svc_UpdateNews :: "NewsItem list option \<Rightarrow> server \<Rightarrow> goerr option \<times> server" where
  "Svc_UpdateNews v = with_timeout dbTimeout (UpdateNews v)"

definition Svc_UpdatePartners :: "Partner list option \<Rightarrow> server \<Rightarrow> goerr option \<times> server" where
  "Svc_UpdatePartners v = with_timeout dbTimeout (UpdatePartners v)"

definition Svc_UpdateContact :: "Contact \<Rightarrow> server \<Rightarrow> goerr option \<times> server" where
  "Svc_UpdateContact v = with_timeout dbTimeout (UpdateContact v)"

definition Svc_UpdateLanguages :: "gomap option \<Rightarrow> server \<Rightarrow> goerr option \<times> server" where
  "Svc_UpdateLanguages v = with_timeout dbTimeout (UpdateLanguages v)"

definition Svc_UpdateSidePanel :: "gomap option \<Rightarrow> server \<Rightarrow> goerr option \<times> server" where
  "Svc_UpdateSidePanel v = with_timeout dbTimeout (UpdateSidePanel v)"

definition Svc_UpdateAdminPassword :: "string \<Rightarrow> server \<Rightarrow> goerr option \<times> server" where
  "Svc_UpdateAdminPassword h = with_timeout dbTimeout (UpdateAdminPassword h)"

section \<open>Languages\<close>

text \<open>The row of a default language: \<open>flag\<close> and \<open>name\<close> in columns, the rest as \<open>jsonb\<close>.\<close>

definition lang_text :: "langmap \<Rightarrow> string \<Rightarrow> string" where
  "lang_text m k = (case map_of m k of Some v \<Rightarrow> v | None \<Rightarrow> [])"

definition lang_json :: "langmap \<Rightarrow> json" where
  "lang_json m =
     JObj (map (\<lambda>(k, v). (k, JStr v)) (filter (\<lambda>p. fst p \<noteq> ''flag'' \<and> fst p \<noteq> ''name'') m))"

definition default_lang_vals :: "string \<Rightarrow> langmap \<Rightarrow> sqlrow" where
  "default_lang_vals code m =
     [(''code'', VText code), (''data'', VJson (lang_json m)),
      (''flag'', VText (lang_text m ''flag'')), (''name'', VText (lang_text m ''name''))]"

text \<open>
  \<open>MigrateLanguages\<close>: the error of the count is dropped, so a count that fails reads as 0 and the insert
  is tried; the insert does nothing on a conflict, and its error is dropped as well.
\<close>

fun MigrateLanguages :: "(string \<times> langmap) list \<Rightarrow> server \<Rightarrow> server" where
  "MigrateLanguages [] s = s"
| "MigrateLanguages ((code, lang) # ls) s =
     (let (r, s1) = db_count ''languages'' (Some (''code'', VText code)) s;
          found = (case r of Inl e \<Rightarrow> 0 | Inr n \<Rightarrow> n)
      in if 0 < found then MigrateLanguages ls s1
         else let (e, s2) = db_exec (Insert ''languages'' (default_lang_vals code lang) True) s1
              in MigrateLanguages ls s2)"

section \<open>The seed\<close>

definition seed_stats :: "Stat list" where
  "seed_stats =
     [\<lparr>st_icon = utf8 [0x1F69B], st_value = ''150+'', st_label = ''Countries Served''\<rparr>,
      \<lparr>st_icon = utf8 [0x1F4E6], st_value = ''50K+'', st_label = ''Shipments/Month''\<rparr>,
      \<lparr>st_icon = utf8 [0x1F465], st_value = ''200+'', st_label = ''Team Members''\<rparr>,
      \<lparr>st_icon = utf8 [0x2B50], st_value = ''98%'', st_label = ''Client Satisfaction''\<rparr>,
      \<lparr>st_icon = utf8 [0x1F3C6], st_value = ''20+'', st_label = ''Years Experience''\<rparr>]"

definition seed_slide :: HeroSlide where
  "seed_slide =
     \<lparr>hs_title = ''Global Logistics Solutions'', hs_subtitle = ''Fast, Reliable & Trusted Worldwide'',
      hs_image = ''/uploads/placeholder.jpg'', hs_buttonText = ''Explore'', hs_buttonLink = ''#contact''\<rparr>"

definition seed_site :: Site where
  "seed_site =
     \<lparr>site_companyName = ''NexLog Global'',
      site_tagline = ''Connecting the World, Delivering Excellence''\<rparr>"

definition seed_about :: About where
  "seed_about =
     \<lparr>ab_title = ''About Us'',
      ab_description = ''We are a leading global logistics provider with over 20 years of experience connecting businesses worldwide with fast, reliable shipping solutions.'',
      ab_image = ''/uploads/placeholder.jpg''\<rparr>"

definition seed_contact :: Contact where
  "seed_contact =
     \<lparr>co_address = ''123 Logistics St, Global City'', co_phone = ''+1234567890'',
      co_email = ''hello@nexlog.com'', co_whatsapp = ''+1234567890''\<rparr>"

definition seed_panel :: json where
  "seed_panel =
     JObj [(''enabled'', JBool True), (''position'', JStr ''right''), (''label'', JStr ''Contact Us''),
       (''color'', JStr ''#C9922A''),
       (''channels'', JArr
         [JObj [(''type'', JStr ''phone''), (''label'', JStr ''Phone''), (''icon'', JStr (utf8 [0x1F4DE])),
            (''linkPrefix'', JStr ''tel:''), (''value'', JStr ''+1234567890''), (''enabled'', JBool True)],
          JObj [(''type'', JStr ''whatsapp''), (''label'', JStr ''WhatsApp''),
            (''icon'', JStr (utf8 [0x1F4AC])), (''linkPrefix'', JStr ''https://wa.me/''),
            (''value'', JStr ''1234567890''), (''enabled'', JBool True)]])]"

text \<open>The inserts of the seed, in the order of the code.\<close>

definition insert_id1 :: "string \<Rightarrow> sqlrow \<Rightarrow> stmt" where
  "insert_id1 t vs = Insert t ((''id'', VInt 1) # vs) False"

definition seed_stmts :: "string \<Rightarrow> (string \<times> langmap) list \<Rightarrow> stmt list" where
  "seed_stmts hash langs =
     [insert_id1 ''site'' (vals_Site seed_site),
      insert_id1 ''admin_password'' [(''hash'', VText hash)]] @
     list_inserts ''hero_slides'' 0 [vals_HeroSlide seed_slide] @
     list_inserts ''stats'' 0 (map vals_Stat seed_stats) @
     [insert_id1 ''about'' (vals_About seed_about),
      insert_id1 ''contact'' (vals_Contact seed_contact)] @
     map (\<lambda>(code, lang). Insert ''languages'' (default_lang_vals code lang) False) langs @
     [insert_id1 ''sidepanel'' [(''config'', VJson seed_panel)]]"

text \<open>
  \<open>SeedIfEmpty\<close>: a database with a site is only given the missing languages; otherwise everything is
  inserted in one transaction whose statement errors are dropped, and the error of the commit is
  returned as \<open>seed: ...\<close>.
\<close>

definition SeedIfEmpty ::
  "string option \<Rightarrow> (string \<times> langmap) list \<Rightarrow> server \<Rightarrow> goerr option \<times> server" where
  "SeedIfEmpty gen langs s =
     (case db_count ''site'' None s of
        (Inl e, s1) \<Rightarrow> (Some e, s1)
      | (Inr found, s1) \<Rightarrow>
          if 0 < found then (None, MigrateLanguages langs s1)
          else case db_begin s1 of
            (Inl e, s2) \<Rightarrow> (Some e, s2)
          | (Inr t, s2) \<Rightarrow>
              (let hash = (case gen of None \<Rightarrow> [] | Some h \<Rightarrow> h);
                   (t1, s3) = tx_exec_all (seed_stmts hash langs) t s2;
                   (e, s4) = tx_commit t1 s3
               in (map_option (ErrWrap ''seed'') e, s4)))"

end
