(* ===== verification/Handlers.thy ===== *)
theory Handlers
  imports Middleware Service
begin

text \<open>
  \<open>internal/handlers/handlers.go\<close>: the handlers of the API. What is not code of the repository is in the
  record \<open>env\<close>: the hash functions, bcrypt, the parser of multipart forms, the file server of the
  standard library and \<open>os.Stat\<close>. The fields of \<open>Handler\<close> are in \<open>env\<close> too (\<open>jwtSecret\<close>,
  \<open>uploadDir\<close>), or in the state of the program (\<open>svc\<close>, \<open>cache\<close>).
\<close>

section \<open>The environment\<close>

text \<open>What \<open>ParseMultipartForm\<close> and \<open>FormFile("image")\<close> give: an error, no file, or its name and bytes.\<close>

datatype form = FormError | FormNoFile | FormFile string string

text \<open>
  \<open>e_bcrypt salt password\<close> is \<open>bcrypt.GenerateFromPassword\<close> with the salt it draws (\<open>None\<close> on error);
  \<open>e_compare hash password\<close> says that \<open>bcrypt.CompareHashAndPassword\<close> returns no error;
  \<open>e_form headers body cut\<close> parses a form, where \<open>cut\<close> says that the body ends with the error of
  \<open>MaxBytesReader\<close>; \<open>e_serve_file\<close>, \<open>e_file_server\<close> (of a directory, given the uploaded files) and
  \<open>e_redirect\<close> (with status 301) are what \<open>http.ServeFile\<close>, \<open>http.FileServer\<close> and
  \<open>http.RedirectHandler\<close> write; \<open>e_stat\<close> says that \<open>os.Stat\<close> finds a file.
\<close>

record env =
  e_mac :: mac
  e_bcrypt :: "nat \<Rightarrow> string \<Rightarrow> string option"
  e_compare :: "string \<Rightarrow> string \<Rightarrow> bool"
  e_form :: "header \<Rightarrow> string \<Rightarrow> bool \<Rightarrow> form"
  e_serve_file :: "string \<Rightarrow> request \<Rightarrow> writer \<Rightarrow> writer"
  e_file_server :: "string \<Rightarrow> (string \<rightharpoonup> string) \<Rightarrow> request \<Rightarrow> writer \<Rightarrow> writer"
  e_redirect :: "string \<Rightarrow> request \<Rightarrow> writer \<Rightarrow> writer"
  e_stat :: "string \<Rightarrow> bool"
  e_secret :: string
  e_uploadDir :: string

section \<open>JSON of the models\<close>

definition json_Site :: "Site \<Rightarrow> json" where
  "json_Site v =
     JObj [(''companyName'', JStr (site_companyName v)), (''tagline'', JStr (site_tagline v))]"

definition json_HeroSlide :: "HeroSlide \<Rightarrow> json" where
  "json_HeroSlide v =
     JObj [(''title'', JStr (hs_title v)), (''subtitle'', JStr (hs_subtitle v)),
       (''image'', JStr (hs_image v)), (''buttonText'', JStr (hs_buttonText v)),
       (''buttonLink'', JStr (hs_buttonLink v))]"

definition json_Stat :: "Stat \<Rightarrow> json" where
  "json_Stat v =
     JObj [(''icon'', JStr (st_icon v)), (''value'', JStr (st_value v)), (''label'', JStr (st_label v))]"

definition json_About :: "About \<Rightarrow> json" where
  "json_About v =
     JObj [(''title'', JStr (ab_title v)), (''description'', JStr (ab_description v)),
       (''image'', JStr (ab_image v))]"

definition json_Service :: "Service \<Rightarrow> json" where
  "json_Service v =
     JObj [(''title'', JStr (sv_title v)), (''description'', JStr (sv_description v)),
       (''icon'', JStr (sv_icon v)), (''image'', JStr (sv_image v))]"

definition json_NewsItem :: "NewsItem \<Rightarrow> json" where
  "json_NewsItem v =
     JObj [(''title'', JStr (nw_title v)), (''date'', JStr (nw_date v)),
       (''excerpt'', JStr (nw_excerpt v)), (''image'', JStr (nw_image v))]"

definition json_Partner :: "Partner \<Rightarrow> json" where
  "json_Partner v = JObj [(''name'', JStr (pa_name v)), (''logo'', JStr (pa_logo v))]"

definition json_Contact :: "Contact \<Rightarrow> json" where
  "json_Contact v =
     JObj [(''address'', JStr (co_address v)), (''phone'', JStr (co_phone v)),
       (''email'', JStr (co_email v)), (''whatsapp'', JStr (co_whatsapp v))]"

definition fields_Site :: "Site field list" where
  "fields_Site =
     [string_field ''companyName'' site_companyName site_companyName_update,
      string_field ''tagline'' site_tagline site_tagline_update]"

definition fields_HeroSlide :: "HeroSlide field list" where
  "fields_HeroSlide =
     [string_field ''title'' hs_title hs_title_update,
      string_field ''subtitle'' hs_subtitle hs_subtitle_update,
      string_field ''image'' hs_image hs_image_update,
      string_field ''buttonText'' hs_buttonText hs_buttonText_update,
      string_field ''buttonLink'' hs_buttonLink hs_buttonLink_update]"

definition fields_Stat :: "Stat field list" where
  "fields_Stat =
     [string_field ''icon'' st_icon st_icon_update, string_field ''value'' st_value st_value_update,
      string_field ''label'' st_label st_label_update]"

definition fields_About :: "About field list" where
  "fields_About =
     [string_field ''title'' ab_title ab_title_update,
      string_field ''description'' ab_description ab_description_update,
      string_field ''image'' ab_image ab_image_update]"

definition fields_Service :: "Service field list" where
  "fields_Service =
     [string_field ''title'' sv_title sv_title_update,
      string_field ''description'' sv_description sv_description_update,
      string_field ''icon'' sv_icon sv_icon_update, string_field ''image'' sv_image sv_image_update]"

definition fields_NewsItem :: "NewsItem field list" where
  "fields_NewsItem =
     [string_field ''title'' nw_title nw_title_update, string_field ''date'' nw_date nw_date_update,
      string_field ''excerpt'' nw_excerpt nw_excerpt_update,
      string_field ''image'' nw_image nw_image_update]"

definition fields_Partner :: "Partner field list" where
  "fields_Partner =
     [string_field ''name'' pa_name pa_name_update, string_field ''logo'' pa_logo pa_logo_update]"

definition fields_Contact :: "Contact field list" where
  "fields_Contact =
     [string_field ''address'' co_address co_address_update,
      string_field ''phone'' co_phone co_phone_update, string_field ''email'' co_email co_email_update,
      string_field ''whatsapp'' co_whatsapp co_whatsapp_update]"

section \<open>Helpers\<close>

definition writeJSON :: "writer \<Rightarrow> nat \<Rightarrow> json \<Rightarrow> writer" where
  "writeJSON w code v =
     write_chunk (JsonOut v)
       (write_header code (set_header ''Content-Type'' ''application/json; charset=utf-8'' w))"

definition json_error :: "string \<Rightarrow> json" where
  "json_error m = JObj [(''error'', JStr m)]"

text \<open>
  \<open>readBody\<close> with what the caller's value becomes and whether an error is returned: the first JSON value
  of the first MiB; after a syntax error the value is as it was.
\<close>

definition body_limit :: nat where
  "body_limit = 2 ^ 20"

definition readBody :: "(json \<Rightarrow> 'a \<Rightarrow> 'a \<times> bool) \<Rightarrow> request \<Rightarrow> 'a \<Rightarrow> 'a \<times> bool" where
  "readBody dec r v =
     (case json_first (take body_limit (req_body r)) of None \<Rightarrow> (v, True) | Some j \<Rightarrow> dec j v)"

definition method_not_allowed :: "writer \<Rightarrow> writer" where
  "method_not_allowed w = writeJSON w 405 (json_error ''method not allowed'')"

text \<open>Running a function of the service on the database connection of the program.\<close>

definition with_srv :: "(server \<Rightarrow> 'r \<times> server) \<Rightarrow> 'l world \<Rightarrow> 'r \<times> 'l world" where
  "with_srv f \<sigma> = (case f (wd_srv \<sigma>) of (x, s) \<Rightarrow> (x, \<sigma>\<lparr>wd_srv := s\<rparr>))"

definition put_cache :: "string \<Rightarrow> json \<Rightarrow> 'l world \<Rightarrow> 'l world" where
  "put_cache k v \<sigma> = \<sigma>\<lparr>wd_cache := cache_set (wd_now \<sigma>) k v (wd_cache \<sigma>)\<rparr>"

section \<open>Public handlers\<close>

definition content_payload ::
  "Site \<Rightarrow> HeroSlide list option \<Rightarrow> Stat list option \<Rightarrow> About \<Rightarrow> Service list option
     \<Rightarrow> NewsItem list option \<Rightarrow> Partner list option \<Rightarrow> Contact \<Rightarrow> json" where
  "content_payload site slides stats about services news partners contact =
     JObj [(''site'', json_Site site),
       (''hero'', JObj [(''slides'', json_of_slice json_HeroSlide slides)]),
       (''stats'', json_of_slice json_Stat stats), (''about'', json_About about),
       (''services'', json_of_slice json_Service services),
       (''news'', json_of_slice json_NewsItem news),
       (''partners'', json_of_slice json_Partner partners), (''contact'', json_Contact contact)]"

text \<open>The eight reads of \<open>Content\<close>, whose errors are dropped.\<close>

definition read_content :: "server \<Rightarrow> json \<times> server" where
  "read_content s0 =
     (let ((site, e1), s1) = Svc_GetSite s0;
          ((slides, e2), s2) = Svc_GetHeroSlides s1;
          ((stats, e3), s3) = Svc_GetStats s2;
          ((about, e4), s4) = Svc_GetAbout s3;
          ((services, e5), s5) = Svc_GetServices s4;
          ((news, e6), s6) = Svc_GetNews s5;
          ((partners, e7), s7) = Svc_GetPartners s6;
          ((contact, e8), s8) = Svc_GetContact s7
      in (content_payload site slides stats about services news partners contact, s8))"

definition Content :: "'l world handler" where
  "Content r w \<sigma> =
     (if req_method r \<noteq> ''GET'' then (method_not_allowed w, \<sigma>)
      else case cache_get (wd_now \<sigma>) ''content'' (wd_cache \<sigma>) of
        Some v \<Rightarrow> (writeJSON w 200 v, \<sigma>)
      | None \<Rightarrow>
          (let (payload, \<sigma>1) = with_srv read_content \<sigma>
           in (writeJSON w 200 payload, put_cache ''content'' payload \<sigma>1)))"

definition Languages :: "'l world handler" where
  "Languages r w \<sigma> =
     (if req_method r \<noteq> ''GET'' then (method_not_allowed w, \<sigma>)
      else case cache_get (wd_now \<sigma>) ''languages'' (wd_cache \<sigma>) of
        Some v \<Rightarrow> (writeJSON w 200 v, \<sigma>)
      | None \<Rightarrow>
          (case with_srv Svc_GetLanguages \<sigma> of
             ((langs, Some e), \<sigma>1) \<Rightarrow> (writeJSON w 500 (json_error (err_text e)), \<sigma>1)
           | ((langs, None), \<sigma>1) \<Rightarrow>
               (writeJSON w 200 (json_of_map langs), put_cache ''languages'' (json_of_map langs) \<sigma>1)))"

definition SidePanel :: "'l world handler" where
  "SidePanel r w \<sigma> =
     (if req_method r \<noteq> ''GET'' then (method_not_allowed w, \<sigma>)
      else case cache_get (wd_now \<sigma>) ''sidepanel'' (wd_cache \<sigma>) of
        Some v \<Rightarrow> (writeJSON w 200 v, \<sigma>)
      | None \<Rightarrow>
          (case with_srv Svc_GetSidePanel \<sigma> of
             ((cfg, Some e), \<sigma>1) \<Rightarrow> (writeJSON w 500 (json_error (err_text e)), \<sigma>1)
           | ((cfg, None), \<sigma>1) \<Rightarrow>
               (writeJSON w 200 (json_of_map cfg), put_cache ''sidepanel'' (json_of_map cfg) \<sigma>1)))"

section \<open>Health\<close>

text \<open>
  \<open>time.RFC3339\<close> of a time in UTC (of a year from 0 to 9999): the date of a day counted from
  1970-01-01, by eras of 400 years that begin on the first of March.
\<close>

definition civil_date :: "int \<Rightarrow> int \<times> int \<times> int" where
  "civil_date day =
     (let z = day + 719468;
          era = z div 146097;
          doe = z mod 146097;
          yoe = (doe - doe div 1460 + doe div 36524 - doe div 146096) div 365;
          doy = doe - (365 * yoe + yoe div 4 - yoe div 100);
          mp = (5 * doy + 2) div 153;
          d = doy - (153 * mp + 2) div 5 + 1;
          m = (if mp < 10 then mp + 3 else mp - 9)
      in (yoe + era * 400 + (if m \<le> 2 then 1 else 0), m, d))"

definition pad :: "nat \<Rightarrow> int \<Rightarrow> string" where
  "pad k n = (let s = show_int n in replicate (k - length s) (CHR ''0'') @ s)"

definition rfc3339 :: "int \<Rightarrow> string" where
  "rfc3339 secs =
     (let (y, m, d) = civil_date (secs div 86400); t = secs mod 86400
      in pad 4 y @ ''-'' @ pad 2 m @ ''-'' @ pad 2 d @ ''T'' @ pad 2 (t div 3600) @ '':'' @
         pad 2 (t div 60 mod 60) @ '':'' @ pad 2 (t mod 60) @ ''Z'')"

definition Health :: "'l world handler" where
  "Health r w \<sigma> =
     (writeJSON w 200 (JObj [(''status'', JStr ''ok''), (''time'', JStr (rfc3339 (unix (wd_now \<sigma>))))]), \<sigma>)"

section \<open>Login and password\<close>

text \<open>The bodies are structs with one string.\<close>

definition decode_body :: "string \<Rightarrow> json \<Rightarrow> string \<Rightarrow> string \<times> bool" where
  "decode_body name = decode_struct [(name, decode_string)]"

definition sleep :: "int \<Rightarrow> 'l world \<Rightarrow> 'l world" where
  "sleep d \<sigma> = \<sigma>\<lparr>wd_srv := (wd_srv \<sigma>)\<lparr>clock := wd_now \<sigma> + d\<rparr>\<rparr>"

definition Login :: "env \<Rightarrow> 'l world handler" where
  "Login env r w \<sigma> =
     (if req_method r \<noteq> ''POST'' then (method_not_allowed w, \<sigma>)
      else case readBody (decode_body ''password'') r [] of
        (password, True) \<Rightarrow> (writeJSON w 400 (json_error ''bad request''), \<sigma>)
      | (password, False) \<Rightarrow>
          (let ((hash, err), \<sigma>1) = with_srv Svc_GetAdminPasswordHash \<sigma> in
           if err \<noteq> None \<or> \<not> e_compare env hash password
           then (writeJSON w 401 (json_error ''Invalid password''), sleep (300 * 10 ^ 6) \<sigma>1)
           else (writeJSON w 200
                   (JObj [(''token'', JStr (login_token (e_mac env) (e_secret env) (wd_now \<sigma>1)))]), \<sigma>1)))"

definition next_random :: "'l world \<Rightarrow> nat \<times> 'l world" where
  "next_random \<sigma> =
     ((case wd_random \<sigma> of [] \<Rightarrow> 0 | n # _ \<Rightarrow> n), \<sigma>\<lparr>wd_random := tl (wd_random \<sigma>)\<rparr>)"

definition json_success :: json where
  "json_success = JObj [(''success'', JStr ''true'')]"

definition ChangePassword :: "env \<Rightarrow> 'l world handler" where
  "ChangePassword env r w \<sigma> =
     (if req_method r \<noteq> ''POST'' then (method_not_allowed w, \<sigma>)
      else
        (let (newPassword, err) = readBody (decode_body ''newPassword'') r [] in
         if err \<or> length newPassword < 6
         then (writeJSON w 400 (json_error ''Password must be at least 6 characters''), \<sigma>)
         else
           (let (salt, \<sigma>1) = next_random \<sigma>;
                hash = (case e_bcrypt env salt newPassword of None \<Rightarrow> [] | Some h \<Rightarrow> h);
                (e, \<sigma>2) = with_srv (Svc_UpdateAdminPassword hash) \<sigma>1
            in (writeJSON w 200 json_success, \<sigma>2))))"

section \<open>Upload\<close>

definition upload_limit :: nat where
  "upload_limit = 5 * 2 ^ 20"

definition allowed_exts :: "string list" where
  "allowed_exts = [''.jpg'', ''.jpeg'', ''.png'', ''.gif'', ''.webp'', ''.svg'']"

definition next_disk :: "'l world \<Rightarrow> disk_step \<times> 'l world" where
  "next_disk \<sigma> =
     ((case wd_disk \<sigma> of [] \<Rightarrow> DiskOk | d # _ \<Rightarrow> d), \<sigma>\<lparr>wd_disk := tl (wd_disk \<sigma>)\<rparr>)"

definition upload_name :: "int \<Rightarrow> nat \<Rightarrow> string \<Rightarrow> string" where
  "upload_name t n ext = show_int (t div 10 ^ 6) @ ''-'' @ show_nat (n mod 10 ^ 9) @ ext"

definition put_file :: "string \<Rightarrow> string \<Rightarrow> 'l world \<Rightarrow> 'l world" where
  "put_file name bytes \<sigma> = \<sigma>\<lparr>wd_files := (wd_files \<sigma>)(name \<mapsto> bytes)\<rparr>"

text \<open>
  \<open>os.MkdirAll\<close>, \<open>os.Create\<close> and \<open>io.Copy\<close> are three steps of the disk; the error of the copy is
  dropped, so a file may be stored in part.
\<close>

definition save_upload :: "string \<Rightarrow> string \<Rightarrow> writer \<Rightarrow> 'l world \<Rightarrow> writer \<times> 'l world" where
  "save_upload ext bytes w \<sigma> =
     (case next_disk \<sigma> of
        (DiskFail, \<sigma>1) \<Rightarrow> (writeJSON w 500 (json_error ''Cannot create upload dir''), \<sigma>1)
      | (_, \<sigma>1) \<Rightarrow>
          (let (n, \<sigma>2) = next_random \<sigma>1;
               filename = upload_name (wd_now \<sigma>2) n ext
           in case next_disk \<sigma>2 of
                (DiskFail, \<sigma>3) \<Rightarrow> (writeJSON w 500 (json_error ''Cannot save file''), \<sigma>3)
              | (_, \<sigma>3) \<Rightarrow>
                  (let (d, \<sigma>4) = next_disk \<sigma>3;
                       stored = (case d of DiskOk \<Rightarrow> bytes | DiskFail \<Rightarrow> [] | DiskShort k \<Rightarrow> take k bytes)
                   in (writeJSON w 200 (JObj [(''url'', JStr (''/uploads/'' @ filename))]),
                       put_file filename stored \<sigma>4))))"

definition Upload :: "env \<Rightarrow> 'l world handler" where
  "Upload env r w \<sigma> =
     (if req_method r \<noteq> ''POST'' then (method_not_allowed w, \<sigma>)
      else case e_form env (req_headers r) (take upload_limit (req_body r))
                  (upload_limit < length (req_body r)) of
        FormError \<Rightarrow> (writeJSON w 400 (json_error ''File too large (max 5MB)''), \<sigma>)
      | FormNoFile \<Rightarrow> (writeJSON w 400 (json_error ''No file uploaded''), \<sigma>)
      | FormFile name bytes \<Rightarrow>
          (let ext = to_lower (file_ext name) in
           if ext \<notin> set allowed_exts then (writeJSON w 400 (json_error ''Invalid file type''), \<sigma>)
           else save_upload ext bytes w \<sigma>))"

section \<open>Admin handlers\<close>

definition adminPUT ::
  "(server \<Rightarrow> goerr option \<times> server) \<Rightarrow> request \<Rightarrow> writer \<Rightarrow> 'l world \<Rightarrow> writer \<times> 'l world" where
  "adminPUT fn r w \<sigma> =
     (if req_method r \<noteq> ''PUT'' then (method_not_allowed w, \<sigma>)
      else case with_srv fn \<sigma> of
        (Some e, \<sigma>1) \<Rightarrow> (writeJSON w 500 (json_error (err_text e)), \<sigma>1)
      | (None, \<sigma>1) \<Rightarrow>
          (writeJSON w 200 json_success, \<sigma>1\<lparr>wd_cache := cache_flush (wd_cache \<sigma>1)\<rparr>))"

text \<open>The body of an admin request as the value it leaves; the error of \<open>readBody\<close> is dropped.\<close>

definition body_value :: "(json \<Rightarrow> 'a \<Rightarrow> 'a \<times> bool) \<Rightarrow> request \<Rightarrow> 'a \<Rightarrow> 'a" where
  "body_value dec r v = fst (readBody dec r v)"

definition AdminSite :: "'l world handler" where
  "AdminSite r = adminPUT (Svc_UpdateSite (body_value (decode_struct fields_Site) r zero_Site)) r"

definition decode_slides :: "json \<Rightarrow> HeroSlide list option \<Rightarrow> HeroSlide list option \<times> bool" where
  "decode_slides =
     decode_struct [(''slides'', decode_slice (decode_struct fields_HeroSlide) zero_HeroSlide)]"

definition AdminHero :: "'l world handler" where
  "AdminHero r = adminPUT (Svc_UpdateHeroSlides (body_value decode_slides r None)) r"

definition AdminStats :: "'l world handler" where
  "AdminStats r =
     adminPUT (Svc_UpdateStats (body_value (decode_slice (decode_struct fields_Stat) zero_Stat) r None)) r"

definition AdminAbout :: "'l world handler" where
  "AdminAbout r = adminPUT (Svc_UpdateAbout (body_value (decode_struct fields_About) r zero_About)) r"

definition AdminServices :: "'l world handler" where
  "AdminServices r =
     adminPUT (Svc_UpdateServices
       (body_value (decode_slice (decode_struct fields_Service) zero_Service) r None)) r"

definition AdminNews :: "'l world handler" where
  "AdminNews r =
     adminPUT (Svc_UpdateNews
       (body_value (decode_slice (decode_struct fields_NewsItem) zero_NewsItem) r None)) r"

definition AdminPartners :: "'l world handler" where
  "AdminPartners r =
     adminPUT (Svc_UpdatePartners
       (body_value (decode_slice (decode_struct fields_Partner) zero_Partner) r None)) r"

definition AdminContact :: "'l world handler" where
  "AdminContact r =
     adminPUT (Svc_UpdateContact (body_value (decode_struct fields_Contact) r zero_Contact)) r"

definition AdminLanguages :: "'l world handler" where
  "AdminLanguages r = adminPUT (Svc_UpdateLanguages (body_value decode_map r None)) r"

definition AdminSidePanel :: "'l world handler" where
  "AdminSidePanel r = adminPUT (Svc_UpdateSidePanel (body_value decode_map r None)) r"

end
