(* ===== verification/Router.thy ===== *)
theory Router
  imports Handlers Paths
begin

text \<open>
  The routes of \<open>Handler.RegisterRoutes\<close>, the \<open>http.ServeMux\<close> of Go 1.22 for patterns of this shape
  (literal paths and subtrees, no methods, no hosts), and the middleware stack of \<open>cmd/server/main.go\<close>.
\<close>

section \<open>Paths\<close>

fun url_unescape :: "string \<Rightarrow> string option" where
  "url_unescape [] = Some []"
| "url_unescape (c # s) =
     (if c = CHR ''%'' then
        (case s of
           a # b # t \<Rightarrow>
             (case (hex_val a, hex_val b) of
                (Some x, Some y) \<Rightarrow> map_option (Cons (char_of (16 * x + y))) (url_unescape t)
              | _ \<Rightarrow> None)
         | _ \<Rightarrow> None)
      else map_option (Cons c) (url_unescape s))"

text \<open>The \<open>cleanPath\<close> of the mux keeps a trailing slash.\<close>

definition clean_path :: "string \<Rightarrow> string" where
  "clean_path p0 =
     (let p = (if p0 = [] \<or> hd p0 \<noteq> CHR ''/'' then CHR ''/'' # p0 else p0);
          np = go_clean p
      in if last p = CHR ''/'' \<and> np \<noteq> ''/'' then np @ ''/'' else np)"

section \<open>Routes\<close>

datatype route =
    RtHealth | RtContent | RtLanguages | RtSidePanel | RtLogin
  | RtChangePassword | RtUpload | RtSite | RtHero | RtStats | RtAbout | RtServices | RtNews
  | RtPartners | RtContact | RtAdminLanguages | RtAdminSidePanel
  | RtUploads | RtAdminPage | RtFallback

definition exact_routes :: "(string list \<times> route) list" where
  "exact_routes =
     [([''health''], RtHealth),
      ([''api'', ''content''], RtContent),
      ([''api'', ''languages''], RtLanguages),
      ([''api'', ''sidepanel''], RtSidePanel),
      ([''api'', ''admin'', ''login''], RtLogin),
      ([''api'', ''admin'', ''change-password''], RtChangePassword),
      ([''api'', ''admin'', ''upload''], RtUpload),
      ([''api'', ''admin'', ''site''], RtSite),
      ([''api'', ''admin'', ''hero''], RtHero),
      ([''api'', ''admin'', ''stats''], RtStats),
      ([''api'', ''admin'', ''about''], RtAbout),
      ([''api'', ''admin'', ''services''], RtServices),
      ([''api'', ''admin'', ''news''], RtNews),
      ([''api'', ''admin'', ''partners''], RtPartners),
      ([''api'', ''admin'', ''contact''], RtContact),
      ([''api'', ''admin'', ''languages''], RtAdminLanguages),
      ([''api'', ''admin'', ''sidepanel''], RtAdminSidePanel),
      ([''admin''], RtAdminPage)]"

text \<open>
  The segments of an escaped path, each decoded (a segment that cannot be decoded stays as it is).
\<close>

definition path_segments :: "string \<Rightarrow> string list" where
  "path_segments p =
     map (\<lambda>s. case url_unescape s of None \<Rightarrow> s | Some t \<Rightarrow> t) (split_on CHR ''/'' (tl p))"

definition match_route :: "string \<Rightarrow> route" where
  "match_route p =
     (let segs = path_segments p in
      case map_of exact_routes segs of
        Some rt \<Rightarrow> rt
      | None \<Rightarrow>
          if 2 \<le> length segs \<and> hd segs = ''uploads'' then RtUploads
          else if 2 \<le> length segs \<and> hd segs = ''admin'' then RtAdminPage
          else RtFallback)"

definition needs_auth :: "route \<Rightarrow> bool" where
  "needs_auth rt \<longleftrightarrow>
     rt \<in> {RtChangePassword, RtUpload, RtSite, RtHero, RtStats, RtAbout, RtServices, RtNews, RtPartners,
       RtContact, RtAdminLanguages, RtAdminSidePanel}"

section \<open>Static files\<close>

definition not_found :: "writer \<Rightarrow> writer" where
  "not_found w = http_error w ''404 page not found'' 404"

text \<open>
  \<open>http.StripPrefix("/uploads/", ...)\<close>: both the path and the escaped path must have the prefix.
\<close>

definition uploads_server :: "env \<Rightarrow> 'l world handler" where
  "uploads_server env r w \<sigma> =
     (if has_prefix (req_path r) ''/uploads/'' \<and> has_prefix (req_escaped r) ''/uploads/''
      then (e_file_server env (e_uploadDir env) (wd_files \<sigma>)
              (r\<lparr>req_path := trim_prefix (req_path r) ''/uploads/'',
                 req_escaped := trim_prefix (req_escaped r) ''/uploads/''\<rparr>) w, \<sigma>)
      else (not_found w, \<sigma>))"

definition admin_page :: "env \<Rightarrow> string \<Rightarrow> 'l world handler" where
  "admin_page env publicDir r w \<sigma> =
     (e_serve_file env (filepath_join publicDir ''admin.html'') r w, \<sigma>)"

definition public_server :: "env \<Rightarrow> string \<Rightarrow> 'l world handler" where
  "public_server env publicDir r w \<sigma> = (e_file_server env publicDir (wd_files \<sigma>) r w, \<sigma>)"

definition spa_fallback :: "env \<Rightarrow> string \<Rightarrow> 'l world handler" where
  "spa_fallback env publicDir r w \<sigma> =
     (let path = filepath_join publicDir (req_path r) in
      if e_stat env path \<and> req_path r \<noteq> ''/''
      then AddCacheHeaders ''86400'' (public_server env publicDir) r w \<sigma>
      else (e_serve_file env (filepath_join publicDir ''index.html'') r w, \<sigma>))"

section \<open>Dispatch\<close>

text \<open>The handlers as they are registered; \<open>auth\<close> is the middleware \<open>mw.Auth(cfg.JWTSecret)\<close>.\<close>

fun route_handler :: "env \<Rightarrow> string \<Rightarrow> route \<Rightarrow> 'l world handler" where
  "route_handler env pub RtHealth = Health"
| "route_handler env pub RtContent = Content"
| "route_handler env pub RtLanguages = Languages"
| "route_handler env pub RtSidePanel = SidePanel"
| "route_handler env pub RtLogin = Login env"
| "route_handler env pub RtChangePassword = Auth (e_mac env) (e_secret env) (ChangePassword env)"
| "route_handler env pub RtUpload = Auth (e_mac env) (e_secret env) (Upload env)"
| "route_handler env pub RtSite = Auth (e_mac env) (e_secret env) AdminSite"
| "route_handler env pub RtHero = Auth (e_mac env) (e_secret env) AdminHero"
| "route_handler env pub RtStats = Auth (e_mac env) (e_secret env) AdminStats"
| "route_handler env pub RtAbout = Auth (e_mac env) (e_secret env) AdminAbout"
| "route_handler env pub RtServices = Auth (e_mac env) (e_secret env) AdminServices"
| "route_handler env pub RtNews = Auth (e_mac env) (e_secret env) AdminNews"
| "route_handler env pub RtPartners = Auth (e_mac env) (e_secret env) AdminPartners"
| "route_handler env pub RtContact = Auth (e_mac env) (e_secret env) AdminContact"
| "route_handler env pub RtAdminLanguages = Auth (e_mac env) (e_secret env) AdminLanguages"
| "route_handler env pub RtAdminSidePanel = Auth (e_mac env) (e_secret env) AdminSidePanel"
| "route_handler env pub RtUploads = AddCacheHeaders ''604800'' (uploads_server env)"
| "route_handler env pub RtAdminPage = admin_page env pub"
| "route_handler env pub RtFallback = spa_fallback env pub"

text \<open>
  A path that is not clean is redirected to the clean one, and \<open>/uploads\<close> to \<open>/uploads/\<close>; a \<open>CONNECT\<close>
  request is not cleaned.
\<close>

definition mux :: "env \<Rightarrow> string \<Rightarrow> 'l world handler" where
  "mux env pub r w \<sigma> =
     (let path = (if req_method r = ''CONNECT'' then req_escaped r else clean_path (req_escaped r)) in
      if path = [] \<or> hd path \<noteq> CHR ''/'' then (not_found w, \<sigma>)
      else if path_segments path = [''uploads'']
      then (e_redirect env (clean_path (req_path r) @ ''/'') r w, \<sigma>)
      else if path \<noteq> req_escaped r then (e_redirect env path r w, \<sigma>)
      else route_handler env pub (match_route path) r w \<sigma>)"

text \<open>The stack of \<open>main\<close>.\<close>

definition server_handler :: "'l limiter_api \<Rightarrow> env \<Rightarrow> string \<Rightarrow> string \<Rightarrow> 'l world handler" where
  "server_handler api env allowed pub =
     RateLimit api (CORS allowed (SecurityHeaders (Gzip (mux env pub))))"

end
