(* ===== verification/TokenBucket.thy ===== *)
theory TokenBucket
  imports RateLimiter "HOL-Library.Word"
begin

text \<open>
  The limiter of \<open>golang.org/x/time/rate\<close> (\<open>vendor/golang.org/x/time/rate/rate.go\<close>, \<open>NewLimiter\<close>,
  \<open>Allow\<close>, \<open>reserveN\<close>, \<open>advance\<close>) as an instance of the interface of \<open>RateLimiter\<close>. Its tokens are
  \<open>float64\<close>: every operation of the package is rounded (\<open>round64\<close>), so that its decisions are those of the
  code and not those of exact arithmetic, from which they differ at the last nanosecond. Times are nanoseconds
  of the Unix epoch. The case \<open>limit = Inf\<close> is left out: the server never creates such a limiter.
\<close>

section \<open>The bucket\<close>

record bucket =
  tb_limit :: rat
  tb_burst :: int
  tb_tokens :: rat
  tb_last :: int

text \<open>The zero \<open>time.Time\<close>, and the longest \<open>time.Duration\<close>, at which \<open>Sub\<close> saturates.\<close>

definition zero_time :: int where
  "zero_time = - 62135596800 * 10 ^ 9"

definition max_duration :: int where
  "max_duration = 2 ^ 63 - 1"

definition tb_new :: "rat \<Rightarrow> int \<Rightarrow> bucket" where
  "tb_new r b = \<lparr>tb_limit = r, tb_burst = b, tb_tokens = round64 (of_int b), tb_last = zero_time\<rparr>"

text \<open>\<open>Duration.Seconds\<close> of the standard library, for a duration that is not negative.\<close>

definition seconds64 :: "int \<Rightarrow> rat" where
  "seconds64 d =
     round64 (round64 (of_int (d div 10 ^ 9)) + round64 (round64 (of_int (d mod 10 ^ 9)) / 10 ^ 9))"

definition tokensFromDuration :: "rat \<Rightarrow> int \<Rightarrow> rat" where
  "tokensFromDuration r d = (if r \<le> 0 then 0 else round64 (seconds64 d * r))"

definition durationFromTokens :: "rat \<Rightarrow> rat \<Rightarrow> int" where
  "durationFromTokens r x =
     (if r \<le> 0 then max_duration
      else let d = round64 (round64 (x / r) * 10 ^ 9) in if 2 ^ 63 < d then max_duration else \<lfloor>d\<rfloor>)"

definition tb_advance :: "int \<Rightarrow> bucket \<Rightarrow> rat" where
  "tb_advance t l =
     (let last = (if t < tb_last l then t else tb_last l);
          elapsed = min (t - last) max_duration;
          tokens = round64 (tb_tokens l + tokensFromDuration (tb_limit l) elapsed);
          burst = round64 (of_int (tb_burst l))
      in if burst < tokens then burst else tokens)"

definition tb_allow :: "int \<Rightarrow> bucket \<Rightarrow> bool \<times> bucket" where
  "tb_allow t l =
     (let tokens = round64 (tb_advance t l - 1);
          wait = (if tokens < 0 then durationFromTokens (tb_limit l) (- tokens) else 0)
      in if 1 \<le> tb_burst l \<and> wait \<le> 0
         then (True, l\<lparr>tb_last := t, tb_tokens := tokens\<rparr>) else (False, l))"

definition bucket_api :: "bucket limiter_api" where
  "bucket_api = \<lparr>new_limiter = tb_new, allow = tb_allow\<rparr>"

lemma bucket_api_simps [simp]: "new_limiter bucket_api = tb_new" "allow bucket_api = tb_allow"
  by (simp_all add: bucket_api_def)

section \<open>Rounding errors\<close>

lemma round64_relative:
  assumes "1 / 2 ^ 500 \<le> x" "x \<le> 2 ^ 1000"
  shows "\<bar>round64 x - x\<bar> \<le> x / 2 ^ 52"
proof -
  have "(1 :: rat) / 2 ^ 1000 \<le> 1 / 2 ^ 500 / 2 ^ 53" by simp
  also have "\<dots> \<le> x / 2 ^ 53" using assms(1) by (rule divide_right_mono) simp
  finally have small: "1 / 2 ^ 1000 \<le> x / 2 ^ 53" .
  have "(0 :: rat) < 1 / 2 ^ 500" by simp
  with assms(1) have "0 < x" by linarith
  with round64_error [of x] assms(2) small show ?thesis by simp
qed

lemma near_bounds:
  assumes "\<bar>a - x\<bar> \<le> x / c" "0 \<le> x" "(2 :: rat) \<le> c"
  shows "x / 2 \<le> a" "a \<le> 2 * x"
proof -
  have "x / c \<le> x / 2" using assms(2,3) by (intro divide_left_mono) simp_all
  then have "\<bar>a - x\<bar> \<le> x / 2" using assms(1) by linarith
  then show "x / 2 \<le> a" "a \<le> 2 * x" using assms(2) by linarith+
qed

lemma error_trans:
  assumes "\<bar>a - z\<bar> \<le> z / (8 * c)" "\<bar>z - x\<bar> \<le> x / (2 * c)" "0 \<le> x" "(1 :: rat) \<le> c"
  shows "\<bar>a - x\<bar> \<le> x / c"
proof -
  define q where "q = x / c"
  have z: "z \<le> 2 * x" using near_bounds [OF assms(2,3)] assms(4) by simp
  have "z / (8 * c) \<le> 2 * x / (8 * c)" using z assms(4) by (intro divide_right_mono) simp_all
  also have "\<dots> = q / 4" by (simp add: q_def)
  finally have "\<bar>a - z\<bar> \<le> q / 4" using assms(1) by linarith
  moreover have "\<bar>z - x\<bar> \<le> q / 2" using assms(2) by (simp add: q_def)
  moreover have "0 \<le> q" using assms(3,4) by (simp add: q_def)
  ultimately show ?thesis unfolding q_def [symmetric] by linarith
qed

lemma seconds_error:
  assumes "0 \<le> d" "d \<le> max_duration"
  shows "\<bar>seconds64 d - of_int d / 10 ^ 9\<bar> \<le> of_int d / 10 ^ 9 / 2 ^ 49"
proof (cases "d = 0")
  case True
  then show ?thesis by (simp add: seconds64_def)
next
  case False
  define s where "s = d div 10 ^ 9"
  define m where "m = d mod 10 ^ 9"
  have d: "d = 10 ^ 9 * s + m" "0 \<le> s" "0 \<le> m" "m < 10 ^ 9" "s < 2 ^ 53"
    using assms by (simp_all add: s_def m_def max_duration_def pos_imp_zdiv_nonneg_iff div_less_iff_less_mult)
  let ?x = "of_int d / 10 ^ 9 :: rat" and ?m = "of_int m / 10 ^ 9 :: rat"
  have x: "?x = of_int s + ?m" by (simp add: d(1) add_divide_distrib)
  have s0: "(0 :: rat) \<le> of_int s" "0 \<le> ?m" using d(2,3) by simp_all
  have "1 \<le> d" using False assms(1) by simp
  then have "(1 :: rat) \<le> of_int d" by (metis of_int_1_le_iff)
  then have x_low: "1 / 10 ^ 9 \<le> ?x" by (simp add: divide_right_mono)
  have "(of_int d :: rat) \<le> of_int (2 ^ 63)" using assms(2) unfolding max_duration_def by (simp only: of_int_le_iff)
  then have x_high: "?x \<le> 2 ^ 64" by (simp add: divide_le_eq)
  have f: "\<bar>round64 ?m - ?m\<bar> \<le> ?m / 2 ^ 52"
  proof (cases "m = 0")
    case False
    with d(3) have "(1 :: rat) \<le> of_int m" by (metis of_int_1_le_iff int_one_le_iff_zero_less order_le_less)
    moreover have "(of_int m :: rat) \<le> of_int (10 ^ 9)" using d(4) by (simp only: of_int_le_iff)
    ultimately show ?thesis by (intro round64_relative) (simp_all add: field_simps)
  qed simp
  let ?y = "of_int s + round64 ?m"
  have y: "\<bar>?y - ?x\<bar> \<le> ?x / 2 ^ 52"
    using f s0 unfolding x by (simp add: abs_le_iff field_simps)
  have "\<bar>round64 ?y - ?y\<bar> \<le> ?y / 2 ^ 52"
  proof (rule round64_relative)
    have "0 \<le> ?x" using assms(1) by simp
    note half = near_bounds [OF y this]
    have "(1 :: rat) / 2 ^ 500 \<le> 1 / 10 ^ 9 / 2" by simp
    also have "\<dots> \<le> ?x / 2" using x_low by (rule divide_right_mono) simp
    finally show "1 / 2 ^ 500 \<le> ?y" using half(1) by simp
    have "2 * (2 :: rat) ^ 64 \<le> 2 ^ 1000" by simp
    with half(2) x_high show "?y \<le> 2 ^ 1000" by (simp; linarith)
  qed
  moreover have "seconds64 d = round64 ?y"
  proof -
    have "round64 (of_int s) = of_int s" "round64 (of_int m) = of_int m"
      using d(2-5) by (simp_all add: round64_int)
    then show ?thesis by (simp only: seconds64_def s_def [symmetric] m_def [symmetric])
  qed
  moreover have "\<bar>?y - ?x\<bar> \<le> ?x / (2 * 2 ^ 49)"
  proof -
    have "?x / 2 ^ 52 \<le> ?x / (2 * 2 ^ 49)" using assms(1) by (intro divide_left_mono) simp_all
    with y show ?thesis by linarith
  qed
  ultimately show ?thesis using error_trans [of "seconds64 d" ?y "2 ^ 49" ?x] assms(1) by simp
qed

lemma tokens_error:
  assumes "0 \<le> d" "d \<le> max_duration" "1 / 30 \<le> r" "r \<le> 2 ^ 64"
  shows "\<bar>tokensFromDuration r d - of_int d / 10 ^ 9 * r\<bar> \<le> of_int d / 10 ^ 9 * r / 2 ^ 48"
proof (cases "d = 0")
  case True
  then show ?thesis by (simp add: tokensFromDuration_def seconds64_def)
next
  case False
  let ?x = "of_int d / 10 ^ 9 :: rat"
  have "1 \<le> d" using False assms(1) by simp
  then have "(1 :: rat) \<le> of_int d" by (metis of_int_1_le_iff)
  then have x: "1 / 10 ^ 9 \<le> ?x" by (simp add: divide_right_mono)
  have "(of_int d :: rat) \<le> of_int (2 ^ 63)" using assms(2) unfolding max_duration_def by (simp only: of_int_le_iff)
  then have x': "?x \<le> 2 ^ 64" by (simp add: divide_le_eq)
  have r: "0 < r" using assms(3) by simp
  have low: "1 / 10 ^ 9 / 30 \<le> ?x * r" using mult_mono [OF x assms(3)] x by simp
  have high: "?x * r \<le> 2 ^ 64 * 2 ^ 64" using mult_mono [OF x' assms(4)] r by simp
  have "\<bar>seconds64 d - ?x\<bar> * r \<le> ?x / 2 ^ 49 * r"
    using seconds_error [OF assms(1,2)] r by (intro mult_right_mono) simp_all
  then have s: "\<bar>seconds64 d * r - ?x * r\<bar> \<le> ?x * r / 2 ^ 49"
    using r by (simp add: abs_mult_pos left_diff_distrib)
  define z where "z = seconds64 d * r"
  define y where "y = ?x * r"
  have near: "\<bar>z - y\<bar> \<le> y / 2 ^ 49" using s by (simp only: z_def y_def)
  have y0: "1 / 10 ^ 9 / 30 \<le> y" "y \<le> 2 ^ 64 * 2 ^ 64" using low high by (simp_all only: y_def)
  have "(0 :: rat) < 1 / 10 ^ 9 / 30" by simp
  with y0(1) have pos: "0 \<le> y" by linarith
  from near_bounds [OF near pos] have z: "y / 2 \<le> z" "z \<le> 2 * y" by simp_all
  have "\<bar>round64 z - z\<bar> \<le> z / 2 ^ 52"
  proof (rule round64_relative)
    have "(1 :: rat) / 2 ^ 500 \<le> 1 / 10 ^ 9 / 30 / 2" by simp
    also have "\<dots> \<le> y / 2" using y0(1) by (rule divide_right_mono) simp
    finally show "1 / 2 ^ 500 \<le> z" using z(1) by simp
    have "2 * (2 ^ 64 * 2 ^ 64 :: rat) \<le> 2 ^ 1000" by simp
    with z(2) y0(2) show "z \<le> 2 ^ 1000" by (simp; linarith)
  qed
  moreover have "z / 2 ^ 52 \<le> z / (8 * 2 ^ 48)" using z(1) pos by (intro divide_left_mono) simp_all
  ultimately have "\<bar>round64 z - z\<bar> \<le> z / (8 * 2 ^ 48)" by linarith
  then have "\<bar>round64 z - y\<bar> \<le> y / 2 ^ 48" using error_trans [of "round64 z" z "2 ^ 48" y] near pos by simp
  with r show ?thesis by (simp add: tokensFromDuration_def z_def y_def)
qed

lemma round64_near:
  assumes "1 / 2 ^ 500 \<le> x" "x \<le> 2 ^ 1000"
  shows "3 / 4 * x \<le> round64 x" "round64 x \<le> 5 / 4 * x"
proof -
  have "(0 :: rat) < 1 / 2 ^ 500" by simp
  with assms(1) have "0 < x" by linarith
  then have "x / 2 ^ 52 \<le> x / 4" by (intro divide_left_mono) simp_all
  with round64_relative [OF assms] show "3 / 4 * x \<le> round64 x" "round64 x \<le> 5 / 4 * x" by linarith+
qed

section \<open>Its states\<close>

text \<open>A rate and a burst as the server makes them: the bucket is full after half a minute.\<close>

definition rate_ok :: "rat \<Rightarrow> int \<Rightarrow> bool" where
  "rate_ok r b \<longleftrightarrow> 1 \<le> b \<and> b < 2 ^ 62 \<and> 1 / 30 \<le> r \<and> r \<le> of_int b \<and> of_int b \<le> 30 * r"

lemma rate_small:
  assumes "rate_ok r b"
  shows "(of_int b :: rat) \<le> 2 ^ 62"
proof -
  have "b \<le> 2 ^ 62" using assms by (simp add: rate_ok_def)
  then have "(of_int b :: rat) \<le> of_int (2 ^ 62)" by (simp only: of_int_le_iff)
  then show ?thesis by simp
qed

text \<open>A grant may leave the bucket short of a token by what flows in within a nanosecond or two.\<close>

definition tb_used :: "rat \<Rightarrow> int \<Rightarrow> bucket \<Rightarrow> int \<Rightarrow> bool" where
  "tb_used r b l u \<longleftrightarrow>
     tb_limit l = r \<and> tb_burst l = b \<and>
     (if 1 \<le> b then tb_last l \<le> u \<and> - (2 * r / 10 ^ 9) \<le> tb_tokens l \<and> tb_tokens l \<le> round64 (of_int b)
      else l = tb_new r b)"

lemma tokens_nonneg: "0 \<le> d \<Longrightarrow> 0 \<le> tokensFromDuration r d"
  by (simp add: tokensFromDuration_def seconds64_def round64_nonneg pos_imp_zdiv_nonneg_iff)

lemma burst_pos: "1 \<le> b \<Longrightarrow> 1 \<le> round64 (of_int b)"
  using round64_mono [of 1 "of_int b"] by simp

lemma burst_near:
  assumes "1 \<le> b" "b < 2 ^ 62"
  shows "of_int b / 2 \<le> round64 (of_int b)" "round64 (of_int b) \<le> 2 * of_int b"
proof -
  have b: "(1 :: rat) \<le> of_int b" "(of_int b :: rat) \<le> of_int (2 ^ 62)"
    using assms by (simp, simp only: of_int_le_iff)
  have "\<bar>round64 (of_int b) - of_int b\<bar> \<le> of_int b / 2 ^ 52"
  proof (rule round64_relative)
    have "(1 :: rat) / 2 ^ 500 \<le> 1" by simp
    with b(1) show "1 / 2 ^ 500 \<le> (of_int b :: rat)" by simp
    have "(of_int (2 ^ 62) :: rat) \<le> 2 ^ 1000" by simp
    with b(2) show "(of_int b :: rat) \<le> 2 ^ 1000" by simp
  qed
  from near_bounds [OF this] b(1) show "of_int b / 2 \<le> round64 (of_int b)" "round64 (of_int b) \<le> 2 * of_int b"
    by simp_all
qed

lemma advance_le_burst: "tb_advance t l \<le> round64 (of_int (tb_burst l))"
  by (simp add: tb_advance_def Let_def not_less)

definition elapsed :: "int \<Rightarrow> bucket \<Rightarrow> int" where
  "elapsed t l = min (t - (if t < tb_last l then t else tb_last l)) max_duration"

lemma elapsed_bounds: "0 \<le> elapsed t l" "elapsed t l \<le> max_duration" "elapsed t l \<le> max 0 (t - tb_last l)"
  by (auto simp: elapsed_def max_duration_def)

lemma advance_min:
  "tb_advance t l = min (round64 (of_int (tb_burst l)))
     (round64 (tb_tokens l + tokensFromDuration (tb_limit l) (elapsed t l)))"
  by (simp add: tb_advance_def elapsed_def Let_def min_def)

lemma advance_full:
  assumes "round64 (of_int (tb_burst l)) \<le> tb_tokens l + tokensFromDuration (tb_limit l) (elapsed t l)"
  shows "tb_advance t l = round64 (of_int (tb_burst l))"
  using round64_mono [OF assms] by (simp add: advance_min)

lemma advance_new: "tb_advance t (tb_new r b) = round64 (of_int b)"
  using advance_full [of "tb_new r b" t] tokens_nonneg [OF elapsed_bounds(1), of r t "tb_new r b"]
  by (simp add: tb_new_def)

lemma wait_none:
  assumes "0 < r" "durationFromTokens r x \<le> 0"
  shows "x < 2 * r / 10 ^ 9"
proof (rule ccontr)
  assume "\<not> x < 2 * r / 10 ^ 9"
  then have "2 / 10 ^ 9 \<le> x / r" using assms(1) by (simp add: field_simps not_less)
  then have "round64 (2 / 10 ^ 9) \<le> round64 (x / r)" by (rule round64_mono)
  moreover have "1 / 10 ^ 9 \<le> round64 (2 / 10 ^ 9)"
    using near_bounds(1) [OF round64_relative [of "2 / 10 ^ 9"]] by simp
  ultimately have "1 \<le> round64 (x / r) * 10 ^ 9" by (simp add: field_simps)
  from round64_mono [OF this] have "1 \<le> round64 (round64 (x / r) * 10 ^ 9)" by simp
  then have "1 \<le> \<lfloor>round64 (round64 (x / r) * 10 ^ 9)\<rfloor>" by (simp add: le_floor_iff)
  with assms show False
    by (auto simp: durationFromTokens_def max_duration_def Let_def split: if_splits)
qed

lemma allow_tokens:
  assumes "0 < tb_limit l" "tb_allow t l = (True, l1)"
  shows "l1 = l\<lparr>tb_last := t, tb_tokens := round64 (tb_advance t l - 1)\<rparr> \<and>
    - (2 * tb_limit l / 10 ^ 9) \<le> round64 (tb_advance t l - 1) \<and>
    round64 (tb_advance t l - 1) \<le> round64 (of_int (tb_burst l))"
proof -
  let ?x = "round64 (tb_advance t l - 1)"
  from assms(2) have l1: "l1 = l\<lparr>tb_last := t, tb_tokens := ?x\<rparr>"
    and w: "?x < 0 \<Longrightarrow> durationFromTokens (tb_limit l) (- ?x) \<le> 0"
    by (auto simp: tb_allow_def Let_def split: if_splits)
  have "- (2 * tb_limit l / 10 ^ 9) \<le> ?x"
  proof (cases "?x < 0")
    case True
    with wait_none [OF assms(1) w] show ?thesis by simp
  next
    case False
    have "0 \<le> 2 * tb_limit l / 10 ^ 9" using assms(1) by simp
    with False show ?thesis by linarith
  qed
  moreover have "?x \<le> round64 (of_int (tb_burst l))"
    using round64_mono [of "tb_advance t l - 1" "round64 (of_int (tb_burst l))"] advance_le_burst [of t l] by simp
  ultimately show ?thesis using l1 by blast
qed

lemma deny_same: "tb_allow t l = (False, l1) \<Longrightarrow> l1 = l"
  by (auto simp: tb_allow_def Let_def split: if_splits)

lemma allow_full:
  assumes "tb_advance t l = round64 (of_int (tb_burst l))" "1 \<le> tb_burst l"
  shows "tb_allow t l = (True, l\<lparr>tb_last := t, tb_tokens := round64 (round64 (of_int (tb_burst l)) - 1)\<rparr>)"
  using assms burst_pos [OF assms(2)] round64_nonneg [of "round64 (of_int (tb_burst l)) - 1"]
  by (simp add: tb_allow_def Let_def not_less)

text \<open>The clock that is asked with may be behind the time \<open>t\<close> at which the limiter is locked.\<close>

lemma used_step:
  assumes "0 < r \<or> b < 1" "tb_used r b l u" "u \<le> t" "c \<le> t"
  shows "tb_used r b (snd (tb_allow c l)) t"
proof (cases "1 \<le> b")
  case False
  with assms(2) have "snd (tb_allow c l) = l" "l = tb_new r b"
    by (simp_all add: tb_used_def tb_allow_def tb_new_def)
  with False show ?thesis by (simp add: tb_used_def tb_new_def)
next
  case True
  with assms have l: "tb_limit l = r" "tb_burst l = b" "tb_last l \<le> u" "- (2 * r / 10 ^ 9) \<le> tb_tokens l"
    "tb_tokens l \<le> round64 (of_int b)" "0 < r" by (simp_all add: tb_used_def)
  obtain ok l1 where a: "tb_allow c l = (ok, l1)" by force
  show ?thesis
  proof (cases ok)
    case False
    with a have "l1 = l" using deny_same by simp
    with a True l assms(3) show ?thesis by (simp add: tb_used_def)
  next
    case ok: True
    from allow_tokens [of l c l1] a ok l have
      "l1 = l\<lparr>tb_last := c, tb_tokens := round64 (tb_advance c l - 1)\<rparr>"
      "- (2 * r / 10 ^ 9) \<le> round64 (tb_advance c l - 1)" "round64 (tb_advance c l - 1) \<le> round64 (of_int b)"
      by simp_all
    then show ?thesis using a True l assms(4) by (simp add: tb_used_def)
  qed
qed

lemma used_new_bucket:
  assumes "0 < r \<or> b < 1" "c \<le> t"
  shows "tb_used r b (snd (tb_allow c (tb_new r b))) t"
proof (cases "1 \<le> b")
  case False
  then have "snd (tb_allow c (tb_new r b)) = tb_new r b" by (simp add: tb_allow_def tb_new_def)
  with False show ?thesis by (simp add: tb_used_def tb_new_def)
next
  case True
  with assms have r: "0 < r" by simp
  have g: "tb_allow c (tb_new r b) = (True, (tb_new r b)\<lparr>tb_last := c, tb_tokens := round64 (round64 (of_int b) - 1)\<rparr>)"
    using allow_full [of c "tb_new r b"] advance_new [of c r b] True by (simp add: tb_new_def)
  from allow_tokens [OF _ g] r have "- (2 * r / 10 ^ 9) \<le> round64 (tb_advance c (tb_new r b) - 1)"
    "round64 (tb_advance c (tb_new r b) - 1) \<le> round64 (of_int b)" by (simp_all add: tb_new_def)
  with g True assms(2) show ?thesis by (simp add: tb_used_def tb_new_def advance_new [unfolded tb_new_def])
qed

text \<open>A bucket that is left alone for a minute is full after it.\<close>

lemma tokens_after:
  assumes "rate_ok r b" "0 \<le> d" "d \<le> max_duration"
  shows "59 / 60 * (of_int d / 10 ^ 9 * r) \<le> tokensFromDuration r d"
proof -
  have r: "1 / 30 \<le> r" "r \<le> 2 ^ 64" using assms(1) rate_small [OF assms(1)] by (simp_all add: rate_ok_def)
  define x where "x = of_int d / 10 ^ 9 * r"
  have "0 \<le> x" using assms(2) r(1) by (simp add: x_def)
  then have "x / 2 ^ 48 \<le> x / 60" by (intro divide_left_mono) simp_all
  with tokens_error [OF assms(2,3) r] show ?thesis unfolding x_def [symmetric] by linarith
qed

lemma tokens_minute:
  assumes "rate_ok r b" "tb_used r b l u" "60 * 10 ^ 9 < t - u"
  shows "58 * r \<le> tb_tokens l + tokensFromDuration r (elapsed t l)"
proof -
  have l: "tb_last l \<le> u" "- (2 * r / 10 ^ 9) \<le> tb_tokens l" using assms(1,2) by (simp_all add: tb_used_def rate_ok_def)
  have r: "0 < r" using assms(1) by (simp add: rate_ok_def)
  have "60 * 10 ^ 9 \<le> elapsed t l" using l(1) assms(3) by (simp add: elapsed_def max_duration_def)
  then have "(of_int (60 * 10 ^ 9) :: rat) \<le> of_int (elapsed t l)" by (simp only: of_int_le_iff)
  then have "60 \<le> of_int (elapsed t l) / (10 ^ 9 :: rat)" by simp
  then have flow: "60 * r \<le> of_int (elapsed t l) / 10 ^ 9 * r" by (rule mult_right_mono) (use r in simp)
  define x where "x = of_int (elapsed t l) / 10 ^ 9 * r"
  have "59 / 60 * x \<le> tokensFromDuration r (elapsed t l)"
    using tokens_after [OF assms(1) elapsed_bounds(1,2)] by (simp only: x_def)
  with flow [folded x_def] l(2) r show ?thesis by (simp; linarith)
qed

lemma refilled_as_new:
  assumes "rate_ok r b \<or> b < 1" "tb_used r b l u" "60 * 10 ^ 9 < t - u"
  shows "tb_allow t l = tb_allow t (tb_new r b)"
proof (cases "1 \<le> b")
  case False
  with assms(2) show ?thesis by (simp add: tb_used_def)
next
  case True
  with assms(1) have ok: "rate_ok r b" by simp
  have l: "tb_limit l = r" "tb_burst l = b" using assms(2) True by (simp_all add: tb_used_def)
  have "round64 (of_int b) \<le> 5 / 4 * of_int b"
  proof (rule round64_near(2))
    have "(1 :: rat) / 2 ^ 500 \<le> 1" by simp
    with True show "1 / 2 ^ 500 \<le> (of_int b :: rat)" by (metis of_int_1_le_iff order_trans)
    have "(of_int b :: rat) \<le> 2 ^ 62" by (rule rate_small [OF ok])
    also have "\<dots> \<le> 2 ^ 1000" by simp
    finally show "(of_int b :: rat) \<le> 2 ^ 1000" .
  qed
  also have "\<dots> \<le> 58 * r" using ok by (simp add: rate_ok_def)
  also have "\<dots> \<le> tb_tokens l + tokensFromDuration r (elapsed t l)" by (rule tokens_minute [OF ok assms(2,3)])
  finally have "tb_advance t l = round64 (of_int (tb_burst l))" using advance_full [of l t] l by simp
  from allow_full [OF this] have "tb_allow t l = (True, l\<lparr>tb_last := t, tb_tokens := round64 (round64 (of_int b) - 1)\<rparr>)"
    using True l by simp
  moreover have "tb_allow t (tb_new r b) =
      (True, (tb_new r b)\<lparr>tb_last := t, tb_tokens := round64 (round64 (of_int b) - 1)\<rparr>)"
    using allow_full [of t "tb_new r b"] advance_new [of t r b] True by (simp add: tb_new_def)
  ultimately show ?thesis using l by (simp add: tb_new_def)
qed

text \<open>A limiter that was left alone for a minute grants a request.\<close>

lemma minute_refills:
  assumes "rate_ok r b" "tb_used r b l u" "u + 60 * 10 ^ 9 < t"
  shows "fst (tb_allow t l)"
proof -
  have b: "1 \<le> b" "b < 2 ^ 62" and l: "tb_burst l = b" "tb_limit l = r"
    using assms(1,2) by (simp_all add: rate_ok_def tb_used_def)
  have "1 \<le> 58 * r" using assms(1) by (simp add: rate_ok_def)
  also have "\<dots> \<le> tb_tokens l + tokensFromDuration r (elapsed t l)"
    using tokens_minute [OF assms(1,2)] assms(3) by simp
  finally have "1 \<le> tb_tokens l + tokensFromDuration r (elapsed t l)" .
  from round64_mono [OF this] burst_pos [OF b(1)] have "1 \<le> tb_advance t l" by (simp add: advance_min l)
  then have "0 \<le> round64 (tb_advance t l - 1)" by (intro round64_nonneg) simp
  then show ?thesis using b(1) l(1) by (simp add: tb_allow_def Let_def)
qed

section \<open>The limiter of a configured rate\<close>

text \<open>
  For at least four requests per minute the rate fills the bucket within half a minute; below that the
  burst is zero.
\<close>

lemma limit_bounds:
  assumes "4 \<le> perMinute" "perMinute < 2 ^ 63"
  shows "of_int perMinute / 120 \<le> limit_of perMinute" "limit_of perMinute \<le> of_int perMinute / 30"
proof -
  let ?p = "of_int perMinute :: rat"
  have p: "4 \<le> ?p" using assms(1) by (metis of_int_le_iff of_int_numeral)
  have "?p < of_int (2 ^ 63)" using assms(2) by (simp only: of_int_less_iff)
  then have big: "?p \<le> 2 ^ 63" by simp
  have range: "1 / 2 ^ 500 \<le> y \<and> y \<le> 2 ^ 1000" if "1 / 30 \<le> y" "y \<le> 2 ^ 64" for y :: rat
  proof -
    have "(1 :: rat) / 2 ^ 500 \<le> 1 / 30" by simp
    moreover have "(2 :: rat) ^ 64 \<le> 2 ^ 1000" by simp
    ultimately show ?thesis using that by linarith
  qed
  have h: "3 / 4 * ?p \<le> round64 ?p" "round64 ?p \<le> 5 / 4 * ?p"
    using round64_near [of ?p] range [of ?p] p big by simp_all
  have q: "1 / 30 \<le> round64 ?p / 60" "round64 ?p / 60 \<le> 2 ^ 64" using h p big by simp_all
  note k = round64_near [of "round64 ?p / 60"]
  from k(1) range [OF q] h(1) p show "?p / 120 \<le> limit_of perMinute" by (simp add: limit_of_def)
  from k(2) range [OF q] h(2) p show "limit_of perMinute \<le> ?p / 30" by (simp add: limit_of_def)
qed

lemma limit_ok:
  assumes "4 \<le> perMinute" "perMinute < 2 ^ 63"
  shows "rate_ok (limit_of perMinute) (go_div perMinute 4)"
proof -
  let ?p = "of_int perMinute :: rat" and ?b = "go_div perMinute 4"
  have b: "?b = perMinute div 4" using assms(1) by (simp add: go_div_def)
  have p: "4 \<le> ?p" using assms(1) by (metis of_int_le_iff of_int_numeral)
  have "4 * ?b \<le> perMinute" "perMinute \<le> 4 * ?b + 3" "1 \<le> ?b" "?b < 2 ^ 62" using assms by (simp_all add: b)
  then have "of_int (4 * ?b) \<le> ?p" "?p \<le> of_int (4 * ?b + 3)" "(1 :: rat) \<le> of_int ?b"
    by (simp_all only: of_int_le_iff of_int_1_le_iff)
  with limit_bounds [OF assms] p \<open>1 \<le> ?b\<close> \<open>?b < 2 ^ 62\<close> show ?thesis by (simp add: rate_ok_def)
qed

lemma no_burst: "perMinute < 4 \<Longrightarrow> go_div perMinute 4 < 1"
  by (auto simp: go_div_def sgn_if)

text \<open>The configured rate is a Go \<open>int\<close>, of 64 bits.\<close>

lemma configured_rate:
  fixes w :: "64 word"
  shows "rate_ok (limit_of (sint w)) (go_div (sint w) 4) \<or> go_div (sint w) 4 < 1"
  using limit_ok [of "sint w"] no_burst [of "sint w"] sint_lt [of w]
  by (cases "sint w < 4") simp_all

lemma configured_pos:
  fixes w :: "64 word"
  shows "0 < limit_of (sint w) \<or> go_div (sint w) 4 < 1"
  using configured_rate [of w] by (auto simp: rate_ok_def)

lemmas minute_as_new = refilled_as_new [OF configured_rate]

interpretation bucket: idle_limiter bucket_api "limit_of (sint w)" "go_div (sint w) 4"
    "tb_used (limit_of (sint w)) (go_div (sint w) 4)" for w :: "64 word"
proof
  fix t u l
  show "tb_used (limit_of (sint w)) (go_div (sint w) 4)
      (snd (allow bucket_api t (new_limiter bucket_api (limit_of (sint w)) (go_div (sint w) 4)))) t"
    using used_new_bucket [OF configured_pos order.refl] by simp
  assume l: "tb_used (limit_of (sint w)) (go_div (sint w) 4) l u"
  show "tb_used (limit_of (sint w)) (go_div (sint w) 4) (snd (allow bucket_api t l)) t" if "u \<le> t"
    using used_step [OF configured_pos l that order.refl] by simp
  show "allow bucket_api t l = allow bucket_api t (new_limiter bucket_api (limit_of (sint w)) (go_div (sint w) 4))"
    if "idle_time < t - u"
    using minute_as_new [OF l, of t] that by (simp add: idle_time_def)
qed

section \<open>Bounds\<close>

text \<open>
  What a limiter grants from a time on is paid by the tokens it has then and those that flow in. The tokens of
  the limiter in exact arithmetic are its \<open>level\<close>; every grant may err by the rounding of its operations, and
  by the tokens of the time for which its clock was behind: with a clock behind the last grant's, \<open>lim.last\<close> goes
  back and the time between them is credited twice.
\<close>

definition level :: "bucket \<Rightarrow> int \<Rightarrow> rat" where
  "level l t = min (of_int (tb_burst l)) (tb_tokens l + tb_limit l * of_int (max 0 (t - tb_last l)) / 10 ^ 9)"

lemma level_later:
  assumes "0 < tb_limit l" "t \<le> t'"
  shows "level l t' \<le> level l t + tb_limit l * of_int (t' - t) / 10 ^ 9" "level l t \<le> level l t'"
proof -
  let ?d = "\<lambda>t. max 0 (t - tb_last l)"
  have d: "?d t' \<le> ?d t + (t' - t)" "?d t \<le> ?d t'" using assms(2) by auto
  have scale: "tb_limit l * of_int x / 10 ^ 9 \<le> tb_limit l * of_int y / 10 ^ 9" if "x \<le> y" for x y
    using assms(1) that by (intro divide_right_mono mult_left_mono) simp_all
  from scale [OF d(1)] have "tb_limit l * of_int (?d t') / 10 ^ 9 \<le>
      tb_limit l * of_int (?d t) / 10 ^ 9 + tb_limit l * of_int (t' - t) / 10 ^ 9"
    by (simp add: distrib_left add_divide_distrib)
  moreover have "0 \<le> tb_limit l * of_int (t' - t) / 10 ^ 9" using assms by simp
  ultimately show "level l t' \<le> level l t + tb_limit l * of_int (t' - t) / 10 ^ 9" unfolding level_def by linarith
  show "level l t \<le> level l t'" using scale [OF d(2)] unfolding level_def by linarith
qed

lemma round64_up_to:
  assumes "\<bar>x\<bar> \<le> 4 * y" "1 \<le> y" "y \<le> 2 ^ 62"
  shows "round64 x \<le> x + y / 2 ^ 50"
proof -
  have "(2 :: rat) ^ 64 \<le> 2 ^ 1000" by simp
  with assms(1,3) have "\<bar>x\<bar> \<le> 2 ^ 1000" by simp
  from round64_error [OF this] have "round64 x - x \<le> \<bar>x\<bar> / 2 ^ 53 + 1 / 2 ^ 1000" by linarith
  moreover have "\<bar>x\<bar> / 2 ^ 53 \<le> 4 * y / 2 ^ 53" using assms(1) by (rule divide_right_mono) simp
  moreover have "(1 :: rat) / 2 ^ 1000 \<le> y / 2 ^ 53"
  proof -
    have "(1 :: rat) / 2 ^ 1000 \<le> 1 / 2 ^ 53" by simp
    also have "\<dots> \<le> y / 2 ^ 53" using assms(2) by (rule divide_right_mono) simp
    finally show ?thesis .
  qed
  moreover have "4 * y / 2 ^ 53 + y / 2 ^ 53 \<le> y / 2 ^ 50" using assms(2) by simp
  ultimately show ?thesis by linarith
qed

lemma advance_level:
  assumes "rate_ok r b" "b < 2 ^ 53" "tb_used r b l u"
  shows "tb_advance t l \<le> level l t + of_int b / 2 ^ 46" "- of_int b \<le> tb_advance t l" "tb_advance t l \<le> of_int b"
proof -
  let ?b = "of_int b :: rat" and ?e = "elapsed t l"
  have ok: "1 \<le> b" "1 / 30 \<le> r" "r \<le> ?b" using assms(1) by (simp_all add: rate_ok_def)
  have b: "1 \<le> ?b" "?b \<le> 2 ^ 62" using ok(1) rate_small [OF assms(1)] by simp_all
  have full: "round64 ?b = ?b" using ok(1) assms(2) by (simp add: round64_int)
  have l: "tb_limit l = r" "tb_burst l = b" "- (2 * r / 10 ^ 9) \<le> tb_tokens l" "tb_tokens l \<le> ?b"
    using assms(3) ok(1) full by (simp_all add: tb_used_def)
  have low: "- ?b \<le> tb_tokens l" using l(3) ok(2,3) b(1) by (simp add: field_simps)
  define T where "T = tb_tokens l"
  define D where "D = tokensFromDuration r ?e"
  define x where "x = of_int ?e / 10 ^ 9 * r"
  define X where "X = r * of_int (max 0 (t - tb_last l)) / 10 ^ 9"
  have x: "0 \<le> x" "x \<le> X"
  proof -
    show "0 \<le> x" using elapsed_bounds(1) [of t l] ok(2) by (simp add: x_def)
    have "(of_int ?e :: rat) \<le> of_int (max 0 (t - tb_last l))" using elapsed_bounds(3) [of t l] by (simp only: of_int_le_iff)
    then have "of_int ?e * r / 10 ^ 9 \<le> of_int (max 0 (t - tb_last l)) * r / 10 ^ 9"
      by (intro divide_right_mono mult_right_mono) (use ok(2) in simp_all)
    then show "x \<le> X" by (simp add: x_def X_def mult.commute)
  qed
  have D0: "0 \<le> D" unfolding D_def by (rule tokens_nonneg [OF elapsed_bounds(1)])
  have D: "\<bar>D - x\<bar> \<le> x / 2 ^ 48"
    using tokens_error [OF elapsed_bounds(1,2) ok(2)] b(2) ok(3) unfolding D_def x_def by simp
  have adv: "tb_advance t l = min ?b (round64 (T + D))" by (simp add: advance_min l(1,2) full T_def D_def)
  show "tb_advance t l \<le> ?b" by (simp add: adv)
  have "round64 (- ?b) \<le> round64 (T + D)" using low D0 by (intro round64_mono) (simp add: T_def)
  then show "- ?b \<le> tb_advance t l" using b(1) by (simp add: adv round64_minus full)
  have lev: "level l t = min ?b (T + X)" by (simp add: level_def l(1,2) T_def X_def)
  show "tb_advance t l \<le> level l t + ?b / 2 ^ 46"
  proof (cases "?b \<le> T + X")
    case True
    with b(1) show ?thesis by (simp add: adv lev)
  next
    case False
    with x(2) low have x2: "x \<le> 2 * ?b" unfolding T_def by linarith
    then have "x / 2 ^ 48 \<le> 2 * ?b / 2 ^ 48" by (rule divide_right_mono) simp
    also have "\<dots> = ?b / 2 ^ 47" by simp
    finally have D2: "D \<le> x + ?b / 2 ^ 47" using D by linarith
    have "?b / 2 ^ 47 \<le> ?b" using b(1) by simp
    with D2 x2 have "D \<le> 3 * ?b" by linarith
    then have "\<bar>T + D\<bar> \<le> 4 * ?b" using D0 low l(4) b(1) unfolding T_def by linarith
    from round64_up_to [OF this b] have "round64 (T + D) \<le> T + X + ?b / 2 ^ 47 + ?b / 2 ^ 50"
      using D2 x(2) by linarith
    also have "\<dots> \<le> T + X + ?b / 2 ^ 46" using b(1) by simp
    finally show ?thesis using False by (simp add: adv lev)
  qed
qed

definition granted :: "bool list \<Rightarrow> nat" where
  "granted bs = length (filter id bs)"

lemma granted_simps [simp]:
  "granted [] = 0" "granted (ok # bs) = (if ok then 1 else 0) + granted bs"
  "granted (as @ bs) = granted as + granted bs"
  by (simp_all add: granted_def)

text \<open>A clock that was read at most \<open>lag\<close> before the limiter is locked.\<close>

definition read_within :: "int \<Rightarrow> int \<Rightarrow> int \<Rightarrow> bool" where
  "read_within lag t c \<longleftrightarrow> c \<le> t \<and> t \<le> c + lag"

lemma grant_pays:
  assumes "rate_ok r b" "b < 2 ^ 53" "tb_used r b l u" "tb_allow c l = (True, l1)" "read_within lag t c"
  shows "level l1 t \<le> level l t - 1 + of_int b / 2 ^ 45 + r * of_int lag / 10 ^ 9"
proof -
  let ?b = "of_int b :: rat"
  have ok: "0 < r" "(1 :: rat) \<le> ?b" "1 \<le> b" using assms(1) by (simp_all add: rate_ok_def)
  have l: "tb_limit l = r" "tb_burst l = b" using assms(3) by (simp_all add: tb_used_def)
  note A = advance_level [OF assms(1-3), of c]
  have l1: "l1 = l\<lparr>tb_last := c, tb_tokens := round64 (tb_advance c l - 1)\<rparr>"
    using allow_tokens [OF _ assms(4)] l ok(1) by simp
  have "\<bar>tb_advance c l - 1\<bar> \<le> 4 * ?b" using A(2,3) ok(2) by linarith
  from round64_up_to [OF this ok(2) rate_small [OF assms(1)]]
  have "round64 (tb_advance c l - 1) \<le> level l c - 1 + ?b / 2 ^ 46 + ?b / 2 ^ 50" using A(1) by linarith
  also have "\<dots> \<le> level l t - 1 + ?b / 2 ^ 45"
  proof -
    have "?b / 2 ^ 46 + ?b / 2 ^ 50 \<le> ?b / 2 ^ 45" using ok(2) by simp
    moreover have "level l c \<le> level l t" using assms(5) ok(1) l by (intro level_later(2)) (simp_all add: read_within_def)
    ultimately show ?thesis by linarith
  qed
  finally have T: "round64 (tb_advance c l - 1) \<le> level l t - 1 + ?b / 2 ^ 45" .
  have "max 0 (t - c) \<le> lag" using assms(5) by (auto simp: read_within_def)
  then have "(of_int (max 0 (t - c)) :: rat) \<le> of_int lag" by (simp only: of_int_le_iff)
  then have "r * of_int (max 0 (t - c)) / 10 ^ 9 \<le> r * of_int lag / 10 ^ 9"
    by (intro divide_right_mono mult_left_mono) (use ok(1) in simp_all)
  moreover have "level l1 t \<le> round64 (tb_advance c l - 1) + r * of_int (max 0 (t - c)) / 10 ^ 9"
    by (simp add: l1 level_def l)
  ultimately show ?thesis using T by linarith
qed

lemma granted_bound:
  assumes "rate_ok r b" "b < 2 ^ 53"
  shows "tb_used r b l u \<Longrightarrow> u \<le> t0 \<Longrightarrow> sorted (t0 # ts) \<Longrightarrow> \<forall>t \<in> set ts. t \<le> t1 \<Longrightarrow> t0 \<le> t1 \<Longrightarrow>
     list_all2 (read_within lag) ts cs \<Longrightarrow>
     of_nat (granted (run_limiter bucket_api l cs)) * (1 - of_int b / 2 ^ 45 - r * of_int lag / 10 ^ 9) \<le>
       level l t0 + r * of_int (t1 - t0) / 10 ^ 9 + 2 * r / 10 ^ 9"
proof (induction ts arbitrary: l u t0 cs)
  case Nil
  have ok: "0 < r" "1 \<le> b" using assms(1) by (simp_all add: rate_ok_def)
  have l: "tb_limit l = r" "tb_burst l = b" "- (2 * r / 10 ^ 9) \<le> tb_tokens l"
    using Nil.prems(1) ok(2) by (simp_all add: tb_used_def)
  have "0 \<le> r * of_int (t1 - t0) / 10 ^ 9" "0 \<le> r * of_int (max 0 (t0 - tb_last l)) / 10 ^ 9"
    "(0 :: rat) \<le> of_int b" "0 \<le> 2 * r / 10 ^ 9"
    using Nil.prems(5) ok by simp_all
  with l(3) have "0 \<le> level l t0 + r * of_int (t1 - t0) / 10 ^ 9 + 2 * r / 10 ^ 9"
    unfolding level_def l(1,2) by linarith
  then show ?case using Nil.prems(6) by simp
next
  case (Cons t ts)
  from Cons.prems(6) obtain c cs' where cs: "cs = c # cs'" "read_within lag t c" "list_all2 (read_within lag) ts cs'"
    by (cases cs) simp_all
  have ok: "0 < r" using assms(1) by (simp add: rate_ok_def)
  have lim: "tb_limit l = r" using Cons.prems by (simp add: tb_used_def)
  have t: "t0 \<le> t" "sorted (t # ts)" "t \<le> t1" "u \<le> t" "c \<le> t" using Cons.prems cs(2) by (auto simp: read_within_def)
  define flow where "flow i = r * of_int i / 10 ^ 9" for i :: int
  have lev: "level l t \<le> level l t0 + flow (t - t0)"
    using level_later(1) [of l t0 t] lim ok t(1) by (simp add: flow_def)
  have split: "flow (t1 - t0) = flow (t - t0) + flow (t1 - t)"
    by (simp add: flow_def field_simps)
  let ?k = "1 - of_int b / 2 ^ 45 - flow lag"
  obtain ok' l1 where a: "tb_allow c l = (ok', l1)" by force
  have used1: "tb_used r b l1 t"
    using used_step [of r b l u t c] Cons.prems(1) ok t(4,5) a by simp
  have IH: "of_nat (granted (run_limiter bucket_api l1 cs')) * ?k \<le> level l1 t + flow (t1 - t) + 2 * r / 10 ^ 9"
    using Cons.IH [OF used1 order.refl t(2) _ t(3) cs(3)] Cons.prems(4) by (simp add: flow_def)
  have "of_nat (granted (run_limiter bucket_api l cs)) * ?k \<le> level l t0 + flow (t1 - t0) + 2 * r / 10 ^ 9"
  proof (cases ok')
    case False
    with a have "l1 = l" using deny_same by simp
    with IH lev split a False show ?thesis by (simp add: cs(1))
  next
    case True
    with a have "level l1 t \<le> level l t - ?k"
      using grant_pays [OF assms Cons.prems(1) _ cs(2), of l1] by (simp add: flow_def)
    moreover have "of_nat (granted (run_limiter bucket_api l cs)) * ?k =
        ?k + of_nat (granted (run_limiter bucket_api l1 cs')) * ?k"
      using a True by (simp add: cs(1) distrib_right)
    ultimately show ?thesis using IH lev split by linarith
  qed
  then show ?case by (simp only: flow_def)
qed

end
