(* ===== verification/RateThms.thy ===== *)
theory RateThms
  imports TokenBucket
begin

text \<open>
  What the rate limiter guarantees over whole histories of requests and cleanups: clients are
  independent, dropping idle clients is not noticed, and the number of granted requests in any window
  of time is bounded by the burst and the rate.
\<close>

text \<open>A Go \<open>int\<close>.\<close>

definition go_int :: "int \<Rightarrow> bool" where
  "go_int n \<longleftrightarrow> - (2 ^ 63) \<le> n \<and> n < 2 ^ 63"

lemma go_int_word: "go_int n \<Longrightarrow> sint (of_int n :: 64 word) = n"
  by (simp add: go_int_def int_word_sint)

lemma answers_limiter:
  assumes "go_int n" "sorted (map fst evs)"
  shows "answers_for ip (run_rl bucket_api (NewRateLimiter n) evs) =
    run_limiter bucket_api (tb_new (limit_of n) (go_div n 4)) (times_of ip evs)"
  using bucket.answers_new [of "NewRateLimiter n" "of_int n" evs ip] assms(2) go_int_word [OF assms(1)]
  by (simp add: NewRateLimiter_def)

text \<open>
  Clients do not disturb each other and the cleanup is not noticed: over any history of requests and
  cleanups, the answers a client gets are those of a limiter of its own, asked at the times of its own
  requests, although idle limiters are dropped and made anew.
\<close>

theorem rate_limiter_per_client:
  assumes "go_int perMinute" "sorted (map fst evs)"
  shows "answers_for ip (run_rl bucket_api (NewRateLimiter perMinute) evs) =
    run_limiter bucket_api (tb_new (limit_of perMinute) (go_div perMinute 4)) (times_of ip evs)"
  by (rule answers_limiter [OF assms])

definition some_events :: "(int \<times> rl_event) list" where
  "some_events =
     [(0, RLRequest ''a''), (1, RLRequest ''b''), (2, RLRequest ''a''), (3, RLRequest ''a''),
      (700 * 10 ^ 9, RLCleanup), (701 * 10 ^ 9, RLRequest ''a'')]"

theorem rate_limiter_per_client_witness:
  "answers_for ''a'' (run_rl bucket_api (NewRateLimiter 8) some_events) =
     run_limiter bucket_api (tb_new (limit_of 8) 2) [0, 2, 3, 701 * 10 ^ 9]"
  using rate_limiter_per_client [of 8 some_events "''a''"]
  by (simp add: go_int_def some_events_def go_div_def)

section \<open>The bound\<close>

fun limiter_after :: "'l limiter_api \<Rightarrow> 'l \<Rightarrow> int list \<Rightarrow> 'l" where
  "limiter_after api l [] = l"
| "limiter_after api l (t # ts) = limiter_after api (snd (allow api t l)) ts"

lemma run_limiter_append:
  "run_limiter api l (ts @ us) = run_limiter api l ts @ run_limiter api (limiter_after api l ts) us"
  by (induction ts arbitrary: l) (auto split: prod.splits)

lemma length_run_limiter [simp]: "length (run_limiter api l ts) = length ts"
  by (induction ts arbitrary: l) (auto split: prod.splits)

lemma times_of_append: "times_of ip (xs @ ys) = times_of ip xs @ times_of ip ys"
  by (induction ip xs rule: times_of.induct) simp_all

lemma set_times_of: "set (times_of ip evs) \<subseteq> fst ` set evs"
  by (induction ip evs rule: times_of.induct) auto

lemma sorted_times_of: "sorted (map fst evs) \<Longrightarrow> sorted (times_of ip evs)"
  by (induction ip evs rule: times_of.induct) (use set_times_of in fastforce)+

lemma limiter_after_used:
  assumes "0 < r" "1 \<le> b"
  shows "tb_used r b l u \<Longrightarrow> sorted (u # ts) \<Longrightarrow> list_all2 (read_within lag) ts cs \<Longrightarrow>
    tb_used r b (limiter_after bucket_api l cs) (last (u # ts))"
proof (induction ts arbitrary: l u cs)
  case (Cons t ts)
  from Cons.prems(3) obtain c cs' where cs: "cs = c # cs'" "read_within lag t c" "list_all2 (read_within lag) ts cs'"
    by (cases cs) simp_all
  then have "c \<le> t" by (simp add: read_within_def)
  have "tb_used r b (snd (tb_allow c l)) t"
    using used_step [of r b l u t c] Cons.prems(1,2) \<open>c \<le> t\<close> assms by simp
  from Cons.IH [OF this _ cs(3)] Cons.prems(2) cs(1) show ?case by simp
qed simp

lemma used_fresh: "1 \<le> b \<Longrightarrow> 0 < r \<Longrightarrow> 0 \<le> u \<Longrightarrow> tb_used r b (tb_new r b) u"
  using burst_pos [of b] by (simp add: tb_used_def tb_new_def zero_time_def order_trans [of _ 0])

text \<open>
  A request is a pair: the time at which the limiter is locked, and the clock that was read for it, at most \<open>lag\<close>
  before. A limiter of its own is asked with the clocks, in the order of the locks.
\<close>

definition asked :: "'l limiter_api \<Rightarrow> 'l \<Rightarrow> (int \<times> int) list \<Rightarrow> (int \<times> bool) list" where
  "asked api l qs = zip (map fst qs) (run_limiter api l (map snd qs))"

lemma asked_append: "asked api l (ps @ qs) = asked api l ps @ asked api (limiter_after api l (map snd ps)) qs"
  by (simp add: asked_def run_limiter_append)

lemma asked_same: "asked api l (map (\<lambda>t. (t, t)) ts) = zip ts (run_limiter api l ts)"
  by (simp add: asked_def comp_def)

definition timely_clocks :: "int \<Rightarrow> (int \<times> int) list \<Rightarrow> bool" where
  "timely_clocks lag qs \<longleftrightarrow> list_all (\<lambda>(t, c). 0 \<le> t \<and> read_within lag t c) qs"

lemma timely_clocks_simps [simp]:
  "timely_clocks lag (ps @ qs) = (timely_clocks lag ps \<and> timely_clocks lag qs)"
  "timely_clocks 0 (map (\<lambda>t. (t, t)) ts) = list_all (\<lambda>t. 0 \<le> t) ts"
  by (simp_all add: timely_clocks_def read_within_def list_all_iff ball_Un)

lemma timely_zip: "timely_clocks lag qs \<Longrightarrow> list_all2 (read_within lag) (map fst qs) (map snd qs)"
  by (induction qs) (auto simp: timely_clocks_def)

text \<open>The requests before \<open>a\<close>, and then the window from \<open>a\<close> to \<open>b\<close>.\<close>

lemma granted_window:
  assumes "4 \<le> perMinute" "perMinute < 2 ^ 55" "sorted (map fst (pre @ win))" "timely_clocks lag (pre @ win)"
    and "\<forall>q \<in> set pre. fst q \<le> a" "\<forall>q \<in> set win. a \<le> fst q \<and> fst q \<le> b" "0 \<le> a" "a \<le> b"
  shows "of_nat (granted (run_limiter bucket_api
      (limiter_after bucket_api (tb_new (limit_of perMinute) (go_div perMinute 4)) (map snd pre)) (map snd win))) *
      (1 - of_int (go_div perMinute 4) / 2 ^ 45 - limit_of perMinute * of_int lag / 10 ^ 9)
    \<le> of_int (go_div perMinute 4) + limit_of perMinute * of_int (b - a + 2) / 10 ^ 9"
proof -
  let ?r = "limit_of perMinute" and ?b = "go_div perMinute 4"
  let ?l = "limiter_after bucket_api (tb_new ?r ?b) (map snd pre)"
  have ok: "rate_ok ?r ?b" using assms(1,2) by (intro limit_ok) simp_all
  then have r: "0 < ?r" and bur: "1 \<le> ?b" by (simp_all add: rate_ok_def)
  have small: "?b < 2 ^ 53" using assms(1,2) by (simp add: go_div_def)
  have clocks: "list_all2 (read_within lag) (map fst pre) (map snd pre)"
    "list_all2 (read_within lag) (map fst win) (map snd win)" using assms(4) timely_zip by simp_all
  have "sorted (0 # map fst pre)"
    using assms(3,4) by (auto simp: sorted_append timely_clocks_def list_all_iff)
  from limiter_after_used [OF r bur used_fresh [OF bur r order.refl] this clocks(1)]
  have used: "tb_used ?r ?b ?l (last (0 # map fst pre))" .
  have la: "last (0 # map fst pre) \<le> a" using assms(5,7) by (cases pre rule: rev_cases) simp_all
  have win: "sorted (a # map fst win)" "\<forall>t \<in> set (map fst win). t \<le> b"
    using assms(3,6) by (auto simp: sorted_append)
  have lim: "tb_burst ?l = ?b" using used by (simp add: tb_used_def)
  have "of_nat (granted (run_limiter bucket_api ?l (map snd win))) * (1 - of_int ?b / 2 ^ 45 - ?r * of_int lag / 10 ^ 9)
      \<le> level ?l a + ?r * of_int (b - a) / 10 ^ 9 + 2 * ?r / 10 ^ 9"
    by (rule granted_bound [OF ok small used la win assms(8) clocks(2)])
  moreover have "level ?l a \<le> of_int ?b" by (simp add: level_def lim)
  moreover have "?r * of_int (b - a) / 10 ^ 9 + 2 * ?r / 10 ^ 9 = ?r * of_int (b - a + 2) / 10 ^ 9"
    by (simp add: field_simps)
  ultimately show ?thesis by linarith
qed

text \<open>What a limiter of its own grants between \<open>a\<close> and \<open>b\<close>, whenever it is asked.\<close>

lemma sorted_parts:
  "sorted (map f qs) \<Longrightarrow> qs = filter (\<lambda>q. f q < a) qs @ filter (\<lambda>q. \<not> f q < (a :: int)) qs"
proof (induction qs)
  case (Cons q qs)
  show ?case
  proof (cases "f q < a")
    case False
    with Cons.prems have "filter (\<lambda>q. f q < a) qs = []" "filter (\<lambda>q. \<not> f q < a) qs = qs"
      by (auto simp: filter_empty_conv filter_id_conv)
    with False show ?thesis by simp
  qed (use Cons in simp)
qed simp

definition granted_in :: "int \<Rightarrow> int \<Rightarrow> (int \<times> bool) list \<Rightarrow> nat" where
  "granted_in a b ds = length (filter (\<lambda>(t, ok). a \<le> t \<and> t \<le> b \<and> ok) ds)"

lemma granted_in_append [simp]: "granted_in a b (xs @ ys) = granted_in a b xs + granted_in a b ys"
  by (simp add: granted_in_def)

lemma granted_in_outside: "list_all (\<lambda>q. \<not> (a \<le> fst q \<and> fst q \<le> b)) qs \<Longrightarrow> granted_in a b (asked api l qs) = 0"
  by (auto simp: granted_in_def asked_def filter_empty_conv list_all_iff dest!: set_zip_leftD)

lemma granted_in_le: "granted_in a b (asked api l qs) \<le> granted (run_limiter api l (map snd qs))"
proof -
  have "granted_in a b (zip ts oks) \<le> granted oks" for ts oks
  proof (induction ts arbitrary: oks)
    case (Cons t ts)
    show ?case
    proof (cases oks)
      case (Cons ok oks')
      with Cons.IH [of oks'] show ?thesis by (auto simp: granted_in_def)
    qed (simp add: granted_in_def granted_def)
  qed (simp add: granted_in_def)
  then show ?thesis by (simp add: asked_def)
qed

text \<open>
  Each granted request is charged a token, less the rounding of \<open>float64\<close> (which matters for a burst of \<open>2 ^ 45\<close>)
  and less what is credited twice when clocks are behind.
\<close>

definition charge :: "int \<Rightarrow> int \<Rightarrow> rat" where
  "charge perMinute lag = 1 - of_int (go_div perMinute 4) / 2 ^ 45 - limit_of perMinute * of_int lag / 10 ^ 9"

definition inflow :: "int \<Rightarrow> int \<Rightarrow> rat" where
  "inflow perMinute d = of_int (go_div perMinute 4) + limit_of perMinute * of_int (d + 2) / 10 ^ 9"

lemma inflow_nonneg:
  assumes "4 \<le> perMinute" "perMinute < 2 ^ 63" "0 \<le> d"
  shows "0 \<le> inflow perMinute d"
  using limit_ok [OF assms(1,2)] assms(3) by (simp add: inflow_def rate_ok_def)

lemma charge_large:
  assumes "2 ^ 55 \<le> perMinute" "perMinute < 2 ^ 63" "0 \<le> lag"
  shows "charge perMinute lag \<le> 0"
proof -
  have "2 ^ 53 \<le> go_div perMinute 4" using assms(1) by (simp add: go_div_def)
  then have "(of_int (2 ^ 53) :: rat) \<le> of_int (go_div perMinute 4)" by (simp only: of_int_le_iff)
  moreover have "0 \<le> limit_of perMinute * of_int lag / 10 ^ 9"
    using limit_ok [of perMinute] assms by (simp add: rate_ok_def)
  ultimately show ?thesis by (simp add: charge_def)
qed

lemma fewer_charged:
  assumes "n \<le> m" "of_nat m * k \<le> (s :: rat)" "0 \<le> s"
  shows "of_nat n * k \<le> s"
proof (cases "0 \<le> k")
  case True
  then have "of_nat n * k \<le> of_nat m * k" using assms(1) by (intro mult_right_mono) simp_all
  with assms(2) show ?thesis by linarith
next
  case False
  then have "of_nat n * k \<le> 0" by (intro mult_nonneg_nonpos) simp_all
  with assms(3) show ?thesis by linarith
qed

lemma granted_between:
  assumes "go_int perMinute" "4 \<le> perMinute" "sorted (map fst qs)" "timely_clocks lag qs" "0 \<le> lag" "0 \<le> a" "a \<le> b"
  shows "of_nat (granted_in a b (asked bucket_api (tb_new (limit_of perMinute) (go_div perMinute 4)) qs)) *
    charge perMinute lag \<le> inflow perMinute (b - a)"
proof (cases "perMinute < 2 ^ 55")
  case False
  have p: "perMinute < 2 ^ 63" using assms(1) by (simp add: go_int_def)
  have "charge perMinute lag \<le> 0" using False p assms(5) by (intro charge_large) simp_all
  then have "of_nat n * charge perMinute lag \<le> 0" for n by (intro mult_nonneg_nonpos) simp_all
  with inflow_nonneg [OF assms(2) p, of "b - a"] assms(7) show ?thesis by (meson diff_ge_0_iff_ge order_trans)
next
  case True
  let ?l = "tb_new (limit_of perMinute) (go_div perMinute 4)"
  let ?pre = "filter (\<lambda>q. fst q < a) qs" and ?rest = "filter (\<lambda>q. \<not> fst q < a) qs"
  let ?win = "filter (\<lambda>q. fst q < b + 1) ?rest" and ?post = "filter (\<lambda>q. \<not> fst q < b + 1) ?rest"
  let ?l1 = "limiter_after bucket_api ?l (map snd ?pre)"
  have qs: "qs = ?pre @ ?win @ ?post"
    by (subst sorted_parts [OF assms(3), of a], subst sorted_parts [of fst ?rest "b + 1"])
      (rule sorted_filter [OF assms(3)], rule refl)
  have "sorted (map fst (?pre @ ?win @ ?post))" using assms(3) qs by simp
  then have s: "sorted (map fst (?pre @ ?win))" by (metis append_assoc map_append sorted_append)
  have t: "timely_clocks lag (?pre @ ?win)" using assms(4) by (auto simp: timely_clocks_def list_all_iff)
  have out: "granted_in a b (asked bucket_api l ?pre) = 0" "granted_in a b (asked bucket_api l ?post) = 0" for l
    by (rule granted_in_outside, auto simp: list_all_iff)+
  have n: "granted_in a b (asked bucket_api ?l qs) = granted_in a b (asked bucket_api ?l1 ?win)"
    by (subst qs) (simp only: asked_append granted_in_append out add_0 add_0_right)
  have w: "of_nat (granted (run_limiter bucket_api ?l1 (map snd ?win))) * charge perMinute lag \<le> inflow perMinute (b - a)"
    unfolding charge_def inflow_def by (rule granted_window [OF assms(2) True s t _ _ assms(6,7)]) auto
  have "0 \<le> inflow perMinute (b - a)" using assms(1,2,7) by (intro inflow_nonneg) (simp_all add: go_int_def)
  from fewer_charged [OF granted_in_le w this] show ?thesis unfolding n .
qed

lemma granted_between_times:
  assumes "go_int perMinute" "4 \<le> perMinute" "sorted ts" "\<forall>t \<in> set ts. 0 \<le> t" "0 \<le> a" "a \<le> b"
  shows "of_nat (granted_in a b (zip ts (run_limiter bucket_api (tb_new (limit_of perMinute) (go_div perMinute 4)) ts))) *
    charge perMinute 0 \<le> inflow perMinute (b - a)"
  using granted_between [of perMinute "map (\<lambda>t. (t, t)) ts" 0 a b] assms by (simp add: asked_same comp_def list_all_iff)

text \<open>
  C39. A configured rate below four requests per minute makes the burst zero: then every request is
  refused, the first one too.
\<close>

theorem low_rate_refuses_all:
  assumes "go_int perMinute" "perMinute < 4" "sorted (map fst evs)"
  shows "\<forall>d \<in> set (run_rl bucket_api (NewRateLimiter perMinute) evs). \<not> snd d"
proof
  fix d assume d: "d \<in> set (run_rl bucket_api (NewRateLimiter perMinute) evs)"
  have "tb_burst l < 1 \<Longrightarrow> \<not> list_ex id (run_limiter bucket_api l ts)" for l ts
    by (induction ts) (simp_all add: tb_allow_def)
  then have "\<not> list_ex id (answers_for (fst d) (run_rl bucket_api (NewRateLimiter perMinute) evs))"
    using no_burst [OF assms(2)] by (simp add: answers_limiter [OF assms(1,3)] tb_new_def)
  moreover have "snd d \<in> set (answers_for (fst d) (run_rl bucket_api (NewRateLimiter perMinute) evs))"
    using d by (auto simp: answers_for_def)
  ultimately show "\<not> snd d" by (auto simp: list_ex_iff)
qed

theorem low_rate_refuses_all_witness:
  "run_rl bucket_api (NewRateLimiter 3) [(0, RLRequest ''a'')] = [(''a'', False)]"
proof -
  have "\<forall>d \<in> set (run_rl bucket_api (NewRateLimiter 3) [(0, RLRequest ''a'')]). \<not> snd d"
    by (rule low_rate_refuses_all) (simp_all add: go_int_def)
  then show ?thesis by (auto split: prod.splits)
qed

end
