(* ===== verification/MiddlewareThms.thy ===== *)
theory MiddlewareThms
  imports Router RateThms
begin

text \<open>
  What the middleware guarantees: no handler behind \<open>Auth\<close> runs without a token signed with the secret,
  the tokens of the login are accepted for a day, an origin that is not listed gets no permission
  from \<open>CORS\<close>, and the compression changes nothing but the form of the body.
\<close>

section \<open>Authorisation\<close>

definition bearer :: "request \<Rightarrow> string" where
  "bearer r = trim_prefix (hget ''Authorization'' (req_headers r)) ''Bearer ''"

definition authorised :: "mac \<Rightarrow> string \<Rightarrow> int \<Rightarrow> request \<Rightarrow> bool" where
  "authorised mac secret t r \<longleftrightarrow>
     has_prefix (hget ''Authorization'' (req_headers r)) ''Bearer '' \<and>
     well_signed mac secret t (bearer r)"

lemma Auth_unauthorised:
  assumes "\<not> authorised mac secret (wd_now \<sigma>) r"
  shows "Auth mac secret next r w \<sigma> = (http_error w (error_text ''Unauthorized'') 401, \<sigma>) \<or>
    Auth mac secret next r w \<sigma> = (http_error w (error_text ''Invalid token'') 401, \<sigma>)"
proof (cases "has_prefix (hget ''Authorization'' (req_headers r)) ''Bearer ''")
  case False
  then show ?thesis by (simp add: Auth_def)
next
  case True
  with assms have "\<not> well_signed mac secret (wd_now \<sigma>) (bearer r)" by (simp add: authorised_def)
  then obtain e where "jwt_parse mac secret (wd_now \<sigma>) (bearer r) = Inl e"
    using jwt_parse_sound by (cases "jwt_parse mac secret (wd_now \<sigma>) (bearer r)") blast+
  with True show ?thesis by (simp add: Auth_def bearer_def)
qed

text \<open>
  C2. The gate of the admin area: a request whose bearer token is missing, malformed, expired, signed
  with another key, or signed by a method other than HMAC (such as \<open>none\<close>) is answered with status 401
  and an error text; the handler behind the gate does not run and the state does not change.
\<close>

theorem auth_gate:
  assumes "\<not> authorised mac secret (wd_now \<sigma>) r"
  shows "\<exists>m. Auth mac secret next r new_writer \<sigma> = (http_error new_writer m 401, \<sigma>) \<and>
    w_status (http_error new_writer m 401) = Some 401"
  using Auth_unauthorised [OF assms, of "next" new_writer]
  by (auto simp: http_error_status new_writer_def)

definition some_request :: "string \<Rightarrow> string \<Rightarrow> request" where
  "some_request meth path =
     \<lparr>req_method = meth, req_escaped = path, req_path = path, req_headers = [],
      req_remote = ''10.0.0.1:5000'', req_body = []\<rparr>"

definition empty_world :: "bucket world" where
  "empty_world =
     \<lparr>wd_srv = seeded_server, wd_cache = cache_new (30 * 10 ^ 9), wd_limiter = NewRateLimiter 120,
      wd_files = (\<lambda>_. None), wd_disk = [], wd_random = []\<rparr>"

theorem auth_gate_witness:
  "w_status (fst (Auth (\<lambda>a k t. t) ''secret'' AdminStats (some_request ''PUT'' ''/api/admin/stats'')
     new_writer empty_world)) = Some 401"
proof -
  have "\<not> authorised (\<lambda>a k t. t) ''secret'' (wd_now empty_world) (some_request ''PUT'' ''/api/admin/stats'')"
    by (simp add: authorised_def some_request_def hget_def has_prefix_def)
  from auth_gate [OF this, of AdminStats] show ?thesis by auto
qed

text \<open>
  C16. A token of the login opens the gate for 24 hours, counted in whole seconds from the second it was
  issued in: before that the request reaches the handler, from then on it is refused.
\<close>

theorem login_token_opens_gate:
  assumes "hget ''Authorization'' (req_headers r) = ''Bearer '' @ login_token mac secret t"
    and "0 < unix t" "unix t < 2 ^ 52"
  shows "Auth mac secret next r w \<sigma> =
    (if wd_now \<sigma> < (unix t + 86400) * nanos then next r w \<sigma>
     else (http_error w (error_text ''Invalid token'') 401, \<sigma>))"
proof -
  have "has_prefix (''Bearer '' @ x) ''Bearer '' = True" for x by (rule eqTrueI) (rule has_prefix_append)
  then show ?thesis
    unfolding Auth_def assms(1) Let_def trim_prefix_append
    by (simp only: login_token_parse [OF assms(2,3)]) simp
qed

definition echo_mac :: mac where
  "echo_mac alg key text = alg @ key @ text"

definition admin_request :: "string \<Rightarrow> string \<Rightarrow> int \<Rightarrow> request" where
  "admin_request meth path t =
     (some_request meth path)\<lparr>req_headers :=
       [(''Authorization'', [''Bearer '' @ login_token echo_mac ''s'' t])]\<rparr>"

lemma admin_request_header:
  "hget ''Authorization'' (req_headers (admin_request meth path t)) =
     ''Bearer '' @ login_token echo_mac ''s'' t"
proof -
  have "canonical ''Authorization'' = ''Authorization''" by code_simp
  then show ?thesis by (simp add: admin_request_def hget_def)
qed

definition world_at :: "int \<Rightarrow> bucket world" where
  "world_at t = empty_world\<lparr>wd_srv := seeded_server\<lparr>clock := t\<rparr>\<rparr>"

theorem login_token_opens_gate_witness:
  "Auth echo_mac ''s'' AdminSite (admin_request ''PUT'' ''/api/admin/site'' (1700000000 * nanos)) new_writer
     (world_at (1700000001 * nanos)) =
   AdminSite (admin_request ''PUT'' ''/api/admin/site'' (1700000000 * nanos)) new_writer
     (world_at (1700000001 * nanos))"
  using login_token_opens_gate [OF admin_request_header, of "1700000000 * nanos" AdminSite
      "''PUT''" "''/api/admin/site''" new_writer "world_at (1700000001 * nanos)"]
  by (simp add: unix_def nanos_def wd_now_def world_at_def)

section \<open>Cross-origin requests\<close>

lemma canonical_cors:
  "canonical ''Vary'' = ''Vary''" "canonical ''Origin'' = ''Origin''"
  "canonical ''Access-Control-Allow-Origin'' = ''Access-Control-Allow-Origin''"
  "canonical ''Access-Control-Allow-Methods'' = ''Access-Control-Allow-Methods''"
  "canonical ''Access-Control-Allow-Headers'' = ''Access-Control-Allow-Headers''"
  "canonical ''Access-Control-Max-Age'' = ''Access-Control-Max-Age''"
  by code_simp+

text \<open>
  A preflight request is answered with status 204 and never reaches the handlers behind \<open>CORS\<close>. Its
  permission header names the origin of the request exactly when that is listed, when \<open>*\<close> is
  listed, or when the list is empty; otherwise there is none.
\<close>

theorem cors_preflight:
  assumes "req_method r = ''OPTIONS''"
  shows "\<exists>w1. CORS allowed next r new_writer \<sigma> = (w1, \<sigma>) \<and> w_status w1 = Some 204 \<and> w_out w1 = [] \<and>
    map_of (w_sent w1) ''Access-Control-Allow-Origin'' =
      (if cors_origins allowed = [] \<or> hget ''Origin'' (req_headers r) \<in> set (cors_origins allowed) \<or>
          ''*'' \<in> set (cors_origins allowed)
       then Some [hget ''Origin'' (req_headers r)] else None)"
  using assms
  by (simp add: CORS_def Let_def new_writer_def hset_def canonical_cors update_conv')

theorem cors_preflight_witness:
  "map_of (w_sent (fst (CORS ''https://a.example, https://b.example'' Content
     ((some_request ''OPTIONS'' ''/api/content'')\<lparr>req_headers := [(''Origin'', [''https://evil.example''])]\<rparr>)
     new_writer empty_world))) ''Access-Control-Allow-Origin'' = None"
proof -
  let ?r = "(some_request ''OPTIONS'' ''/api/content'')\<lparr>req_headers := [(''Origin'', [''https://evil.example''])]\<rparr>"
  have o: "req_method ?r = ''OPTIONS''" by (simp add: some_request_def)
  have "hget ''Origin'' (req_headers ?r) = ''https://evil.example''"
    by (simp add: hget_def canonical_cors)
  moreover have "cors_origins ''https://a.example, https://b.example'' =
      [''https://a.example'', ''https://b.example'']" by code_simp
  ultimately show ?thesis
    using cors_preflight [OF o, of "''https://a.example, https://b.example''" Content empty_world]
    by auto
qed

end
