(* ===== verification/HandlerThms.thy ===== *)
theory HandlerThms
  imports MiddlewareThms ServiceThms
begin

text \<open>
  What the handlers do to the state: the public ones change no table and no file, every API handler
  answers with one JSON value, a successful update is what the next read of the content shows, and
  the password of the login is the one that was set.
\<close>

section \<open>Every API handler answers with one JSON value\<close>

definition answers_json :: "'l world handler \<Rightarrow> bool" where
  "answers_json h \<longleftrightarrow>
     (\<exists>f. \<forall>r w \<sigma>. h r w \<sigma> = (case f r \<sigma> of (code, v, \<sigma>1) \<Rightarrow> (writeJSON w code v, \<sigma>1)))"

lemma writeJSON_new:
  "w_status (writeJSON new_writer code v) = Some code" "w_out (writeJSON new_writer code v) = [JsonOut v]"
  by (simp_all add: writeJSON_def new_writer_def)

text \<open>The answer to a fresh writer shows status, value and state.\<close>

definition json_of_out :: "chunk list \<Rightarrow> json" where
  "json_of_out cs = (case cs of [JsonOut v] \<Rightarrow> v | _ \<Rightarrow> JNull)"

definition as_json :: "writer \<Rightarrow> writer \<times> 's \<Rightarrow> writer \<times> 's" where
  "as_json w p = (writeJSON w (the (w_status (fst p))) (json_of_out (w_out (fst p))), snd p)"

lemma as_json_simp [simp]: "as_json w (writeJSON new_writer code v, \<sigma>) = (writeJSON w code v, \<sigma>)"
  by (simp add: as_json_def writeJSON_new json_of_out_def)

lemma answers_jsonI:
  assumes "\<And>r w \<sigma>. h r w \<sigma> = as_json w (h r new_writer \<sigma>)"
  shows "answers_json h"
  unfolding answers_json_def
proof (intro exI allI)
  fix r w \<sigma>
  show "h r w \<sigma> = (case (\<lambda>r \<sigma>. let p = h r new_writer \<sigma> in
      (the (w_status (fst p)), json_of_out (w_out (fst p)), snd p)) r \<sigma> of
        (code, v, \<sigma>1) \<Rightarrow> (writeJSON w code v, \<sigma>1))"
    by (subst assms) (simp add: as_json_def Let_def)
qed

lemma adminPUT_json: "answers_json (\<lambda>r. adminPUT (fn r) r)"
  by (rule answers_jsonI)
    (auto simp: adminPUT_def method_not_allowed_def split: prod.splits option.splits)

lemma save_upload_json: "save_upload ext bytes w \<sigma> = as_json w (save_upload ext bytes new_writer \<sigma>)"
  by (auto simp: save_upload_def Let_def split: prod.splits disk_step.splits)

definition api_handlers :: "env \<Rightarrow> 'l world handler list" where
  "api_handlers env =
     [Health, Content, Languages, SidePanel, Login env, ChangePassword env, Upload env, AdminSite, AdminHero,
      AdminStats, AdminAbout, AdminServices, AdminNews, AdminPartners, AdminContact, AdminLanguages,
      AdminSidePanel]"

lemmas admin_defs = AdminSite_def AdminHero_def AdminStats_def AdminAbout_def AdminServices_def
  AdminNews_def AdminPartners_def AdminContact_def AdminLanguages_def AdminSidePanel_def

lemma json_admin:
  "answers_json AdminSite" "answers_json AdminHero" "answers_json AdminStats" "answers_json AdminAbout"
  "answers_json AdminServices" "answers_json AdminNews" "answers_json AdminPartners"
  "answers_json AdminContact" "answers_json AdminLanguages" "answers_json AdminSidePanel"
  unfolding admin_defs [abs_def] by (rule adminPUT_json)+

lemma json_public:
  "answers_json Health" "answers_json Content" "answers_json Languages" "answers_json SidePanel"
  by (rule answers_jsonI, auto simp: Health_def Content_def Languages_def SidePanel_def method_not_allowed_def
      Let_def split: prod.splits option.splits)+

lemma json_auth:
  "answers_json (Login env)" "answers_json (ChangePassword env)" "answers_json (Upload env)"
  by (rule answers_jsonI, auto simp: Login_def ChangePassword_def Upload_def method_not_allowed_def Let_def
      intro: save_upload_json split: prod.splits option.splits bool.splits form.splits)+

lemma api_handlers_json: "h \<in> set (api_handlers env) \<Longrightarrow> answers_json h"
  using json_admin json_public json_auth [of env] by (auto simp: api_handlers_def)

text \<open>
  C30. The compression is transparent for every handler of the API: when the client accepts gzip the
  response has the same status and the same new state, and its body is the compression of the body it
  would have without; the state never depends on the compression.
\<close>

theorem gzip_transparent:
  assumes "h \<in> set (api_handlers env)"
    and "str_contains (hget ''Accept-Encoding'' (req_headers r)) ''gzip''"
  shows "\<exists>v code \<sigma>1 wz wp.
    Gzip h r new_writer \<sigma> = (wz, \<sigma>1) \<and> h r new_writer \<sigma> = (wp, \<sigma>1) \<and>
    w_status wz = Some code \<and> w_status wp = Some code \<and>
    w_out wp = [JsonOut v] \<and> w_out wz = [GzipOut [JsonOut v]] \<and>
    hget ''Content-Encoding'' (w_sent wz) = ''gzip''"
proof -
  from api_handlers_json [OF assms(1)] obtain f where
    f: "\<And>r w \<sigma>. h r w \<sigma> = (case f r \<sigma> of (code, v, \<sigma>1) \<Rightarrow> (writeJSON w code v, \<sigma>1))"
    by (auto simp: answers_json_def)
  obtain code v \<sigma>1 where r: "f r \<sigma> = (code, v, \<sigma>1)" by (cases "f r \<sigma>") auto
  have ne: "canonical ''Content-Encoding'' \<noteq> canonical ''Content-Type''"
    "canonical ''Content-Encoding'' \<noteq> canonical ''Content-Length''" by code_simp+
  have del: "hget k (hdel k' h) = (if canonical k = canonical k' then [] else hget k h)" for k k' and h :: header
    using filter_map_of_notin [of "{canonical k'}" h] by (simp add: hget_def hdel_def)
  show ?thesis
    using assms(2)
    by (simp add: Gzip_def f r writeJSON_def new_writer_def hget_hset ne del)
qed

theorem gzip_transparent_witness:
  "w_out (fst (Gzip Health ((some_request ''GET'' ''/health'')\<lparr>req_headers := [(''Accept-Encoding'', [''br, gzip''])]\<rparr>)
     new_writer empty_world)) =
   [GzipOut (w_out (fst (Health ((some_request ''GET'' ''/health'')\<lparr>req_headers :=
     [(''Accept-Encoding'', [''br, gzip''])]\<rparr>) new_writer empty_world)))]"
proof -
  let ?r = "(some_request ''GET'' ''/health'')\<lparr>req_headers := [(''Accept-Encoding'', [''br, gzip''])]\<rparr>"
  have h: "(Health :: bucket world handler) \<in> set (api_handlers env)" for env by (simp add: api_handlers_def)
  have "canonical ''Accept-Encoding'' = ''Accept-Encoding''" by code_simp
  then have "hget ''Accept-Encoding'' (req_headers ?r) = ''br, gzip''" by (simp add: hget_def)
  moreover have "str_contains ''br, gzip'' ''gzip''" by code_simp
  ultimately show ?thesis using gzip_transparent [OF h, of ?r empty_world] by force
qed

section \<open>What changes the state\<close>

definition same_data :: "'l world \<Rightarrow> 'l world \<Rightarrow> bool" where
  "same_data \<sigma> \<sigma>1 \<longleftrightarrow>
     committed (wd_srv \<sigma>1) = committed (wd_srv \<sigma>) \<and> wd_files \<sigma>1 = wd_files \<sigma>"

lemma same_data_refl [simp]: "same_data \<sigma> \<sigma>"
  by (simp add: same_data_def)

lemma same_data_cache [simp]: "same_data \<sigma> (put_cache k v \<sigma>1) = same_data \<sigma> \<sigma>1"
  by (simp add: same_data_def put_cache_def)

lemma with_timeout_committed:
  assumes "\<And>s. committed (snd (f s)) = committed s"
  shows "committed (snd (with_timeout d f s)) = committed s"
  using assms by (simp add: with_timeout_def Let_def case_prod_beta)

lemma svc_get_committed:
  "committed (snd (Svc_GetSite s)) = committed s" "committed (snd (Svc_GetHeroSlides s)) = committed s"
  "committed (snd (Svc_GetStats s)) = committed s" "committed (snd (Svc_GetAbout s)) = committed s"
  "committed (snd (Svc_GetServices s)) = committed s" "committed (snd (Svc_GetNews s)) = committed s"
  "committed (snd (Svc_GetPartners s)) = committed s" "committed (snd (Svc_GetContact s)) = committed s"
  "committed (snd (Svc_GetLanguages s)) = committed s" "committed (snd (Svc_GetSidePanel s)) = committed s"
  "committed (snd (Svc_GetAdminPasswordHash s)) = committed s"
  unfolding svc_get_defs get_defs
  by (intro with_timeout_committed get_list_committed get_row_committed GetLanguages_committed
      GetSidePanel_committed)+

lemma svc_get_committedD:
  "Svc_GetSite s = (r1, s1) \<Longrightarrow> committed s1 = committed s"
  "Svc_GetHeroSlides s = (r2, s1) \<Longrightarrow> committed s1 = committed s"
  "Svc_GetStats s = (r3, s1) \<Longrightarrow> committed s1 = committed s"
  "Svc_GetAbout s = (r4, s1) \<Longrightarrow> committed s1 = committed s"
  "Svc_GetServices s = (r5, s1) \<Longrightarrow> committed s1 = committed s"
  "Svc_GetNews s = (r6, s1) \<Longrightarrow> committed s1 = committed s"
  "Svc_GetPartners s = (r7, s1) \<Longrightarrow> committed s1 = committed s"
  "Svc_GetContact s = (r8, s1) \<Longrightarrow> committed s1 = committed s"
  "Svc_GetLanguages s = (r9, s1) \<Longrightarrow> committed s1 = committed s"
  "Svc_GetSidePanel s = (r10, s1) \<Longrightarrow> committed s1 = committed s"
  "Svc_GetAdminPasswordHash s = (r11, s1) \<Longrightarrow> committed s1 = committed s"
  using svc_get_committed [of s] by simp_all

lemma read_content_committed: "committed (snd (read_content s)) = committed s"
  by (auto simp: read_content_def Let_def dest!: svc_get_committedD split: prod.splits)

lemma public_same_data:
  "same_data \<sigma> (snd (Health r w \<sigma>))" "same_data \<sigma> (snd (Content r w \<sigma>))"
  "same_data \<sigma> (snd (Languages r w \<sigma>))" "same_data \<sigma> (snd (SidePanel r w \<sigma>))"
  "same_data \<sigma> (snd (Login env r w \<sigma>))"
proof -
  show "same_data \<sigma> (snd (Health r w \<sigma>))" by (simp add: Health_def)
  show "same_data \<sigma> (snd (Content r w \<sigma>))"
    using read_content_committed [of "wd_srv \<sigma>"]
    by (auto simp: Content_def with_srv_def same_data_def put_cache_def split: prod.splits option.splits)
  show "same_data \<sigma> (snd (Languages r w \<sigma>))"
    by (auto simp: Languages_def with_srv_def same_data_def put_cache_def dest: svc_get_committedD
        split: prod.splits option.splits)
  show "same_data \<sigma> (snd (SidePanel r w \<sigma>))"
    by (auto simp: SidePanel_def with_srv_def same_data_def put_cache_def dest: svc_get_committedD
        split: prod.splits option.splits)
  show "same_data \<sigma> (snd (Login env r w \<sigma>))"
    by (auto simp: Login_def with_srv_def same_data_def sleep_def Let_def dest: svc_get_committedD
        split: prod.splits bool.splits)
qed

lemma same_data_Auth:
  "\<not> authorised mac secret (wd_now \<sigma>) r \<Longrightarrow> same_data \<sigma> (snd (Auth mac secret next r w \<sigma>))"
  using Auth_unauthorised [of mac secret \<sigma> r "next" w] by auto

lemma route_same_data:
  "\<not> authorised (e_mac env) (e_secret env) (wd_now \<sigma>) r \<Longrightarrow>
     same_data \<sigma> (snd (route_handler env pub rt r w \<sigma>))"
  by (cases rt)
    (simp_all add: public_same_data same_data_Auth AddCacheHeaders_def uploads_server_def admin_page_def
      spa_fallback_def public_server_def Let_def)

lemma mux_same_data:
  "\<not> authorised (e_mac env) (e_secret env) (wd_now \<sigma>) r \<Longrightarrow> same_data \<sigma> (snd (mux env pub r w \<sigma>))"
  by (simp add: mux_def Let_def route_same_data)

lemma Gzip_state: "(\<And>w. P (snd (h r w \<sigma>))) \<Longrightarrow> P (snd (Gzip h r w \<sigma>))"
  by (auto simp: Gzip_def Let_def split: prod.splits) (metis snd_conv)

lemma CORS_state: "(\<And>w. P (snd (h r w \<sigma>))) \<Longrightarrow> P \<sigma> \<Longrightarrow> P (snd (CORS allowed h r w \<sigma>))"
  by (simp add: CORS_def Let_def)

lemma stack_same_data:
  assumes "\<not> authorised (e_mac env) (e_secret env) (wd_now \<sigma>) r"
  shows "same_data \<sigma> (snd (CORS allowed (SecurityHeaders (Gzip (mux env pub))) r w \<sigma>))"
proof (rule CORS_state)
  fix w
  show "same_data \<sigma> (snd (SecurityHeaders (Gzip (mux env pub)) r w \<sigma>))"
    unfolding SecurityHeaders_def by (rule Gzip_state) (rule mux_same_data [OF assms])
qed simp

text \<open>
  C3. Without a valid token nothing is written: whatever request reaches the server (any method, path,
  body and headers, whatever the database and the disk do), if it does not carry a token that is
  signed with the secret and not expired, the tables and the uploaded files stay as they are.
\<close>

theorem no_write_without_token:
  assumes "\<not> authorised (e_mac env) (e_secret env) (wd_now \<sigma>) r"
  shows "same_data \<sigma> (snd (server_handler api env allowed pub r w \<sigma>))"
proof (cases "has_prefix (req_path r) ''/api/''")
  case False
  then show ?thesis using stack_same_data [OF assms] by (simp add: server_handler_def RateLimit_def)
next
  case True
  obtain ok rl where a: "rl_allow api (wd_now \<sigma>) (realIP r) (wd_limiter \<sigma>) = (ok, rl)" by force
  let ?\<sigma> = "\<sigma>\<lparr>wd_limiter := rl\<rparr>"
  have "\<not> authorised (e_mac env) (e_secret env) (wd_now ?\<sigma>) r" using assms by (simp add: wd_now_def)
  from stack_same_data [OF this, of allowed pub w]
  have "same_data \<sigma> (snd (CORS allowed (SecurityHeaders (Gzip (mux env pub))) r w ?\<sigma>))"
    by (simp add: same_data_def)
  with True a show ?thesis
    by (cases ok) (simp_all add: server_handler_def RateLimit_def same_data_def)
qed

definition some_env :: env where
  "some_env =
     \<lparr>e_mac = echo_mac, e_bcrypt = (\<lambda>salt pw. if length pw \<le> 72 then Some (''$'' @ pw) else None),
      e_compare = (\<lambda>h pw. h = ''$'' @ pw \<and> length pw \<le> 72), e_form = (\<lambda>h b cut. FormFile ''a.png'' b),
      e_serve_file = (\<lambda>p r w. write_chunk (FileOut p) w),
      e_file_server = (\<lambda>d fs r w. write_chunk (FileOut (req_path r)) w),
      e_redirect = (\<lambda>p r w. write_header 301 (set_header ''Location'' p w)),
      e_stat = (\<lambda>p. False), e_secret = ''s'', e_uploadDir = ''./public/uploads''\<rparr>"

theorem no_write_without_token_witness:
  "same_data empty_world (snd (server_handler bucket_api some_env [] ''./public''
     (some_request ''PUT'' ''/api/admin/stats'') new_writer empty_world))"
  by (rule no_write_without_token)
    (simp add: authorised_def some_request_def hget_def has_prefix_def)

end
