(* ===== verification/SeedThms.thy ===== *)
theory SeedThms
  imports ServiceThms "HOL-Library.Sublist"
begin

text \<open>
  The first boot: the seed fills empty tables completely and reads back, it is all or nothing and so
  can be tried again, and on a database that has been seeded only missing languages are added.
\<close>

section \<open>Languages of the seed as a map of objects\<close>

definition lang_object :: "langmap \<Rightarrow> gomap" where
  "lang_object m = map (\<lambda>(k, v). (k, JStr v)) m"

definition lang_gomap :: "(string \<times> langmap) list \<Rightarrow> gomap" where
  "lang_gomap langs = map (\<lambda>(code, m). (code, JObj (lang_object m))) langs"

lemma filter_lang_object:
  "filter (\<lambda>p. P (fst p)) (lang_object m) = lang_object (filter (\<lambda>p. P (fst p)) m)"
  by (induction m) (auto simp: lang_object_def)

lemma map_of_lang_object: "map_of (lang_object m) k = map_option JStr (map_of m k)"
  by (induction m) (auto simp: lang_object_def)

lemma lang_rest_object:
  "lang_rest (lang_object m) = lang_object (filter (\<lambda>p. fst p \<noteq> ''flag'' \<and> fst p \<noteq> ''name'') m)"
  using filter_lang_object [of "\<lambda>k. k \<noteq> ''flag'' \<and> k \<noteq> ''name''" m] by (simp add: lang_rest_def)

lemma string_member_object: "string_member (lang_object m) k = lang_text m k"
  by (simp add: string_member_def map_of_lang_object lang_text_def split: option.splits)

lemma default_lang_vals_object: "default_lang_vals code m = lang_vals code (lang_object m)"
  by (simp add: default_lang_vals_def lang_vals_def lang_rest_object string_member_object
      lang_json_def lang_object_def [of "filter P m" for P])

lemma seed_lang_inserts:
  "map (\<lambda>(code, lang). Insert ''languages'' (default_lang_vals code lang) False) langs =
     lang_inserts (lang_gomap langs)"
  by (induction langs) (auto simp: lang_gomap_def default_lang_vals_object)

lemma fst_lang_gomap: "map fst (lang_gomap langs) = map fst langs"
  by (auto simp: lang_gomap_def)

lemma lang_rows_gomap: "lang_rows (lang_gomap langs) = map (\<lambda>(c, m). default_lang_vals c m) langs"
  by (induction langs) (auto simp: lang_gomap_def default_lang_vals_object)

text \<open>What the iteration over \<open>DefaultLanguages()\<close> gives: its entries in some order.\<close>

definition default_order :: "(string \<times> langmap) list \<Rightarrow> bool" where
  "default_order langs \<longleftrightarrow> mset langs = mset DefaultLanguages"

lemma char_of_nul: "char_of k = CHR 0x00 \<longleftrightarrow> k mod 256 = (0::nat)"
proof
  assume "char_of k = CHR 0x00"
  then have "of_char (char_of k :: char) = (of_char (CHR 0x00) :: nat)" by simp
  then show "k mod 256 = 0" by simp
next
  assume "k mod 256 = 0"
  then have "(of_char (char_of k :: char) :: nat) = of_char (CHR 0x00)" by simp
  then show "char_of k = CHR 0x00" by (simp only: of_char_eq_iff)
qed

lemma no_nul_utf8_char:
  assumes "0 < n" "n < 0x110000"
  shows "no_nul (utf8_char n)"
proof -
  have lo: "k mod 256 \<noteq> 0" if "0 < k" "k < 256" for k :: nat using that by simp
  have a: "(0xC0 + n div 0x40) mod 256 \<noteq> 0" if "n < 0x800"
    by (rule lo) (use that in linarith)+
  have b: "(0x80 + m mod 0x40) mod 256 \<noteq> 0" for m :: nat
    by (rule lo) linarith+
  have c: "(0xE0 + n div 0x1000) mod 256 \<noteq> 0" if "n < 0x10000"
    by (rule lo) (use that in linarith)+
  have d: "(0xF0 + n div 0x40000) mod 256 \<noteq> 0"
    by (rule lo) (use assms in linarith)+
  have e: "n mod 256 \<noteq> 0" if "n < 0x80"
    by (rule lo) (use that assms in linarith)+
  have nul: "k mod 256 \<noteq> 0 \<Longrightarrow> CHR 0x00 \<noteq> char_of k" for k :: nat
    using char_of_nul [of k] by auto
  show ?thesis
    unfolding utf8_char_def no_nul_def
    by (cases "n < 0x80"; cases "n < 0x800"; cases "n < 0x10000")
      (auto dest: nul [OF a] nul [OF c] simp only: list.set insert_iff empty_iff if_True if_False
        nul [OF b] nul [OF d] nul [OF e] simp_thms)
qed

lemma no_nul_utf8: "list_all (\<lambda>n. 0 < n \<and> n < 0x110000) ns \<Longrightarrow> no_nul (utf8 ns)"
  using no_nul_utf8_char by (auto simp: utf8_def no_nul_def list_all_iff)

lemma no_nul_simps [simp]:
  "no_nul []" "no_nul (c # cs) \<longleftrightarrow> c \<noteq> CHR 0x00 \<and> no_nul cs"
  "no_nul (s @ t) \<longleftrightarrow> no_nul s \<and> no_nul t"
  by (auto simp: no_nul_def)

lemma text_ok_simps [simp]:
  "text_ok []" "of_char c < (0x80 :: nat) \<Longrightarrow> text_ok (c # cs) \<longleftrightarrow> c \<noteq> CHR 0x00 \<and> text_ok cs"
  by (auto simp: text_ok_def valid_utf8_ascii byte_def)

lemma text_ok_utf8:
  "list_all (\<lambda>n. 0 < n \<and> (n < 0xD800 \<or> 0xDFFF < n \<and> n < 0x110000)) ns \<Longrightarrow> text_ok (utf8 ns @ t) = text_ok t"
  "list_all (\<lambda>n. 0 < n \<and> (n < 0xD800 \<or> 0xDFFF < n \<and> n < 0x110000)) ns \<Longrightarrow> text_ok (utf8 ns)"
proof -
  assume a: "list_all (\<lambda>n. 0 < n \<and> (n < 0xD800 \<or> 0xDFFF < n \<and> n < 0x110000)) ns"
  then have "list_all (\<lambda>n. 0 < n \<and> n < 0x110000) ns" by (rule list.pred_mono_strong) auto
  then have n: "no_nul (utf8 ns)" by (rule no_nul_utf8)
  from a have "list_all scalar ns" by (rule list.pred_mono_strong) (simp add: scalar_def)
  note v = valid_utf8_utf8 [OF this]
  from n v show "text_ok (utf8 ns @ t) = text_ok t" by (simp add: text_ok_def)
  from n v [of "[]"] show "text_ok (utf8 ns)" by (simp add: text_ok_def)
qed

definition langmap_ok :: "langmap \<Rightarrow> bool" where
  "langmap_ok m \<longleftrightarrow> list_all (\<lambda>(k, v). text_ok k \<and> text_ok v) m"

lemma DefaultLanguages_ok: "list_all (\<lambda>(c, m). text_ok c \<and> langmap_ok m) DefaultLanguages"
proof -
  have "langmap_ok lang_en" by (simp add: langmap_ok_def lang_en_def text_ok_utf8)
  moreover have "langmap_ok lang_ru" by (simp add: langmap_ok_def lang_ru_def text_ok_utf8)
  moreover have "langmap_ok lang_ja" by (simp add: langmap_ok_def lang_ja_def text_ok_utf8)
  moreover have "langmap_ok lang_tk" by (simp add: langmap_ok_def lang_tk_def text_ok_utf8)
  moreover have "langmap_ok lang_zh" by (simp add: langmap_ok_def lang_zh_def text_ok_utf8)
  ultimately show ?thesis by (simp add: DefaultLanguages_def)
qed

lemma assigns_ok_default:
  assumes "text_ok c" "langmap_ok m"
  shows "assigns_ok languages_td (default_lang_vals c m)"
proof -
  have "text_ok (lang_text m k)" for k
    using assms(2) by (auto simp: lang_text_def langmap_ok_def list_all_iff split: option.splits
        dest: map_of_SomeD)
  moreover have "json_no_nul (lang_json m)"
    using assms(2) by (auto simp: lang_json_def langmap_ok_def text_ok_def list_all_iff)
  ultimately show ?thesis
    using assms(1) by (simp add: assigns_ok_def col_type_of_def default_lang_vals_def)
qed

lemma default_order_set: "default_order langs \<Longrightarrow> set langs = set DefaultLanguages"
  unfolding default_order_def by (rule mset_eq_setD)

lemma default_order_distinct: "default_order langs \<Longrightarrow> distinct (map fst langs)"
proof -
  assume "default_order langs"
  then have "mset (map fst langs) = mset (map fst DefaultLanguages)"
    by (simp add: default_order_def)
  then have "distinct (map fst langs) = distinct (map fst DefaultLanguages)"
    by (rule mset_eq_imp_distinct_iff)
  then show ?thesis by (simp add: DefaultLanguages_def)
qed

lemma default_order_storable:
  "default_order langs \<Longrightarrow> list_all (assigns_ok languages_td) (lang_rows (lang_gomap langs))"
  using DefaultLanguages_ok default_order_set [of langs] assigns_ok_default
  by (fastforce simp: lang_rows_gomap list_all_iff)

section \<open>The seed\<close>

definition unseeded :: "db \<Rightarrow> bool" where
  "unseeded d \<longleftrightarrow>
     list_all (\<lambda>t. d t = Some [])
       [''site'', ''admin_password'', ''hero_slides'', ''stats'', ''about'', ''contact'', ''languages'',
        ''sidepanel'']"

text \<open>The tables after a complete seed.\<close>

definition seed_db :: "string \<Rightarrow> (string \<times> langmap) list \<Rightarrow> db \<Rightarrow> db" where
  "seed_db hash langs d =
     d(''site'' \<mapsto> [(''id'', VInt 1) # vals_Site seed_site],
       ''admin_password'' \<mapsto> [[(''id'', VInt 1), (''hash'', VText hash)]],
       ''hero_slides'' \<mapsto> list_rows 0 [vals_HeroSlide seed_slide],
       ''stats'' \<mapsto> list_rows 0 (map vals_Stat seed_stats),
       ''about'' \<mapsto> [(''id'', VInt 1) # vals_About seed_about],
       ''contact'' \<mapsto> [(''id'', VInt 1) # vals_Contact seed_contact],
       ''languages'' \<mapsto> lang_rows (lang_gomap langs),
       ''sidepanel'' \<mapsto> [[(''id'', VInt 1), (''config'', VJson seed_panel)]])"

lemma exec_insert_id1:
  assumes "map_of schema t = Some td" "td_single td" "td_key td = Some ''id''"
    and "d t = Some []" "assigns_ok td ((''id'', VInt 1) # vs)"
    and "complete_row td ((''id'', VInt 1) # vs) = Some ((''id'', VInt 1) # vs)"
  shows "exec_stmt (insert_id1 t vs) d = Inr (d(t \<mapsto> [(''id'', VInt 1) # vs]))"
  using assms by (simp add: exec_stmt_def insert_id1_def exec_insert_def key_taken_def)

lemma insert_site:
  "d ''site'' = Some [] \<Longrightarrow> exec_stmt (insert_id1 ''site'' (vals_Site seed_site)) d =
     Inr (d(''site'' \<mapsto> [(''id'', VInt 1) # vals_Site seed_site]))"
  by (rule exec_insert_id1 [where td = "the (map_of schema ''site'')"])
    (simp_all add: schema_def assigns_ok_def col_type_of_def complete_row_def vals_Site_def seed_site_def)

lemma insert_hash:
  "d ''admin_password'' = Some [] \<Longrightarrow> text_ok h \<Longrightarrow>
     exec_stmt (insert_id1 ''admin_password'' [(''hash'', VText h)]) d =
       Inr (d(''admin_password'' \<mapsto> [[(''id'', VInt 1), (''hash'', VText h)]]))"
  by (rule exec_insert_id1 [where td = "the (map_of schema ''admin_password'')"])
    (simp_all add: schema_def assigns_ok_def col_type_of_def complete_row_def)

lemma insert_about:
  "d ''about'' = Some [] \<Longrightarrow> exec_stmt (insert_id1 ''about'' (vals_About seed_about)) d =
     Inr (d(''about'' \<mapsto> [(''id'', VInt 1) # vals_About seed_about]))"
  by (rule exec_insert_id1 [where td = "the (map_of schema ''about'')"])
    (simp_all add: schema_def assigns_ok_def col_type_of_def complete_row_def vals_About_def seed_about_def)

lemma insert_contact:
  "d ''contact'' = Some [] \<Longrightarrow> exec_stmt (insert_id1 ''contact'' (vals_Contact seed_contact)) d =
     Inr (d(''contact'' \<mapsto> [(''id'', VInt 1) # vals_Contact seed_contact]))"
  by (rule exec_insert_id1 [where td = "the (map_of schema ''contact'')"])
    (simp_all add: schema_def assigns_ok_def col_type_of_def complete_row_def vals_Contact_def
      seed_contact_def)

lemma insert_panel:
  "d ''sidepanel'' = Some [] \<Longrightarrow> exec_stmt (insert_id1 ''sidepanel'' [(''config'', VJson seed_panel)]) d =
     Inr (d(''sidepanel'' \<mapsto> [[(''id'', VInt 1), (''config'', VJson seed_panel)]]))"
  by (rule exec_insert_id1 [where td = "the (map_of schema ''sidepanel'')"])
    (simp_all add: schema_def assigns_ok_def col_type_of_def complete_row_def seed_panel_def no_nul_utf8)

lemma insert_slide:
  assumes "d ''hero_slides'' = Some []"
  shows "exec_stmts (list_inserts ''hero_slides'' 0 [vals_HeroSlide seed_slide]) d =
     Inr (d(''hero_slides'' \<mapsto> list_rows 0 [vals_HeroSlide seed_slide]))"
proof -
  have "list_all (\<lambda>x. assigns_ok (the (map_of schema ''hero_slides'')) (vals_HeroSlide x)) [seed_slide]"
    by (simp add: map_of_schema_lists assigns_ok_def col_type_of_def vals_HeroSlide_def seed_slide_def)
  from hero.exec_list_inserts_ok [where i = 0 and d = d and rows = "[]", OF this _ assms] show ?thesis by simp
qed

lemma insert_stats:
  assumes "d ''stats'' = Some []"
  shows "exec_stmts (list_inserts ''stats'' 0 (map vals_Stat seed_stats)) d =
     Inr (d(''stats'' \<mapsto> list_rows 0 (map vals_Stat seed_stats)))"
proof -
  have "list_all (\<lambda>x. assigns_ok (the (map_of schema ''stats'')) (vals_Stat x)) seed_stats"
    by (simp add: map_of_schema_lists assigns_ok_def col_type_of_def vals_Stat_def seed_stats_def text_ok_utf8)
  from stats.exec_list_inserts_ok [where i = 0 and d = d and rows = "[]", OF this _ assms] show ?thesis
    by (simp add: seed_stats_def)
qed

lemma insert_langs:
  assumes "d ''languages'' = Some []" "default_order langs"
  shows "exec_stmts (lang_inserts (lang_gomap langs)) d =
     Inr (d(''languages'' \<mapsto> lang_rows (lang_gomap langs)))"
proof -
  have "wf_gomap (lang_gomap langs)"
    using default_order_distinct [OF assms(2)] by (simp add: wf_gomap_def fst_lang_gomap)
  from exec_lang_inserts_ok [where d = d and rows = "[]", OF default_order_storable [OF assms(2)] this assms(1)] show ?thesis
    by simp
qed

lemma exec_seed:
  assumes "unseeded d" "text_ok h" "default_order langs"
  shows "exec_stmts (seed_stmts h langs) d = Inr (seed_db h langs d)"
  using assms
  by (simp add: unseeded_def seed_stmts_def seed_lang_inserts exec_stmts_append insert_site insert_hash
      insert_slide insert_stats insert_about insert_contact insert_panel insert_langs seed_db_def
      del: list_inserts.simps list_rows.simps)

subsection \<open>The run of the seed\<close>

lemma db_count_fine:
  "healthy s \<Longrightarrow> committed s t = Some rows \<Longrightarrow> db_count t w s = (Inr (length (where_rows w rows)), s)"
  by (simp add: db_count_def next_fault_fine)

lemma db_count_found:
  "db_count t w s = (Inr n, s1) \<Longrightarrow>
     \<exists>rows. committed s t = Some rows \<and> n = length (where_rows w rows)"
  by (auto simp: db_count_def next_fault_committed split: prod.splits fault.splits option.splits)

lemma SeedIfEmpty_empty:
  assumes "committed s ''site'' = Some []"
  shows "case SeedIfEmpty (Some h) langs s of
      (None, s1) \<Rightarrow> exec_stmts (seed_stmts h langs) (committed s) = Inr (committed s1)
    | (Some e, s1) \<Rightarrow> committed s1 = committed s \<or>
        exec_stmts (seed_stmts h langs) (committed s) = Inr (committed s1)"
proof -
  obtain c s1 where c: "db_count ''site'' None s = (c, s1)" by force
  then have c1: "committed s1 = committed s" by (rule db_count_committed)
  obtain b s2 where b: "db_begin s1 = (b, s2)" by force
  then have c2: "committed s2 = committed s" using c1 by (auto dest: db_begin_committed)
  show ?thesis
  proof (cases c)
    case (Inl e)
    with c c1 show ?thesis by (simp add: SeedIfEmpty_def)
  next
    case (Inr n)
    with db_count_found [of "''site''" None s n s1] c assms have n: "n = 0"
      by (auto simp: where_rows_def)
    show ?thesis
    proof (cases b)
      case (Inl e)
      with Inr n c b c2 show ?thesis by (simp add: SeedIfEmpty_def)
    next
      case t: (Inr t)
      with b c1 have t0: "work t = committed s" "\<not> aborted t" by (auto dest: db_begin_work)
      obtain t1 s3 where st: "tx_exec_all (seed_stmts h langs) t s2 = (t1, s3)" by force
      obtain e s4 where cm: "tx_commit t1 s3 = (e, s4)" by force
      have run: "SeedIfEmpty (Some h) langs s = (map_option (ErrWrap ''seed'') e, s4)"
        using Inr n c b t st cm by (simp add: SeedIfEmpty_def)
      have c3: "committed s3 = committed s" using st c2 by (auto dest: tx_exec_all_committed)
      have ok: "\<not> aborted t1 \<Longrightarrow> exec_stmts (seed_stmts h langs) (committed s) = Inr (work t1)"
        using tx_exec_all_ok [OF st] t0 by simp
      show ?thesis
        using run cm c3 ok by (cases e) (auto dest: tx_commit_ok tx_commit_bad)
    qed
  qed
qed

lemma seed_outcomes:
  assumes "unseeded (committed s)" "text_ok h" "default_order langs"
  shows "case SeedIfEmpty (Some h) langs s of
      (None, s1) \<Rightarrow> committed s1 = seed_db h langs (committed s)
    | (Some e, s1) \<Rightarrow> committed s1 = committed s \<or> committed s1 = seed_db h langs (committed s)"
proof -
  from assms(1) have "committed s ''site'' = Some []" by (simp add: unseeded_def)
  from SeedIfEmpty_empty [OF this, of h langs] exec_seed [OF assms] show ?thesis
    by (auto split: option.splits prod.splits)
qed

lemma seed_fine:
  assumes "unseeded (committed s)" "text_ok h" "default_order langs" "healthy s"
  shows "SeedIfEmpty (Some h) langs s = (None, s\<lparr>committed := seed_db h langs (committed s)\<rparr>)"
proof -
  from assms(1) have "committed s ''site'' = Some []" by (simp add: unseeded_def)
  with assms(4) have c: "db_count ''site'' None s = (Inr 0, s)"
    by (simp add: db_count_fine where_rows_def)
  let ?t = "\<lparr>work = committed s, aborted = False\<rparr>"
  have "tx_exec_all (seed_stmts h langs) ?t s = (?t\<lparr>work := seed_db h langs (committed s)\<rparr>, s)"
    using assms by (intro tx_exec_all_fine) (simp_all add: exec_seed)
  then show ?thesis
    using c assms(4) by (simp add: SeedIfEmpty_def db_begin_fine tx_commit_fine)
qed

section \<open>The migration of languages\<close>

definition has_code :: "sqlrow list \<Rightarrow> string \<Rightarrow> bool" where
  "has_code rows c \<longleftrightarrow> list_ex (\<lambda>r. map_of r ''code'' = Some (VText c)) rows"

definition missing_langs :: "sqlrow list \<Rightarrow> (string \<times> langmap) list \<Rightarrow> sqlrow list" where
  "missing_langs rows langs =
     map (\<lambda>(c, m). default_lang_vals c m) (filter (\<lambda>(c, m). \<not> has_code rows c) langs)"

lemma code_default: "map_of (default_lang_vals c m) ''code'' = Some (VText c)"
  by (simp add: default_lang_vals_def)

lemma has_code_simps [simp]:
  "has_code (rows @ rows') c \<longleftrightarrow> has_code rows c \<or> has_code rows' c"
  "has_code [default_lang_vals c' m] c \<longleftrightarrow> c' = c"
  by (auto simp: has_code_def code_default)

lemma missing_append: "c \<notin> fst ` set langs \<Longrightarrow>
    missing_langs (rows @ [default_lang_vals c m]) langs = missing_langs rows langs"
  unfolding missing_langs_def
  by (intro arg_cong [of _ _ "map (\<lambda>(c, m). default_lang_vals c m)"] filter_cong) force+

lemma has_code_where: "0 < length (where_rows (Some (''code'', VText c)) rows) \<longleftrightarrow> has_code rows c"
  by (auto simp: where_rows_def has_code_def list_ex_iff filter_empty_conv)

lemma exec_default_lang:
  assumes "d ''languages'' = Some rows"
  shows "exec_stmt (Insert ''languages'' (default_lang_vals c m) True) d =
     (if \<not> assigns_ok languages_td (default_lang_vals c m) then Inl (ErrDriver ''pq: invalid value'')
      else Inr (if has_code rows c then d else d(''languages'' \<mapsto> rows @ [default_lang_vals c m])))"
proof -
  have "key_taken languages_td rows (default_lang_vals c m) \<longleftrightarrow> has_code rows c"
    by (simp add: key_taken_def has_code_def code_default)
  moreover have "complete_row languages_td (default_lang_vals c m) = Some (default_lang_vals c m)"
    by (simp add: complete_row_def default_lang_vals_def)
  ultimately show ?thesis
    using assms by (simp add: exec_stmt_def schema_languages exec_insert_def)
qed

text \<open>One language, with any faults: nothing happens, or the language is added because it was missing.\<close>

lemma insert_lang_outcome:
  assumes "committed s ''languages'' = Some rows"
    and "db_exec (Insert ''languages'' (default_lang_vals c m) True) s = (e, s1)"
  shows "committed s1 = committed s \<or>
    \<not> has_code rows c \<and> committed s1 = (committed s)(''languages'' \<mapsto> rows @ [default_lang_vals c m])"
  using assms
  by (cases e)
    (auto dest!: db_exec_ok db_exec_bad simp: exec_default_lang split: if_splits)

lemma MigrateLanguages_adds:
  "committed s ''languages'' = Some rows \<Longrightarrow> distinct (map fst langs) \<Longrightarrow>
   \<exists>added. subseq added (missing_langs rows langs) \<and>
     committed (MigrateLanguages langs s) = (committed s)(''languages'' \<mapsto> rows @ added)"
proof (induction langs s arbitrary: rows rule: MigrateLanguages.induct)
  case (1 s)
  then have "committed (MigrateLanguages [] s) = (committed s)(''languages'' \<mapsto> rows @ [])"
    by (simp add: fun_upd_idem)
  then show ?case by blast
next
  case (2 c m ls s)
  let ?ins = "Insert ''languages'' (default_lang_vals c m) True"
  obtain r s1 where r: "db_count ''languages'' (Some (''code'', VText c)) s = (r, s1)" by force
  then have s1: "committed s1 = committed s" by (rule db_count_committed)
  with "2.prems" have rows1: "committed s1 ''languages'' = Some rows" by simp
  have c: "c \<notin> fst ` set ls" and dl: "distinct (map fst ls)" using "2.prems"(2) by auto
  have grow: "subseq (missing_langs rows ls) (missing_langs rows ((c, m) # ls))"
    by (auto simp: missing_langs_def)
  show ?case
  proof (cases "0 < (case r of Inl e \<Rightarrow> 0 | Inr n \<Rightarrow> n)")
    case True
    from "2.IH"(1) [OF r [symmetric] refl refl True rows1 dl] s1 obtain added where
      "subseq added (missing_langs rows ls)"
      "committed (MigrateLanguages ls s1) = (committed s)(''languages'' \<mapsto> rows @ added)"
      by metis
    with True r grow show ?thesis by (auto intro: subseq_order.trans)
  next
    case False
    obtain e s2 where e: "db_exec ?ins s1 = (e, s2)" by force
    have run: "MigrateLanguages ((c, m) # ls) s = MigrateLanguages ls s2"
      using r e False by (simp add: Let_def)
    note IH = "2.IH"(2) [OF r [symmetric] refl refl False e [symmetric] refl _ dl]
    from insert_lang_outcome [OF rows1 e] show ?thesis
    proof
      assume "committed s2 = committed s1"
      with IH [of rows] rows1 s1 obtain added where
        "subseq added (missing_langs rows ls)"
        "committed (MigrateLanguages ls s2) = (committed s)(''languages'' \<mapsto> rows @ added)"
        by metis
      with run grow show ?thesis by (auto intro: subseq_order.trans)
    next
      assume new: "\<not> has_code rows c \<and>
        committed s2 = (committed s1)(''languages'' \<mapsto> rows @ [default_lang_vals c m])"
      then have "committed s2 ''languages'' = Some (rows @ [default_lang_vals c m])" by simp
      from IH [OF this] missing_append [OF c, of rows m] obtain added where
        "subseq added (missing_langs rows ls)"
        "committed (MigrateLanguages ls s2) =
           (committed s2)(''languages'' \<mapsto> (rows @ [default_lang_vals c m]) @ added)"
        by metis
      moreover have "missing_langs rows ((c, m) # ls) = default_lang_vals c m # missing_langs rows ls"
        using new by (simp add: missing_langs_def)
      ultimately show ?thesis
        using new s1 run by (intro exI [of _ "default_lang_vals c m # added"]) simp
    qed
  qed
qed

lemma MigrateLanguages_fine:
  "healthy s \<Longrightarrow> committed s ''languages'' = Some rows \<Longrightarrow> distinct (map fst langs) \<Longrightarrow>
   list_all (\<lambda>(c, m). assigns_ok languages_td (default_lang_vals c m)) langs \<Longrightarrow>
     MigrateLanguages langs s =
       s\<lparr>committed := (committed s)(''languages'' \<mapsto> rows @ missing_langs rows langs)\<rparr>"
proof (induction langs arbitrary: s rows)
  case Nil
  then show ?case by (simp add: missing_langs_def fun_upd_idem)
next
  case (Cons p ls)
  obtain c m where p: "p = (c, m)" by force
  let ?v = "default_lang_vals c m"
  have count: "db_count ''languages'' (Some (''code'', VText c)) s =
      (Inr (length (where_rows (Some (''code'', VText c)) rows)), s)"
    using Cons.prems by (simp add: db_count_fine)
  show ?case
  proof (cases "has_code rows c")
    case True
    then have "missing_langs rows (p # ls) = missing_langs rows ls"
      by (simp add: p missing_langs_def)
    with Cons p count True has_code_where [of c rows] show ?thesis by simp
  next
    case False
    let ?s = "s\<lparr>committed := (committed s)(''languages'' \<mapsto> rows @ [?v])\<rparr>"
    have "db_exec (Insert ''languages'' ?v True) s = (None, ?s)"
      using Cons.prems p False by (simp add: db_exec_def next_fault_fine exec_default_lang)
    then have "MigrateLanguages (p # ls) s = MigrateLanguages ls ?s"
      using p count False has_code_where [of c rows] by simp
    also have "\<dots> = ?s\<lparr>committed := (committed ?s)(''languages'' \<mapsto>
        (rows @ [?v]) @ missing_langs (rows @ [?v]) ls)\<rparr>"
      by (rule Cons.IH) (use Cons.prems p in auto)
    also have "missing_langs (rows @ [?v]) ls = missing_langs rows ls"
      using Cons.prems p by (intro missing_append) auto
    finally show ?thesis
      using False by (intro server.equality) (auto simp: missing_langs_def p fun_eq_iff)
  qed
qed

section \<open>Properties\<close>

lemma SeedIfEmpty_adds:
  assumes "committed s ''site'' = Some (r # rs)" "committed s ''languages'' = Some rows"
    and "default_order langs"
  shows "\<exists>added. subseq added (missing_langs rows langs) \<and>
    committed (snd (SeedIfEmpty gen langs s)) = (committed s)(''languages'' \<mapsto> rows @ added)"
proof -
  obtain c s1 where c: "db_count ''site'' None s = (c, s1)" by force
  then have s1: "committed s1 = committed s" by (rule db_count_committed)
  show ?thesis
  proof (cases c)
    case (Inl e)
    with c s1 assms(2) have "committed (snd (SeedIfEmpty gen langs s)) = (committed s)(''languages'' \<mapsto> rows @ [])"
      by (simp add: SeedIfEmpty_def fun_upd_idem)
    then show ?thesis by blast
  next
    case (Inr n)
    with db_count_found [of "''site''" None s n s1] c assms(1) have "0 < n" by (simp add: where_rows_def)
    with c Inr have "snd (SeedIfEmpty gen langs s) = MigrateLanguages langs s1"
      by (simp add: SeedIfEmpty_def)
    with MigrateLanguages_adds [of s1 rows langs] s1 assms(2) default_order_distinct [OF assms(3)]
    show ?thesis by simp
  qed
qed

lemma default_order_assigns:
  "default_order langs \<Longrightarrow> list_all (\<lambda>(c, m). assigns_ok languages_td (default_lang_vals c m)) langs"
  using DefaultLanguages_ok default_order_set [of langs] assigns_ok_default
  by (fastforce simp: list_all_iff)

lemma SeedIfEmpty_adds_fine:
  assumes "committed s ''site'' = Some (r # rs)" "committed s ''languages'' = Some rows"
    and "default_order langs" "healthy s"
  shows "SeedIfEmpty gen langs s =
    (None, s\<lparr>committed := (committed s)(''languages'' \<mapsto> rows @ missing_langs rows langs)\<rparr>)"
proof -
  have "db_count ''site'' None s = (Inr (Suc (length rs)), s)"
    using assms by (simp add: db_count_fine where_rows_def)
  then show ?thesis
    using assms default_order_distinct [OF assms(3)] default_order_assigns [OF assms(3)]
    by (simp add: SeedIfEmpty_def MigrateLanguages_fine)
qed

lemma missing_none: "default_order langs \<Longrightarrow> default_order langs' \<Longrightarrow>
    missing_langs (lang_rows (lang_gomap langs)) langs' = []"
  using default_order_set [of langs] default_order_set [of langs']
  by (fastforce simp: missing_langs_def filter_empty_conv has_code_def list_ex_iff lang_rows_gomap
      code_default)

lemma seed_db_tables:
  "seed_db h langs d ''site'' = Some [(''id'', VInt 1) # vals_Site seed_site]"
  "seed_db h langs d ''languages'' = Some (lang_rows (lang_gomap langs))"
  "seed_db h langs d ''hero_slides'' = Some (list_rows 0 (map vals_HeroSlide [seed_slide]))"
  "seed_db h langs d ''stats'' = Some (list_rows 0 (map vals_Stat seed_stats))"
  "seed_db h langs d ''about'' = Some [(''id'', VInt 1) # vals_About seed_about]"
  "seed_db h langs d ''contact'' = Some [(''id'', VInt 1) # vals_Contact seed_contact]"
  "seed_db h langs d ''admin_password'' = Some [[(''id'', VInt 1), (''hash'', VText h)]]"
  "seed_db h langs d ''sidepanel'' = Some [[(''id'', VInt 1), (''config'', VJson seed_panel)]]"
  by (simp_all add: seed_db_def)

text \<open>
  C19. The seed of the first boot is all or nothing and can be tried again: on empty tables, whatever calls
  fail, it leaves either the empty tables or the complete seed, the complete seed when it reports no
  error, and starting again with a healthy database (perhaps with another hash and another order of the
  languages) ends with a complete seed that was written once.
\<close>

theorem seed_atomic_and_retryable:
  assumes "unseeded (committed s)" "text_ok h" "default_order langs"
    and "SeedIfEmpty (Some h) langs s = (e, s1)"
    and "committed s2 = committed s1" "healthy s2" "text_ok h'" "default_order langs'"
  shows "(committed s1 = committed s \<and> e \<noteq> None \<or> committed s1 = seed_db h langs (committed s)) \<and>
    (\<exists>s3. SeedIfEmpty (Some h') langs' s2 = (None, s3) \<and>
       (committed s3 = committed s1 \<or>
        committed s1 = committed s \<and> committed s3 = seed_db h' langs' (committed s)))"
proof -
  from seed_outcomes [OF assms(1-3)] assms(4)
  have out: "committed s1 = committed s \<and> e \<noteq> None \<or> committed s1 = seed_db h langs (committed s)"
    by (cases e) simp_all
  moreover have "\<exists>s3. SeedIfEmpty (Some h') langs' s2 = (None, s3) \<and> (committed s3 = committed s1 \<or>
        committed s1 = committed s \<and> committed s3 = seed_db h' langs' (committed s))"
    using out
  proof
    assume "committed s1 = committed s \<and> e \<noteq> None"
    with seed_fine [of s2 h' langs'] assms show ?thesis by auto
  next
    assume d: "committed s1 = seed_db h langs (committed s)"
    with assms(5) have c2: "committed s2 = seed_db h langs (committed s)" by simp
    have "SeedIfEmpty (Some h') langs' s2 = (None, s2\<lparr>committed := (committed s2)(''languages'' \<mapsto>
        lang_rows (lang_gomap langs) @ missing_langs (lang_rows (lang_gomap langs)) langs')\<rparr>)"
      by (rule SeedIfEmpty_adds_fine) (use c2 seed_db_tables assms in auto)
    with c2 d seed_db_tables(2) [of h langs "committed s"] missing_none [OF assms(3,8)]
    show ?thesis by (simp add: fun_upd_idem)
  qed
  ultimately show ?thesis by blast
qed

lemma fresh_unseeded: "unseeded (committed fresh_server)"
  by code_simp

lemma fresh_healthy: "healthy fresh_server"
  by (simp add: fresh_server_def healthy_def)

lemma default_order_refl: "default_order DefaultLanguages"
  by (simp add: default_order_def)

theorem seed_atomic_and_retryable_witness:
  "\<exists>e s1 s3. SeedIfEmpty (Some ''h'') DefaultLanguages
       (fresh_server\<lparr>faults := [Fine, Fine, Refused ''reset'']\<rparr>) = (e, s1) \<and>
     SeedIfEmpty (Some ''h2'') DefaultLanguages (s1\<lparr>faults := [], delays := [], deadline := None\<rparr>) = (None, s3)"
proof -
  let ?s = "fresh_server\<lparr>faults := [Fine, Fine, Refused ''reset'']\<rparr>"
  obtain e s1 where r: "SeedIfEmpty (Some ''h'') DefaultLanguages ?s = (e, s1)" by force
  let ?s2 = "s1\<lparr>faults := [], delays := [], deadline := None\<rparr>"
  have "healthy ?s2" by (simp add: healthy_def)
  moreover have "unseeded (committed ?s)" using fresh_unseeded by simp
  ultimately show ?thesis
    using seed_atomic_and_retryable [OF _ _ default_order_refl r, of ?s2 "''h2''" DefaultLanguages] r
    by (auto simp: default_order_refl)
qed

lemma decoded_lang_gomap:
  assumes "default_order langs"
  shows "decoded (lang_gomap langs)"
proof -
  have "list_all (\<lambda>(c, m). distinct (map fst m)) DefaultLanguages"
    using DefaultLanguages_keys by (fastforce simp: list_all_iff)
  then have d: "distinct (map fst m)" if "(c, m) \<in> set langs" for c m
    using that default_order_set [OF assms] by (auto simp: list_all_iff)
  have o: "to_iface (JObj (lang_object m)) = JObj (lang_object m)" if "distinct (map fst m)" for m
  proof -
    have "map (\<lambda>(k, v). (k, to_iface v)) (lang_object m) = lang_object m"
      by (auto simp: lang_object_def)
    moreover have "put_all [] (lang_object m) = lang_object m"
      using that put_all_fresh [of "[]" "lang_object m"] by (simp add: lang_object_def comp_def case_prod_beta)
    ultimately show ?thesis by simp
  qed
  have "wf_gomap (lang_gomap langs)"
    using default_order_distinct [OF assms] by (simp add: wf_gomap_def fst_lang_gomap)
  with d o show ?thesis by (auto simp: decoded_def list_all_iff lang_gomap_def)
qed

lemma GetLanguages_fine:
  assumes "healthy s" "decoded m" "committed s ''languages'' = Some (lang_rows m)"
  shows "GetLanguages s = ((Some (lang_view m), None), s)"
proof -
  have "GetLanguages s = ((map_option (languages_loop []) (those (map scan_language (map (map snd) (lang_rows m)))), None), s)"
    using assms by (simp add: GetLanguages_def db_query_def next_fault_fine select_languages scan_lang_rows
        del: map_map)
  then show ?thesis
    using languages_loop_view [OF assms(2), of "[]"] by (simp add: scan_lang_rows del: map_map)
qed

text \<open>
  C24. A successful seed is complete: after it every read of the repository gives the seeded value: the
  site, the slide, the five stats in order, the about page, the contact, the hash, all languages and
  the side panel, and the lists that are not seeded are as they were.
\<close>

theorem seed_is_read_back:
  assumes "unseeded (committed s)" "text_ok h" "default_order langs" "healthy s"
    and "SeedIfEmpty (Some h) langs s = (e, s1)"
  shows "e = None \<and> healthy s1 \<and>
    fst (GetSite s1) = (seed_site, None) \<and> fst (GetHeroSlides s1) = (Some [seed_slide], None) \<and>
    fst (GetStats s1) = (Some seed_stats, None) \<and> fst (GetAbout s1) = (seed_about, None) \<and>
    fst (GetContact s1) = (seed_contact, None) \<and> fst (GetAdminPasswordHash s1) = (h, None) \<and>
    fst (GetLanguages s1) = (Some (lang_view (lang_gomap langs)), None) \<and>
    fst (GetSidePanel s1) = (fst (decode_map seed_panel None), None) \<and>
    committed s1 ''services'' = committed s ''services'' \<and> committed s1 ''news'' = committed s ''news''"
proof -
  have run: "e = None" "s1 = s\<lparr>committed := seed_db h langs (committed s)\<rparr>"
    using seed_fine [OF assms(1-4)] assms(5) by simp_all
  have c: "committed s1 = seed_db h langs (committed s)" and hs: "healthy s1"
    using run assms(4) by simp_all
  note tables = seed_db_tables [of h langs "committed s", folded c]
  have "fst (GetSite s1) = (seed_site, None)"
    using site.get_present [OF hs tables(1)] by (simp add: GetSite_def)
  moreover have "fst (GetAbout s1) = (seed_about, None)"
    using about.get_present [OF hs tables(5)] by (simp add: GetAbout_def)
  moreover have "fst (GetContact s1) = (seed_contact, None)"
    using contact.get_present [OF hs tables(6)] by (simp add: GetContact_def)
  moreover have "fst (GetAdminPasswordHash s1) = (h, None)"
    using password.get_present [OF hs tables(7)] by (simp add: GetAdminPasswordHash_scan)
  moreover have "fst (GetHeroSlides s1) = (Some [seed_slide], None)"
    using hero.get_replaced_fine [OF tables(3) hs] by (simp add: GetHeroSlides_def)
  moreover have "fst (GetStats s1) = (Some seed_stats, None)"
    using stats.get_replaced_fine [OF tables(4) hs] by (simp add: GetStats_def)
  moreover have "fst (GetLanguages s1) = (Some (lang_view (lang_gomap langs)), None)"
    using GetLanguages_fine [OF hs decoded_lang_gomap [OF assms(3)] tables(2)] by simp
  moreover have "fst (GetSidePanel s1) = (fst (decode_map seed_panel None), None)"
    using hs tables(8)
    by (simp add: GetSidePanel_def db_query_row_def db_query_def next_fault_fine select_rows_def
        where_rows_def project_def)
  moreover have "committed s1 ''services'' = committed s ''services''"
    "committed s1 ''news'' = committed s ''news''"
    by (simp_all add: c seed_db_def)
  ultimately show ?thesis using run(1) hs by blast
qed

theorem seed_is_read_back_witness:
  "fst (GetStats (snd (SeedIfEmpty (Some ''h'') DefaultLanguages fresh_server))) = (Some seed_stats, None)"
proof -
  obtain e s1 where r: "SeedIfEmpty (Some ''h'') DefaultLanguages fresh_server = (e, s1)" by force
  from seed_is_read_back [OF fresh_unseeded _ default_order_refl fresh_healthy r] r show ?thesis by simp
qed

text \<open>
  C25. On a database that has a site the seed touches only the languages, whatever calls fail: it appends
  some of the missing default languages and changes no existing row. Without faults it appends
  exactly the missing ones.
\<close>

theorem seed_spares_content:
  assumes "committed s ''site'' = Some (r # rs)" "committed s ''languages'' = Some rows"
    and "default_order langs"
  shows "(\<exists>added. subseq added (missing_langs rows langs) \<and>
      committed (snd (SeedIfEmpty gen langs s)) = (committed s)(''languages'' \<mapsto> rows @ added)) \<and>
    (healthy s \<longrightarrow> SeedIfEmpty gen langs s =
      (None, s\<lparr>committed := (committed s)(''languages'' \<mapsto> rows @ missing_langs rows langs)\<rparr>))"
  using SeedIfEmpty_adds [OF assms] SeedIfEmpty_adds_fine [OF assms] by blast

theorem seed_spares_content_witness:
  "fst (SeedIfEmpty (Some ''h'') DefaultLanguages seeded_server) = None"
proof -
  have "\<exists>r rs. committed seeded_server ''site'' = Some (r # rs)"
    by (simp add: seeded_server_def seeded_db_def)
  then obtain r rs where a: "committed seeded_server ''site'' = Some (r # rs)" by blast
  have b: "committed seeded_server ''languages'' = Some []"
    by (simp add: seeded_server_def seeded_db_def empty_db_def schema_languages)
  have "healthy seeded_server" by (simp add: seeded_server_def healthy_def)
  with seed_spares_content [OF a b default_order_refl] show ?thesis by simp
qed

end
