(* ===== verification/ContentThms.thy ===== *)
theory ContentThms
  imports HandlerThms SeedThms
begin

text \<open>
  The content API end to end: what an update stores is what the next read of the content shows, the
  content cache is emptied by every successful update, and what happens to it when the database fails.
\<close>

section \<open>A database that answers\<close>

lemma healthy_deadline:
  "healthy s \<Longrightarrow> 0 \<le> d \<Longrightarrow>
     healthy (s\<lparr>deadline := Some (case deadline s of None \<Rightarrow> clock s + d | Some b \<Rightarrow> min b (clock s + d))\<rparr>)"
  by (auto simp: healthy_def split: option.splits)

lemma with_timeout_fine:
  assumes "healthy s" "0 \<le> d"
    and "\<And>s'. healthy s' \<Longrightarrow> committed s' = committed s \<Longrightarrow> f s' = (v, s'\<lparr>committed := c\<rparr>)"
  shows "with_timeout d f s = (v, s\<lparr>committed := c\<rparr>)"
  using assms(3) [OF healthy_deadline [OF assms(1,2)]] by (simp add: with_timeout_def Let_def)

lemma get_list_fine:
  "healthy s \<Longrightarrow> healthy s' \<Longrightarrow> committed s' = committed s \<Longrightarrow>
     get_list t cols scan s' = (fst (get_list t cols scan s), s')"
  by (simp add: get_list_def db_query_def next_fault_fine split: sum.splits option.splits)

lemma get_row_fine:
  "healthy s \<Longrightarrow> healthy s' \<Longrightarrow> committed s' = committed s \<Longrightarrow>
     get_row t cols scan zero s' = (fst (get_row t cols scan zero s), s')"
  by (auto simp: get_row_def db_query_row_def db_query_def next_fault_fine
      split: sum.splits option.splits list.splits prod.splits)

lemma with_timeout_read:
  assumes "healthy s" "\<And>s'. healthy s' \<Longrightarrow> committed s' = committed s \<Longrightarrow> f s' = (fst (f s), s')"
  shows "with_timeout dbTimeout f s = (fst (f s), s)"
proof -
  have f: "f s' = (fst (f s), s'\<lparr>committed := committed s\<rparr>)"
    if "healthy s'" "committed s' = committed s" for s'
    using assms(2) [OF that] by (simp add: that(2) [symmetric])
  have "with_timeout dbTimeout f s = (fst (f s), s\<lparr>committed := committed s\<rparr>)"
    by (rule with_timeout_fine [OF assms(1) dbTimeout_nonneg]) (rule f)
  then show ?thesis by simp
qed

lemma svc_get_fine:
  assumes "healthy s"
  shows "Svc_GetSite s = (fst (GetSite s), s)" "Svc_GetHeroSlides s = (fst (GetHeroSlides s), s)"
    "Svc_GetStats s = (fst (GetStats s), s)" "Svc_GetAbout s = (fst (GetAbout s), s)"
    "Svc_GetServices s = (fst (GetServices s), s)" "Svc_GetNews s = (fst (GetNews s), s)"
    "Svc_GetPartners s = (fst (GetPartners s), s)" "Svc_GetContact s = (fst (GetContact s), s)"
    "Svc_GetAdminPasswordHash s = (fst (GetAdminPasswordHash s), s)"
  unfolding svc_get_defs get_defs
  by (rule with_timeout_read [OF assms], rule get_list_fine [OF assms] get_row_fine [OF assms], assumption+)+

lemma get_languages_fine:
  "healthy s \<Longrightarrow> healthy s' \<Longrightarrow> committed s' = committed s \<Longrightarrow> GetLanguages s' = (fst (GetLanguages s), s')"
  by (auto simp: GetLanguages_def db_query_def next_fault_fine split: sum.splits option.splits)

lemma get_panel_fine:
  "healthy s \<Longrightarrow> healthy s' \<Longrightarrow> committed s' = committed s \<Longrightarrow> GetSidePanel s' = (fst (GetSidePanel s), s')"
  by (auto simp: GetSidePanel_def db_query_row_def db_query_def next_fault_fine
      split: sum.splits option.splits list.splits prod.splits sqlval.splits)

lemma svc_map_fine:
  assumes "healthy s"
  shows "Svc_GetLanguages s = (fst (GetLanguages s), s)" "Svc_GetSidePanel s = (fst (GetSidePanel s), s)"
  unfolding svc_get_defs
  by (rule with_timeout_read [OF assms], rule get_languages_fine [OF assms] get_panel_fine [OF assms], assumption+)+

lemma read_content_fine:
  "healthy s \<Longrightarrow> read_content s =
     (content_payload (fst (fst (GetSite s))) (fst (fst (GetHeroSlides s))) (fst (fst (GetStats s)))
        (fst (fst (GetAbout s))) (fst (fst (GetServices s))) (fst (fst (GetNews s)))
        (fst (fst (GetPartners s))) (fst (fst (GetContact s))), s)"
  by (simp add: read_content_def svc_get_fine Let_def case_prod_beta)

section \<open>Updates and the cache\<close>

lemma tx_exec_healthy: "healthy s \<Longrightarrow> tx_exec st t s = (e, t1, s1) \<Longrightarrow> s1 = s"
  by (auto simp: tx_exec_def next_fault_fine split: if_splits sum.splits)

lemma tx_exec_all_healthy: "healthy s \<Longrightarrow> tx_exec_all sts t s = (t1, s1) \<Longrightarrow> s1 = s"
  by (induction sts arbitrary: t) (auto split: prod.splits dest: tx_exec_healthy)

lemma insert_slides_healthy: "healthy s \<Longrightarrow> insert_slides i vs t s = (e, t1, s1) \<Longrightarrow> s1 = s"
  by (induction vs arbitrary: i t) (auto split: prod.splits option.splits dest: tx_exec_healthy)

lemma tx_commit_healthy: "healthy s \<Longrightarrow> tx_commit t s = (e, s1) \<Longrightarrow> \<exists>d. s1 = s\<lparr>committed := d\<rparr>"
  by (auto simp: tx_commit_def next_fault_fine split: if_splits intro: exI [of _ "committed s"])

text \<open>On a healthy connection an update changes nothing but the tables.\<close>

definition only_tables :: "(server \<Rightarrow> 'r \<times> server) \<Rightarrow> bool" where
  "only_tables f \<longleftrightarrow> (\<forall>s. healthy s \<longrightarrow> (\<exists>d. snd (f s) = s\<lparr>committed := d\<rparr>))"

lemma only_tablesI: "(\<And>s r s1. healthy s \<Longrightarrow> f s = (r, s1) \<Longrightarrow> \<exists>d. s1 = s\<lparr>committed := d\<rparr>) \<Longrightarrow> only_tables f"
  by (auto simp: only_tables_def) (metis prod.collapse)

lemma committed_self: "\<exists>d. s = s\<lparr>committed := d\<rparr>" for s :: server
  by (rule exI [of _ "committed s"]) simp

lemma only_tables_run: "only_tables (run_ignoring sts)"
proof (rule only_tablesI)
  fix s r s1
  assume s: "healthy s" and r: "run_ignoring sts s = (r, s1)"
  obtain t2 s2 where x: "tx_exec_all sts \<lparr>work = committed s, aborted = False\<rparr> s = (t2, s2)"
    by (rule prod.exhaust)
  with r s have "tx_commit t2 s2 = (r, s1)" by (simp add: run_ignoring_def db_begin_fine)
  with tx_exec_all_healthy [OF s x] tx_commit_healthy [of s t2 r s1] s
  show "\<exists>d. s1 = s\<lparr>committed := d\<rparr>" by simp
qed

lemma only_tables_slides: "only_tables (UpdateHeroSlides xs)"
proof (rule only_tablesI)
  fix s r s1
  assume s: "healthy s" and r: "UpdateHeroSlides xs s = (r, s1)"
  obtain e t2 s2 where x: "tx_exec (DeleteAll ''hero_slides'') \<lparr>work = committed s, aborted = False\<rparr> s = (e, t2, s2)"
    by (rule prod_cases3)
  have s2: "s2 = s" by (rule tx_exec_healthy [OF s x])
  obtain e' t3 s3 where y: "insert_slides 0 (case xs of None \<Rightarrow> [] | Some vs \<Rightarrow> vs) t2 s = (e', t3, s3)"
    by (rule prod_cases3)
  have s3: "s3 = s" by (rule insert_slides_healthy [OF s y])
  show "\<exists>d. s1 = s\<lparr>committed := d\<rparr>"
    using r s x y tx_commit_healthy [OF s, of t3 r s1] tx_commit_healthy [OF s, of t2 r s1] unfolding s2 s3
    by (auto simp: UpdateHeroSlides_def db_begin_fine committed_self split: option.splits prod.splits)
qed

lemma only_tables_exec: "only_tables (db_exec st)"
  by (rule only_tablesI)
    (auto simp: db_exec_def next_fault_fine committed_self split: sum.splits)

lemma only_tables_timeout: "only_tables f \<Longrightarrow> only_tables (with_timeout dbTimeout f)"
proof (rule only_tablesI)
  fix s r s1
  assume f: "only_tables f" and s: "healthy s" and r: "with_timeout dbTimeout f s = (r, s1)"
  let ?b = "case deadline s of None \<Rightarrow> clock s + dbTimeout | Some b0 \<Rightarrow> min b0 (clock s + dbTimeout)"
  have "healthy (s\<lparr>deadline := Some ?b\<rparr>)" by (rule healthy_deadline [OF s dbTimeout_nonneg])
  with f obtain d where "snd (f (s\<lparr>deadline := Some ?b\<rparr>)) = s\<lparr>deadline := Some ?b, committed := d\<rparr>"
    unfolding only_tables_def by blast
  with r have "s1 = s\<lparr>committed := d\<rparr>" by (auto simp: with_timeout_def Let_def case_prod_beta)
  then show "\<exists>d. s1 = s\<lparr>committed := d\<rparr>" by blast
qed

lemma only_tables_svc:
  "only_tables (Svc_UpdateSite v1)" "only_tables (Svc_UpdateHeroSlides v2)" "only_tables (Svc_UpdateStats v3)"
  "only_tables (Svc_UpdateAbout v4)" "only_tables (Svc_UpdateServices v5)" "only_tables (Svc_UpdateNews v6)"
  "only_tables (Svc_UpdatePartners v7)" "only_tables (Svc_UpdateContact v8)"
  "only_tables (Svc_UpdateLanguages v9)" "only_tables (Svc_UpdateSidePanel v10)"
  "only_tables (Svc_UpdateAdminPassword v11)"
  unfolding svc_update_defs UpdateSite_def UpdateStats_def UpdateAbout_def UpdateServices_def UpdateNews_def
    UpdatePartners_def UpdateContact_def UpdateLanguages_def UpdateSidePanel_def UpdateAdminPassword_def
  by (intro only_tables_timeout only_tables_run only_tables_slides only_tables_exec)+

text \<open>What an admin update that answers 200 has done.\<close>

lemma adminPUT_ok:
  assumes "adminPUT fn r new_writer \<sigma> = (w1, \<sigma>1)" "w_status w1 = Some 200"
  obtains s1 where "fn (wd_srv \<sigma>) = (None, s1)"
    "\<sigma>1 = \<sigma>\<lparr>wd_srv := s1, wd_cache := cache_flush (wd_cache \<sigma>)\<rparr>"
proof -
  have "req_method r = ''PUT''"
    using assms by (auto simp: adminPUT_def method_not_allowed_def writeJSON_new split: if_splits)
  moreover obtain e s1 where f: "fn (wd_srv \<sigma>) = (e, s1)" by (rule prod.exhaust)
  ultimately show thesis
    using assms that by (cases e) (auto simp: adminPUT_def with_srv_def writeJSON_new)
qed

lemma adminPUT_accepts:
  "fst (fn (wd_srv \<sigma>)) = None \<Longrightarrow> req_method r = ''PUT'' \<Longrightarrow>
     w_status (fst (adminPUT fn r new_writer \<sigma>)) = Some 200"
  by (auto simp: adminPUT_def with_srv_def writeJSON_new split: prod.splits option.splits)

lemma healthy_unread: "healthy s \<Longrightarrow> with_timeout dbTimeout f s = (r, s1) \<Longrightarrow> only_tables f \<Longrightarrow> healthy s1"
  using only_tables_timeout [of f] by (fastforce simp: only_tables_def)

text \<open>A GET of the content with an empty cache on a healthy connection.\<close>

lemma Content_fresh:
  assumes "req_method r = ''GET''" "healthy (wd_srv \<sigma>)" "cache_get (wd_now \<sigma>) ''content'' (wd_cache \<sigma>) = None"
  shows "Content r w \<sigma> =
    (writeJSON w 200 (fst (read_content (wd_srv \<sigma>))), put_cache ''content'' (fst (read_content (wd_srv \<sigma>))) \<sigma>)"
  using assms read_content_fine [OF assms(2)] by (simp add: Content_def with_srv_def)

definition member :: "string \<Rightarrow> json \<Rightarrow> json option" where
  "member k j = (case j of JObj kvs \<Rightarrow> map_of kvs k | _ \<Rightarrow> None)"

definition content_shows :: "string \<Rightarrow> json \<Rightarrow> 'l world \<Rightarrow> bool" where
  "content_shows k j \<sigma> \<longleftrightarrow>
     (\<forall>r. req_method r = ''GET'' \<longrightarrow>
        w_status (fst (Content r new_writer \<sigma>)) = Some 200 \<and>
        (\<exists>v. w_out (fst (Content r new_writer \<sigma>)) = [JsonOut v] \<and> member k v = Some j))"

lemma content_showsI:
  assumes "healthy (wd_srv \<sigma>)" "cache_get (wd_now \<sigma>) ''content'' (wd_cache \<sigma>) = None"
    and "member k (fst (read_content (wd_srv \<sigma>))) = Some j"
  shows "content_shows k j \<sigma>"
  using assms by (simp add: content_shows_def Content_fresh writeJSON_new)

lemma get_flushed: "cache_get t k (cache_flush c) = None"
  by (simp add: cache_get_def cache_flush_def)


lemma with_timeout_run:
  assumes "with_timeout d f s = (e, s1)" "healthy s" "0 \<le> d"
  obtains s' s2 where "healthy s'" "committed s' = committed s" "f s' = (e, s2)" "committed s1 = committed s2"
proof -
  let ?s = "s\<lparr>deadline := Some (case deadline s of None \<Rightarrow> clock s + d | Some b \<Rightarrow> min b (clock s + d))\<rparr>"
  obtain e' s2 where f: "f ?s = (e', s2)" by (rule prod.exhaust)
  with assms(1) have "e' = e" "s1 = s2\<lparr>deadline := deadline s\<rparr>" by (simp_all add: with_timeout_def Let_def)
  with f show thesis by (intro that [of ?s s2] healthy_deadline assms(2,3)) simp_all
qed

lemma lists_stored:
  assumes "healthy s"
  shows "Svc_UpdateStats xs1 s = (None, s1) \<Longrightarrow> committed s1 ''stats'' = Some (list_rows 0 (map vals_Stat (elems xs1)))"
    "Svc_UpdateServices xs2 s = (None, s1) \<Longrightarrow>
       committed s1 ''services'' = Some (list_rows 0 (map vals_Service (elems xs2)))"
    "Svc_UpdateNews xs3 s = (None, s1) \<Longrightarrow>
       committed s1 ''news'' = Some (list_rows 0 (map vals_NewsItem (elems xs3)))"
    "Svc_UpdatePartners xs4 s = (None, s1) \<Longrightarrow>
       committed s1 ''partners'' = Some (list_rows 0 (map vals_Partner (elems xs4)))"
    "Svc_UpdateHeroSlides xs5 s = (None, s1) \<Longrightarrow>
       committed s1 ''hero_slides'' = Some (list_rows 0 (map vals_HeroSlide (elems xs5)))"
  unfolding svc_update_defs UpdateStats_def UpdateServices_def UpdateNews_def UpdatePartners_def
  by (erule with_timeout_run [OF _ assms dbTimeout_nonneg];
      auto dest!: run_ignoring_ok UpdateHeroSlides_ok stats.exec_replace services.exec_replace
        news.exec_replace partners.exec_replace hero.exec_replace)+

context single_table
begin

lemma timed_update_read:
  assumes "healthy s" "db_wf (committed s)" "committed s tbl \<noteq> Some []"
    and "with_timeout dbTimeout (db_exec (UpdateId1 tbl (vals x))) s = (None, s1)" "healthy s1"
  shows "get_row tbl cols scan zero s1 = ((x, None), s1)"
proof -
  from with_timeout_run [OF assms(4,1) dbTimeout_nonneg] obtain s' s2 where
    "committed s' = committed s" "db_exec (UpdateId1 tbl (vals x)) s' = (None, s2)" "committed s1 = committed s2" .
  with assms(2,3,5) update_read_fine [of s' x s2 s1 zero] show ?thesis by simp
qed

end

lemma singles_read:
  assumes "healthy s" "db_wf (committed s)" "healthy s1"
  shows "Svc_UpdateSite v1 s = (None, s1) \<Longrightarrow> committed s ''site'' \<noteq> Some [] \<Longrightarrow>
       GetSite s1 = ((v1, None), s1)"
    "Svc_UpdateAbout v2 s = (None, s1) \<Longrightarrow> committed s ''about'' \<noteq> Some [] \<Longrightarrow>
       GetAbout s1 = ((v2, None), s1)"
    "Svc_UpdateContact v3 s = (None, s1) \<Longrightarrow> committed s ''contact'' \<noteq> Some [] \<Longrightarrow>
       GetContact s1 = ((v3, None), s1)"
    "Svc_UpdateAdminPassword v4 s = (None, s1) \<Longrightarrow> committed s ''admin_password'' \<noteq> Some [] \<Longrightarrow>
       GetAdminPasswordHash s1 = ((v4, None), s1)"
  unfolding svc_update_defs UpdateSite_vals UpdateAbout_vals UpdateContact_vals UpdateAdminPassword_def
    GetSite_def GetAbout_def GetContact_def GetAdminPasswordHash_scan
  by (blast intro: assms site.timed_update_read about.timed_update_read contact.timed_update_read
      password.timed_update_read)+

text \<open>An update whose value the reads then show, as a handler of the admin area.\<close>

definition shown_after :: "'l world handler \<Rightarrow> request \<Rightarrow> 'l world \<Rightarrow> string \<Rightarrow> json \<Rightarrow> bool" where
  "shown_after h r \<sigma> k j \<longleftrightarrow>
     (w_status (fst (h r new_writer \<sigma>)) = Some 200 \<longrightarrow> content_shows k j (snd (h r new_writer \<sigma>)))"

lemma adminPUT_shows:
  assumes "healthy (wd_srv \<sigma>)" "only_tables (fn r)"
    and "\<And>s1. fn r (wd_srv \<sigma>) = (None, s1) \<Longrightarrow> healthy s1 \<Longrightarrow> member k (fst (read_content s1)) = Some j"
  shows "shown_after (\<lambda>r. adminPUT (fn r) r) r \<sigma> k j"
  unfolding shown_after_def
proof
  assume ok: "w_status (fst (adminPUT (fn r) r new_writer \<sigma>)) = Some 200"
  obtain w1 \<sigma>1 where p: "adminPUT (fn r) r new_writer \<sigma> = (w1, \<sigma>1)" by (rule prod.exhaust)
  from p ok obtain s1 where f: "fn r (wd_srv \<sigma>) = (None, s1)"
    and w: "\<sigma>1 = \<sigma>\<lparr>wd_srv := s1, wd_cache := cache_flush (wd_cache \<sigma>)\<rparr>"
    by (auto elim: adminPUT_ok)
  from assms(1,2) f have h: "healthy s1" unfolding only_tables_def by (metis healthy_committed snd_conv)
  show "content_shows k j (snd (adminPUT (fn r) r new_writer \<sigma>))"
    unfolding p snd_conv by (rule content_showsI) (simp_all add: w h get_flushed assms(3) [OF f h])
qed

lemma member_payload:
  "member ''site'' (content_payload a b c d e f g h) = Some (json_Site a)"
  "member ''hero'' (content_payload a b c d e f g h) = Some (JObj [(''slides'', json_of_slice json_HeroSlide b)])"
  "member ''stats'' (content_payload a b c d e f g h) = Some (json_of_slice json_Stat c)"
  "member ''about'' (content_payload a b c d e f g h) = Some (json_About d)"
  "member ''services'' (content_payload a b c d e f g h) = Some (json_of_slice json_Service e)"
  "member ''news'' (content_payload a b c d e f g h) = Some (json_of_slice json_NewsItem f)"
  "member ''partners'' (content_payload a b c d e f g h) = Some (json_of_slice json_Partner g)"
  "member ''contact'' (content_payload a b c d e f g h) = Some (json_Contact h)"
  by (simp_all add: member_def content_payload_def)

lemma lists_shown:
  assumes "healthy (wd_srv \<sigma>)"
  shows "shown_after AdminStats r \<sigma> ''stats''
      (JArr (map json_Stat (elems (body_value (decode_slice (decode_struct fields_Stat) zero_Stat) r None))))"
    "shown_after AdminServices r \<sigma> ''services''
      (JArr (map json_Service (elems (body_value (decode_slice (decode_struct fields_Service) zero_Service) r None))))"
    "shown_after AdminNews r \<sigma> ''news''
      (JArr (map json_NewsItem (elems (body_value (decode_slice (decode_struct fields_NewsItem) zero_NewsItem) r None))))"
    "shown_after AdminPartners r \<sigma> ''partners''
      (JArr (map json_Partner (elems (body_value (decode_slice (decode_struct fields_Partner) zero_Partner) r None))))"
    "shown_after AdminHero r \<sigma> ''hero''
      (JObj [(''slides'', JArr (map json_HeroSlide (elems (body_value decode_slides r None))))])"
  unfolding AdminStats_def [abs_def] AdminServices_def [abs_def] AdminNews_def [abs_def]
    AdminPartners_def [abs_def] AdminHero_def [abs_def]
  by (rule adminPUT_shows [OF assms], rule only_tables_svc,
      simp add: read_content_fine member_payload json_of_slice_def GetStats_def GetServices_def GetNews_def
        GetPartners_def GetHeroSlides_def stats.get_replaced_fine [OF lists_stored(1) [OF assms]]
        services.get_replaced_fine [OF lists_stored(2) [OF assms]] news.get_replaced_fine [OF lists_stored(3) [OF assms]]
        partners.get_replaced_fine [OF lists_stored(4) [OF assms]] hero.get_replaced_fine [OF lists_stored(5) [OF assms]])+

lemma singles_shown:
  assumes "healthy (wd_srv \<sigma>)" "db_wf (committed (wd_srv \<sigma>))"
  shows "committed (wd_srv \<sigma>) ''site'' \<noteq> Some [] \<Longrightarrow> shown_after AdminSite r \<sigma> ''site''
      (json_Site (body_value (decode_struct fields_Site) r zero_Site))"
    "committed (wd_srv \<sigma>) ''about'' \<noteq> Some [] \<Longrightarrow> shown_after AdminAbout r \<sigma> ''about''
      (json_About (body_value (decode_struct fields_About) r zero_About))"
    "committed (wd_srv \<sigma>) ''contact'' \<noteq> Some [] \<Longrightarrow> shown_after AdminContact r \<sigma> ''contact''
      (json_Contact (body_value (decode_struct fields_Contact) r zero_Contact))"
  unfolding AdminSite_def [abs_def] AdminAbout_def [abs_def] AdminContact_def [abs_def]
  by (rule adminPUT_shows [OF assms(1)], rule only_tables_svc,
      simp add: read_content_fine member_payload singles_read [OF assms])+

text \<open>
  An update of the content that answers 200 is what every later read of the content shows, until the
  next write: the cache is emptied by the update, so the next \<open>GET /api/content\<close> answers 200 with exactly
  the value decoded from the body of the update, for the five lists and, once their row exists, for the
  singletons. (The database answers; failing databases are the subject of other properties.)
\<close>

theorem admin_update_is_shown:
  assumes "healthy (wd_srv \<sigma>)" "db_wf (committed (wd_srv \<sigma>))"
    and "committed (wd_srv \<sigma>) ''site'' \<noteq> Some []" "committed (wd_srv \<sigma>) ''about'' \<noteq> Some []"
    and "committed (wd_srv \<sigma>) ''contact'' \<noteq> Some []"
  shows "shown_after AdminSite r \<sigma> ''site'' (json_Site (body_value (decode_struct fields_Site) r zero_Site)) \<and>
    shown_after AdminHero r \<sigma> ''hero''
      (JObj [(''slides'', JArr (map json_HeroSlide (elems (body_value decode_slides r None))))]) \<and>
    shown_after AdminStats r \<sigma> ''stats''
      (JArr (map json_Stat (elems (body_value (decode_slice (decode_struct fields_Stat) zero_Stat) r None)))) \<and>
    shown_after AdminAbout r \<sigma> ''about'' (json_About (body_value (decode_struct fields_About) r zero_About)) \<and>
    shown_after AdminServices r \<sigma> ''services''
      (JArr (map json_Service (elems (body_value (decode_slice (decode_struct fields_Service) zero_Service) r None)))) \<and>
    shown_after AdminNews r \<sigma> ''news''
      (JArr (map json_NewsItem (elems (body_value (decode_slice (decode_struct fields_NewsItem) zero_NewsItem) r None)))) \<and>
    shown_after AdminPartners r \<sigma> ''partners''
      (JArr (map json_Partner (elems (body_value (decode_slice (decode_struct fields_Partner) zero_Partner) r None)))) \<and>
    shown_after AdminContact r \<sigma> ''contact''
      (json_Contact (body_value (decode_struct fields_Contact) r zero_Contact))"
  by (intro conjI lists_shown [OF assms(1)] singles_shown [OF assms(1,2)] assms(3-5))


definition site_put :: request where
  "site_put = (some_request ''PUT'' ''/api/admin/site'')\<lparr>req_body :=
     ''{'' @ quoted ''companyName'' @ '':'' @ quoted ''Acme'' @ '',''  @ quoted ''tagline'' @ '':'' @ quoted ''t'' @ ''}''\<rparr>"

lemma readBody_short:
  "length (req_body r) \<le> body_limit \<Longrightarrow>
     readBody dec r v = (case json_first (req_body r) of None \<Rightarrow> (v, True) | Some j \<Rightarrow> dec j v)"
  by (simp add: readBody_def)

lemma short_put: "length (req_body site_put) \<le> body_limit"
  by (simp add: site_put_def quoted_def body_limit_def)

theorem admin_update_is_shown_witness:
  "content_shows ''site'' (json_Site \<lparr>site_companyName = ''Acme'', site_tagline = ''t''\<rparr>)
     (snd (AdminSite site_put new_writer empty_world))"
proof -
  let ?v = "\<lparr>site_companyName = ''Acme'', site_tagline = ''t''\<rparr>"
  have srv: "wd_srv empty_world = seeded_server" by (simp add: empty_world_def)
  have c: "committed seeded_server = seeded_db" by (simp add: seeded_server_def)
  have h: "healthy (wd_srv empty_world)" "db_wf (committed (wd_srv empty_world))"
    by (simp_all add: srv c seeded_db_wf) (simp add: seeded_server_def healthy_def)
  have n: "committed (wd_srv empty_world) t \<noteq> Some []" if "t \<in> {''site'', ''about'', ''contact''}" for t
    using that by (auto simp: srv c seeded_db_def)
  have b: "fst (case json_first (req_body site_put) of None \<Rightarrow> (zero_Site, True)
      | Some j \<Rightarrow> decode_struct fields_Site j zero_Site) = ?v" by code_simp
  have v: "body_value (decode_struct fields_Site) site_put zero_Site = ?v"
    unfolding body_value_def readBody_short [OF short_put] by (rule b)
  have "fst (Svc_UpdateSite ?v seeded_server) = None" by code_simp
  then have "w_status (fst (AdminSite site_put new_writer empty_world)) = Some 200"
    unfolding AdminSite_def v
    by (intro adminPUT_accepts) (simp_all only: srv, simp add: site_put_def some_request_def)
  with admin_update_is_shown [OF h n n n, of site_put] show ?thesis by (simp add: shown_after_def v)
qed

end
