(* ===== verification/LimitThms.thy ===== *)
theory LimitThms
  imports HandlerThms
begin

text \<open>
  The rate limit as clients meet it: no spelling of a path leads to a handler of the API past the limiter,
  a refused client is served again after the minute it was told to wait, and a client that makes up its
  own address is never refused.
\<close>

section \<open>Paths\<close>

definition api_route :: "route \<Rightarrow> bool" where
  "api_route rt \<longleftrightarrow> rt \<notin> {RtHealth, RtUploads, RtAdminPage, RtFallback}"

lemma hex_val_slash: "hex_val (CHR ''/'') = None"
  by code_simp

lemma join_Cons: "join_with c ((x # s) # ss) = x # join_with c (s # ss)"
  by (cases ss) (simp_all add: join_with_def)

lemma unescape_segments:
  "url_unescape s = Some t \<Longrightarrow>
     \<exists>us. those (map url_unescape (split_on (CHR ''/'') s)) = Some us \<and> us \<noteq> [] \<and> t = join_with (CHR ''/'') us"
proof (induction s arbitrary: t rule: url_unescape.induct)
  case 1
  then show ?case by (simp add: join_with_def)
next
  case (2 c s)
  show ?case
  proof (cases "c = CHR ''%''")
    case True
    with "2.prems" obtain a b s' x y t' where s: "s = a # b # s'" "hex_val a = Some x" "hex_val b = Some y"
      "url_unescape s' = Some t'" "t = char_of (16 * x + y) # t'"
      by (auto split: list.splits option.splits)
    have ab: "a \<noteq> CHR ''/''" "b \<noteq> CHR ''/''" using s(2,3) hex_val_slash by auto
    from "2.IH"(1) [OF True s(1) refl refl, of x y t'] s obtain us where
      us: "those (map url_unescape (split_on (CHR ''/'') s')) = Some us" "us \<noteq> []" "t' = join_with (CHR ''/'') us"
      by auto
    from us(1) obtain u w where "split_on (CHR ''/'') s' = u # w" by (cases "split_on (CHR ''/'') s'") auto
    with us ab s True show ?thesis by (cases us) (auto simp: join_Cons split: option.splits)
  next
    case False
    with "2.prems" obtain t' where t': "url_unescape s = Some t'" "t = c # t'" by auto
    from "2.IH"(2) [OF False t'(1)] obtain us where
      us: "those (map url_unescape (split_on (CHR ''/'') s)) = Some us" "us \<noteq> []" "t' = join_with (CHR ''/'') us"
      by auto
    show ?thesis
    proof (cases "c = CHR ''/''")
      case True
      with us t'(2) show ?thesis by (cases us) simp_all
    next
      case c: False
      from us(1) obtain u w where "split_on (CHR ''/'') s = u # w" by (cases "split_on (CHR ''/'') s") auto
      with us t'(2) False c show ?thesis by (cases us) (auto simp: join_Cons split: option.splits)
    qed
  qed
qed

lemma those_default: "those (map f xs) = Some ys \<Longrightarrow> map (\<lambda>x. case f x of None \<Rightarrow> g x | Some y \<Rightarrow> y) xs = ys"
  by (induction xs arbitrary: ys) (auto split: option.splits)

lemma path_segments_join:
  assumes "url_unescape (CHR ''/'' # p) = Some path"
  shows "path = CHR ''/'' # join_with (CHR ''/'') (path_segments (CHR ''/'' # p))"
proof -
  from assms obtain t where t: "url_unescape p = Some t" "path = CHR ''/'' # t" by auto
  from unescape_segments [OF t(1)] those_default t(2) show ?thesis by (fastforce simp: path_segments_def)
qed

lemma api_route_segments:
  assumes "api_route (match_route p)"
  obtains x xs where "path_segments p = ''api'' # x # xs"
proof -
  obtain rt where m: "map_of exact_routes (path_segments p) = Some rt" "api_route rt"
    using assms by (auto simp: match_route_def Let_def api_route_def split: option.splits if_splits)
  then have "(path_segments p, rt) \<in> set exact_routes" by (blast dest: map_of_SomeD)
  with m(2) that show thesis by (auto simp: exact_routes_def api_route_def)
qed

lemma api_route_prefix:
  assumes "req_escaped r = CHR ''/'' # p" "url_unescape (req_escaped r) = Some (req_path r)"
    and "api_route (match_route (req_escaped r))"
  shows "has_prefix (req_path r) ''/api/''"
proof -
  from api_route_segments [OF assms(3)] obtain x xs where "path_segments (req_escaped r) = ''api'' # x # xs" .
  with path_segments_join [of p "req_path r"] assms(1,2) show ?thesis by (simp add: has_prefix_def)
qed

text \<open>
  C26. The limiter cannot be bypassed: however the path of a request is spelled (with escapes such as
  \<open>%61pi\<close>), if it is the path of a route of the API and the limiter refuses the client, the answer is
  status 429 with \<open>Retry-After: 60\<close>, no handler runs and nothing but the limiter changes.
\<close>

theorem api_always_limited:
  assumes "req_escaped r = CHR ''/'' # p" "url_unescape (req_escaped r) = Some (req_path r)"
    and "api_route (match_route (req_escaped r))"
    and "rl_allow api (wd_now \<sigma>) (realIP r) (wd_limiter \<sigma>) = (False, rl)"
  shows "\<exists>w1. server_handler api env allowed pub r new_writer \<sigma> = (w1, \<sigma>\<lparr>wd_limiter := rl\<rparr>) \<and>
    w_status w1 = Some 429 \<and> hget ''Retry-After'' (w_sent w1) = ''60''"
proof -
  have ne: "canonical ''Retry-After'' \<noteq> canonical ''Content-Type''"
    "canonical ''Retry-After'' \<noteq> canonical ''X-Content-Type-Options''"
    "canonical ''Retry-After'' \<noteq> canonical ''Content-Length''"
    by code_simp+
  show ?thesis
    using api_route_prefix [OF assms(1-3)] assms(4) ne
    by (simp add: server_handler_def RateLimit_def http_error_def set_header_def new_writer_def write_header_def
        write_chunk_def del_header_def hget_hset)
qed


definition escaped_request :: request where
  "escaped_request = (some_request ''GET'' ''/%61pi/content'')\<lparr>req_path := ''/api/content''\<rparr>"

definition no_limit_world :: "bucket world" where
  "no_limit_world = empty_world\<lparr>wd_limiter := \<lparr>visitors = (\<lambda>_. None), rps = 0, burst = 0\<rparr>\<rparr>"

theorem api_always_limited_witness:
  "w_status (fst (server_handler bucket_api some_env [] ''./public'' escaped_request new_writer no_limit_world)) =
     Some 429"
proof -
  obtain ok rl where a:
    "rl_allow bucket_api (wd_now no_limit_world) (realIP escaped_request) (wd_limiter no_limit_world) = (ok, rl)"
    by (rule prod.exhaust)
  then have "ok = False"
    by (auto simp: rl_allow_def getLimiter_def no_limit_world_def tb_new_def tb_allow_def Let_def)
  with a have f: "rl_allow bucket_api (wd_now no_limit_world) (realIP escaped_request) (wd_limiter no_limit_world) =
      (False, rl)" by simp
  have e: "req_escaped escaped_request = ''/%61pi/content''" "req_path escaped_request = ''/api/content''"
    by (simp_all add: escaped_request_def some_request_def)
  have u: "url_unescape ''/%61pi/content'' = Some ''/api/content''" by code_simp
  have m: "api_route (match_route ''/%61pi/content'')" by code_simp
  have "req_escaped escaped_request = CHR ''/'' # ''%61pi/content''"
    "url_unescape (req_escaped escaped_request) = Some (req_path escaped_request)"
    "api_route (match_route (req_escaped escaped_request))"
    using u m by (simp_all add: e)
  from api_always_limited [OF this f, of some_env "[]" "''./public''"] show ?thesis by auto
qed

section \<open>Waiting\<close>

lemma answers_snoc:
  assumes "go_int n" "sorted (map fst (evs @ [(t, RLRequest ip)]))"
  shows "last (answers_for ip (run_rl bucket_api (NewRateLimiter n) (evs @ [(t, RLRequest ip)]))) =
    fst (tb_allow t (limiter_after bucket_api (tb_new (limit_of n) (go_div n 4)) (times_of ip evs)))"
  unfolding answers_limiter [OF assms] times_of_append
  by (simp add: run_limiter_append split: prod.splits)

text \<open>
  C27. The promise of \<open>Retry-After: 60\<close> is kept: whatever a client did before, and whatever the others do,
  a request that comes more than 60 seconds after its last one is granted (for every configured
  rate that grants anything, that is of at least four requests per minute).
\<close>

theorem retry_after_honoured:
  assumes "go_int perMinute" "4 \<le> perMinute" "sorted (map fst (evs @ [(t, RLRequest ip)]))"
    and "\<forall>(u, e) \<in> set evs. 0 \<le> u" "\<forall>u \<in> set (times_of ip evs). u + 60 * 10 ^ 9 < t" "60 * 10 ^ 9 < t"
  shows "last (answers_for ip (run_rl bucket_api (NewRateLimiter perMinute) (evs @ [(t, RLRequest ip)])))"
proof -
  let ?r = "limit_of perMinute" and ?b = "go_div perMinute 4"
  have ok: "rate_ok ?r ?b" using assms(1,2) by (intro limit_ok) (simp_all add: go_int_def)
  then have r: "0 < ?r" and b: "1 \<le> ?b" by (simp_all add: rate_ok_def)
  have so: "sorted (0 # times_of ip evs)"
    using assms(3,4) set_times_of [of ip evs] sorted_times_of [of evs ip] by (fastforce simp: sorted_append)
  have "list_all2 (read_within 0) (times_of ip evs) (times_of ip evs)"
    by (rule list.rel_refl) (simp add: read_within_def)
  from limiter_after_used [OF r b used_fresh [OF b r order.refl] so this]
  have used: "tb_used ?r ?b (limiter_after bucket_api (tb_new ?r ?b) (times_of ip evs)) (last (0 # times_of ip evs))" .
  have "last (0 # times_of ip evs) + 60 * 10 ^ 9 < t"
    using assms(5,6) last_in_set [of "times_of ip evs"] by auto
  from minute_refills [OF ok used this] answers_snoc [OF assms(1,3)] show ?thesis by simp
qed

theorem retry_after_honoured_witness:
  "last (answers_for ''a'' (run_rl bucket_api (NewRateLimiter 4)
     ([(0, RLRequest ''a''), (1, RLRequest ''a''), (5, RLRequest ''b'')] @ [(60 * 10 ^ 9 + 2, RLRequest ''a'')])))"
  by (rule retry_after_honoured) (simp_all add: go_int_def)

section \<open>Forged addresses\<close>

definition forwarded :: "request \<Rightarrow> string \<Rightarrow> request" where
  "forwarded r ip = r\<lparr>req_headers := hset ''X-Forwarded-For'' ip (req_headers r)\<rparr>"

lemma forwarded_address:
  assumes "ip \<noteq> []" "CHR '','' \<notin> set ip" "trim_space ip = ip"
  shows "realIP (forwarded r ip) = ip"
proof -
  have "hget ''X-Forwarded-For'' (req_headers (forwarded r ip)) = ip"
    by (simp add: forwarded_def hget_hset)
  with assms show ?thesis by (simp add: realIP_def split_on_notin)
qed

lemma fresh_granted:
  assumes "1 \<le> b" "visitors rl ip = None" "burst rl = b" "rl_allow bucket_api t ip rl = (ok, rl1)"
  shows "ok" "burst rl1 = b" "ip' \<noteq> ip \<Longrightarrow> visitors rl1 ip' = visitors rl ip'"
proof -
  have "tb_allow t (tb_new (rps rl) b) =
      (True, (tb_new (rps rl) b)\<lparr>tb_last := t, tb_tokens := round64 (round64 (of_int b) - 1)\<rparr>)"
    using allow_full [of t "tb_new (rps rl) b"] advance_new [of t "rps rl" b] assms(1) by (simp add: tb_new_def)
  with assms show "ok" "burst rl1 = b" "ip' \<noteq> ip \<Longrightarrow> visitors rl1 ip' = visitors rl ip'"
    by (auto simp: rl_allow_def getLimiter_def Let_def)
qed

lemma fresh_all_granted:
  "1 \<le> b \<Longrightarrow> burst rl = b \<Longrightarrow> distinct (map snd reqs) \<Longrightarrow> \<forall>ip \<in> snd ` set reqs. visitors rl ip = None \<Longrightarrow>
     run_rl bucket_api rl (map (\<lambda>(t, ip). (t, RLRequest ip)) reqs) = map (\<lambda>(t, ip). (ip, True)) reqs"
proof (induction reqs arbitrary: rl)
  case (Cons q reqs)
  obtain t ip where q: "q = (t, ip)" by (rule prod.exhaust)
  obtain ok rl1 where a: "rl_allow bucket_api t ip rl = (ok, rl1)" by (rule prod.exhaust)
  have v: "visitors rl ip = None" using Cons.prems(4) q by simp
  note f = fresh_granted [OF Cons.prems(1) v Cons.prems(2) a]
  have "\<forall>ip' \<in> snd ` set reqs. visitors rl1 ip' = None"
    using f(3) Cons.prems(3,4) q by (metis distinct.simps(2) imageE image_eqI list.set_intros(2) list.simps(9) list.set_map snd_conv)
  with Cons.IH [OF Cons.prems(1) f(2)] Cons.prems(3) q a f(1) show ?case by simp
qed simp

text \<open>
  C37. The limit is per claimed address: the address is the first element of \<open>X-Forwarded-For\<close>, which the
  client writes itself (a proxy that appends to the header leaves it there), so a client that sends a
  new one with every request is granted all of them, however many and however fast.
\<close>

theorem forged_addresses_unlimited:
  assumes "4 \<le> perMinute" "distinct ips" "length ts = length ips"
    and "\<forall>ip \<in> set ips. ip \<noteq> [] \<and> CHR '','' \<notin> set ip \<and> trim_space ip = ip"
  shows "\<forall>d \<in> set (run_rl bucket_api (NewRateLimiter perMinute)
      (zip ts (map (\<lambda>ip. RLRequest (realIP (forwarded r ip))) ips))). snd d"
proof -
  have addr: "map (\<lambda>ip. RLRequest (realIP (forwarded r ip))) ips = map RLRequest ips"
    using assms(4) forwarded_address by simp
  have z: "zip ts (map (\<lambda>ip. RLRequest (realIP (forwarded r ip))) ips) =
      map (\<lambda>(t, ip). (t, RLRequest ip)) (zip ts ips)"
    unfolding addr by (simp add: zip_map2 split_def)
  have b: "1 \<le> go_div perMinute 4" using assms(1) by (simp add: go_div_def)
  have "distinct (map snd (zip ts ips))" using assms(2,3) by simp
  then show ?thesis
    unfolding z by (subst fresh_all_granted [OF b]) (auto simp: NewRateLimiter_def)
qed

theorem forged_addresses_unlimited_witness:
  "list_all snd (run_rl bucket_api (NewRateLimiter 4) (zip [0, 0, 0] (map (\<lambda>ip. RLRequest
      (realIP (forwarded (some_request ''POST'' ''/api/admin/login'') ip))) [''1'', ''2'', ''3''])))"
proof -
  have "\<forall>ip \<in> set [''1'', ''2'', ''3'']. ip \<noteq> [] \<and> CHR '','' \<notin> set ip \<and> trim_space ip = ip" by code_simp
  from forged_addresses_unlimited [OF _ _ _ this, of 4 "[0, 0, 0]" "some_request ''POST'' ''/api/admin/login''"]
  show ?thesis by (simp add: list_all_iff)
qed

section \<open>Files outside the public directory\<close>

lemma unescape_plain: "CHR ''%'' \<notin> set f \<Longrightarrow> url_unescape f = Some f"
  by (induction f) auto

text \<open>
  C38. The fallback route asks the disk about paths outside the public directory: for a request of
  \<open>/%2e%2e/f\<close> the file \<open>f\<close> beside the public directory is looked up, and the answer tells whether it is
  there (the file server answers, with the cache header) or not (\<open>http.ServeFile\<close> is called for
  \<open>index.html\<close>, which for such a path answers 400).
\<close>

theorem fallback_probes_parent:
  assumes "req_escaped r = ''/%2e%2e/'' @ f" "req_path r = ''/../'' @ f" "req_method r = ''GET''"
    and "f \<noteq> []" "\<forall>c \<in> set f. c \<noteq> CHR ''/'' \<and> c \<noteq> CHR ''.'' \<and> c \<noteq> CHR ''%''"
  shows "mux env ''./public'' r w \<sigma> =
    (if e_stat env f
     then (e_file_server env ''./public'' (wd_files \<sigma>) r (set_header ''Cache-Control'' ''public, max-age=86400'' w), \<sigma>)
     else (e_serve_file env ''public/index.html'' r w, \<sigma>))"
proof -
  have sl: "CHR ''/'' \<notin> set f" and dt: "CHR ''.'' \<notin> set f" and pc: "CHR ''%'' \<notin> set f"
    using assms(5) by blast+
  have sp: "split_on (CHR ''/'') f = [f]" by (rule split_on_notin [OF sl])
  have nd: "f \<noteq> ''.''" "f \<noteq> ''..''" using dt by (metis list.set_intros(1))+
  have lf: "last f \<noteq> CHR ''/''" using assms(4) sl by (metis last_in_set)
  have c: "clean_path (''/%2e%2e/'' @ f) = ''/%2e%2e/'' @ f"
    using lf assms(4) nd by (simp add: clean_path_def go_clean_def sp clean_step_def join_with_def Let_def)
  have s: "path_segments (''/%2e%2e/'' @ f) = [''..'', f]"
  proof -
    have "url_unescape ''%2e%2e'' = Some ''..''" by code_simp
    moreover have "split_on (CHR ''/'') (''%2e%2e'' @ CHR ''/'' # f) = [''%2e%2e'', f]"
      by (subst split_on_append) (simp_all add: sp)
    moreover have "url_unescape f = Some f" by (rule unescape_plain [OF pc])
    ultimately show ?thesis by (simp add: path_segments_def)
  qed
  have m: "match_route (''/%2e%2e/'' @ f) = RtFallback"
    unfolding match_route_def s by (simp add: exact_routes_def)
  have j: "filepath_join ''./public'' (''/../'' @ f) = f"
    using nd assms(4) by (simp add: filepath_join_def go_clean_def sp clean_step_def join_with_def Let_def)
  have i: "filepath_join ''./public'' ''index.html'' = ''public/index.html''" by code_simp
  show ?thesis
    unfolding mux_def assms(1,3) Let_def c
    using s m assms(2) i j by (simp add: spa_fallback_def AddCacheHeaders_def public_server_def Let_def)
qed

theorem fallback_probes_parent_witness:
  "mux some_env ''./public'' ((some_request ''GET'' ''/%2e%2e/secret'')\<lparr>req_path := ''/../secret''\<rparr>) new_writer
     empty_world =
   (write_chunk (FileOut ''public/index.html'') new_writer, empty_world)"
proof -
  let ?r = "(some_request ''GET'' ''/%2e%2e/secret'')\<lparr>req_path := ''/../secret''\<rparr>"
  have p: "req_escaped ?r = ''/%2e%2e/'' @ ''secret''" "req_path ?r = ''/../'' @ ''secret''" "req_method ?r = ''GET''"
    by (simp_all add: some_request_def)
  have "\<forall>c \<in> set ''secret''. c \<noteq> CHR ''/'' \<and> c \<noteq> CHR ''.'' \<and> c \<noteq> CHR ''%''" by code_simp
  from fallback_probes_parent [OF p _ this, of some_env new_writer empty_world] show ?thesis
    by (simp add: some_env_def)
qed

end
