(* ===== verification/Startup.thy ===== *)
theory Startup
  imports Config MigrateThms ContentThms LimitThms
begin

text \<open>
  \<open>cmd/server/main.go\<close> up to the point where the server listens, with \<open>internal/db/db.go\<close> and
  \<open>internal/logger/logger.go\<close>. The driver's check of the connection string is an argument; the signals, the
  graceful shutdown and the log lines that report progress are left out.
\<close>

section \<open>internal/logger\<close>

datatype log_format = TextHandler | JSONHandler

definition Init :: "bool \<Rightarrow> log_format" where
  "Init isDev = (if isDev then TextHandler else JSONHandler)"

text \<open>A context maps keys to values; a key of type \<open>ctxKey\<close> is the number 0 here.\<close>

definition WithCtx :: "(nat \<rightharpoonup> log_format) \<Rightarrow> log_format \<Rightarrow> (nat \<rightharpoonup> log_format)" where
  "WithCtx ctx l = ctx(0 \<mapsto> l)"

definition FromCtx :: "log_format \<Rightarrow> (nat \<rightharpoonup> log_format) \<Rightarrow> log_format" where
  "FromCtx L ctx = (case ctx 0 of Some l \<Rightarrow> l | None \<Rightarrow> L)"

section \<open>internal/db\<close>

text \<open>The limits of the pool as \<open>database/sql\<close> keeps them: 0 open connections is no limit.\<close>

record pool =
  pl_open :: int
  pl_idle :: int
  pl_lifetime :: int
  pl_idle_time :: int

definition SetMaxOpenConns :: "int \<Rightarrow> pool \<Rightarrow> pool" where
  "SetMaxOpenConns n p =
     (let o1 = max 0 n in
      p\<lparr>pl_open := o1, pl_idle := (if 0 < o1 \<and> o1 < pl_idle p then o1 else pl_idle p)\<rparr>)"

definition SetMaxIdleConns :: "int \<Rightarrow> pool \<Rightarrow> pool" where
  "SetMaxIdleConns n p =
     (let i = max 0 n in p\<lparr>pl_idle := (if 0 < pl_open p \<and> pl_open p < i then pl_open p else i)\<rparr>)"

definition new_pool :: pool where
  "new_pool = \<lparr>pl_open = 0, pl_idle = 2, pl_lifetime = 0, pl_idle_time = 0\<rparr>"

definition ping :: "server \<Rightarrow> goerr option \<times> server" where
  "ping s =
     (case next_fault s of
        (Fine, s1) \<Rightarrow> (None, s1)
      | (f, s1) \<Rightarrow> (Some (ErrDriver (fault_text f)), s1))"

definition Open :: "(string \<Rightarrow> goerr option) \<Rightarrow> Config \<Rightarrow> server \<Rightarrow> (goerr + pool) \<times> server" where
  "Open driver cfg s =
     (case driver (DatabaseURL cfg) of
        Some e \<Rightarrow> (Inl (ErrWrap ''db: open'' e), s)
      | None \<Rightarrow>
          (let p = (SetMaxIdleConns (DBMaxIdle cfg) (SetMaxOpenConns (DBMaxOpen cfg) new_pool))
                     \<lparr>pl_lifetime := max 0 (DBConnLifetime cfg), pl_idle_time := 10 * 60 * 10 ^ 9\<rparr>
           in case with_timeout (5 * 10 ^ 9) ping s of
                (Some e, s1) \<Rightarrow> (Inl (ErrWrap ''db: ping failed'' e), s1)
              | (None, s1) \<Rightarrow> (Inr p, s1)))"

section \<open>cmd/server/main.go\<close>

text \<open>What the program needs from outside, beside the environment of the handlers.\<close>

record outside =
  ot_getenv :: "string \<Rightarrow> string"
  ot_driver :: "string \<Rightarrow> goerr option"
  ot_sql :: "string \<Rightarrow> db \<Rightarrow> goerr + db"
  ot_disk :: disk
  ot_hash :: "string option"
  ot_langs :: "(string \<times> langmap) list"

record 'l app =
  ap_cfg :: Config
  ap_log :: log_format
  ap_pool :: pool
  ap_versions :: "int list"
  ap_world :: "'l world"

text \<open>Whether the profiler of \<open>net/http/pprof\<close> is served, on a port of its own.\<close>

definition serves_pprof :: "Config \<Rightarrow> bool" where
  "serves_pprof cfg = EnablePprof cfg"

text \<open>The program ends with exit status 1 after a line of the log, or it serves.\<close>

datatype 'a start = Exit string goerr | Serving 'a

definition main_start :: "outside \<Rightarrow> mig_db \<Rightarrow> (string \<rightharpoonup> string) \<Rightarrow> disk_step list \<Rightarrow> nat list \<Rightarrow> 'l app start" where
  "main_start ot s files disk random =
     (case Load (ot_getenv ot) of
        Inl msg \<Rightarrow> Exit ''Config error'' (ErrText msg)
      | Inr cfg \<Rightarrow>
          (case Open (ot_driver ot) cfg (md_srv s) of
             (Inl e, s1) \<Rightarrow> Exit ''DB open failed'' e
           | (Inr p, s1) \<Rightarrow>
               (case Run (ot_sql ot) (ot_disk ot) (MigrationsDir cfg) (s\<lparr>md_srv := s1\<rparr>) of
                  (Some e, s2) \<Rightarrow> Exit ''Migration failed'' e
                | (None, s2) \<Rightarrow>
                    (case SeedIfEmpty (ot_hash ot) (ot_langs ot) (md_srv s2) of
                       (Some e, s3) \<Rightarrow> Exit ''Seed failed'' e
                     | (None, s3) \<Rightarrow>
                         Serving
                           \<lparr>ap_cfg = cfg, ap_log = Init (IsDev cfg), ap_pool = p, ap_versions = versions_of s2,
                            ap_world =
                              \<lparr>wd_srv = s3, wd_cache = cache_new (30 * 10 ^ 9),
                               wd_limiter = NewRateLimiter (RateLimitPerMin cfg),
                               wd_files = files, wd_disk = disk, wd_random = random\<rparr>\<rparr>))))"

text \<open>The handler that is served: the secret and the directory of the uploads come from the configuration.\<close>

definition app_handler :: "'l limiter_api \<Rightarrow> env \<Rightarrow> Config \<Rightarrow> 'l world handler" where
  "app_handler api env cfg =
     server_handler api (env\<lparr>e_secret := JWTSecret cfg, e_uploadDir := UploadDir cfg\<rparr>) (AllowedOrigins cfg)
       (PublicDir cfg)"

section \<open>Properties\<close>

lemma pool_fits:
  assumes "Open driver cfg s = (Inr p, s1)"
  shows "pl_open p = max 0 (DBMaxOpen cfg)"
    "pl_idle p = (if 0 < DBMaxOpen cfg then min (DBMaxOpen cfg) (max 0 (DBMaxIdle cfg)) else max 0 (DBMaxIdle cfg))"
    "committed s1 = committed s"
proof -
  have c: "ping s' = (e, s2) \<Longrightarrow> committed s2 = committed s'" for s' e s2
    by (auto simp: ping_def next_fault_committed split: prod.splits fault.splits)
  have "with_timeout d ping s = (e, s2) \<Longrightarrow> committed s2 = committed s" for d e s2
    by (auto simp: with_timeout_def Let_def dest!: c split: prod.splits)
  with assms show "committed s1 = committed s"
    by (auto simp: Open_def Let_def split: option.splits prod.splits)
  from assms show "pl_open p = max 0 (DBMaxOpen cfg)"
    "pl_idle p = (if 0 < DBMaxOpen cfg then min (DBMaxOpen cfg) (max 0 (DBMaxIdle cfg)) else max 0 (DBMaxIdle cfg))"
    by (auto simp: Open_def SetMaxIdleConns_def SetMaxOpenConns_def Let_def split: option.splits prod.splits)
qed

text \<open>After seeding there is a row for the site.\<close>

lemma exec_stmt_frame: "exec_stmt st d = Inr d1 \<Longrightarrow> t \<noteq> stmt_table st \<Longrightarrow> d1 t = d t"
  by (cases st)
    (auto simp: exec_stmt_def exec_insert_def exec_update_def Let_def split: option.splits sum.splits if_splits)

lemma exec_stmts_frame:
  "exec_stmts sts d = Inr d1 \<Longrightarrow> list_all (\<lambda>st. stmt_table st \<noteq> t) sts \<Longrightarrow> d1 t = d t"
  by (induction sts arbitrary: d) (auto split: sum.splits dest: exec_stmt_frame [of _ _ _ t])

lemma list_inserts_table: "list_all (\<lambda>st. stmt_table st = t) (list_inserts t i vs)"
  by (induction vs arbitrary: i) (simp_all add: list_insert_def)

lemma seed_fills_site:
  assumes "exec_stmts (seed_stmts h langs) d = Inr d1" "d ''site'' = Some []"
  shows "\<exists>r rs. d1 ''site'' = Some (r # rs)"
proof -
  let ?d = "d(''site'' \<mapsto> [(''id'', VInt 1) # vals_Site seed_site])"
  have rest: "list_all (\<lambda>st. stmt_table st \<noteq> ''site'') (tl (seed_stmts h langs))"
    using list_inserts_table [of "''hero_slides''" 0 "[vals_HeroSlide seed_slide]"]
      list_inserts_table [of "''stats''" 0 "map vals_Stat seed_stats"]
    by (auto simp: seed_stmts_def insert_id1_def list_all_iff)
  have "seed_stmts h langs = insert_id1 ''site'' (vals_Site seed_site) # tl (seed_stmts h langs)"
    by (simp add: seed_stmts_def)
  with assms insert_site [of d] have "exec_stmts (tl (seed_stmts h langs)) ?d = Inr d1"
    by (metis exec_stmts.simps(2) sum.case(2))
  from exec_stmts_frame [OF this rest] show ?thesis by simp
qed

lemma db_exec_frame: "db_exec st s = (e, s1) \<Longrightarrow> t \<noteq> stmt_table st \<Longrightarrow> committed s1 t = committed s t"
  by (auto simp: db_exec_def next_fault_committed dest: exec_stmt_frame [of _ _ _ t]
      split: prod.splits fault.splits sum.splits)

lemma MigrateLanguages_site: "committed (MigrateLanguages langs s) ''site'' = committed s ''site''"
  by (induction langs s rule: MigrateLanguages.induct)
    (auto simp: Let_def db_count_committed db_exec_frame split: prod.splits)

lemma SeedIfEmpty_site:
  assumes "SeedIfEmpty (Some h) langs s = (None, s1)" "default_order langs"
  shows "\<exists>r rs. committed s1 ''site'' = Some (r # rs)"
proof (cases "committed s ''site''")
  case None
  obtain c s2 where c: "db_count ''site'' None s = (c, s2)" by force
  with None assms(1) db_count_found [of "''site''" None s _ s2] show ?thesis
    by (cases c) (auto simp: SeedIfEmpty_def)
next
  case (Some rows)
  show ?thesis
  proof (cases rows)
    case Nil
    with Some SeedIfEmpty_empty [of s h langs] assms(1) seed_fills_site show ?thesis by auto
  next
    case (Cons r rs)
    obtain c s2 where c: "db_count ''site'' None s = (c, s2)" by force
    then have s2: "committed s2 = committed s" by (rule db_count_committed)
    from c Some Cons assms(1) db_count_found [of "''site''" None s _ s2]
    have s1: "s1 = MigrateLanguages langs s2" by (cases c) (auto simp: SeedIfEmpty_def where_rows_def)
    have "committed (MigrateLanguages langs s2) ''site'' = committed s2 ''site''"
      by (rule MigrateLanguages_site)
    with s1 s2 Some Cons show ?thesis by simp
  qed
qed

lemma Load_pprof:
  assumes "Load getenv = Inr c"
  shows "EnablePprof c \<longleftrightarrow> getenv ''ENABLE_PPROF'' = ''true''"
proof -
  from assms have "EnablePprof c = (getEnv getenv ''ENABLE_PPROF'' ''false'' = ''true'')"
    unfolding Load_def Let_def by (simp split: if_splits) (erule subst, simp)
  then show ?thesis by (simp add: getEnv_def)
qed

text \<open>
  C11. The server listens only when it is ready. Its secret has at least 32 bytes. Every script of the
  migrations directory whose version was not recorded before this start has been executed, in the order of
  the versions, on the tables as they were, and exactly those versions have been added to the record,
  without duplicates; a script whose number was recorded before is skipped, also when it is another script
  (C36). The tables that result have been seeded, and there is content to serve (a row for the site). The
  pool opens at most \<open>DB_MAX_OPEN\<close> connections and keeps at most \<open>DB_MAX_IDLE\<close> of them, and no more idle ones
  than open ones (no limit when \<open>DB_MAX_OPEN\<close> is 0 or less). The cache and the rate limiter start empty, and
  the profiler is served only when \<open>ENABLE_PPROF\<close> is \<open>true\<close>. Whatever fails before (configuration,
  connection, migration, seed) ends the program instead.
\<close>

theorem serving_is_ready:
  assumes "main_start ot s files disk random = Serving a" "ot_hash ot = Some h" "default_order (ot_langs ot)"
    and "distinct (versions_of s)"
  shows "Load (ot_getenv ot) = Inr (ap_cfg a) \<and> 32 \<le> length (JWTSecret (ap_cfg a)) \<and>
    (\<exists>ms s1. collectUpMigrations (ot_disk ot) (MigrationsDir (ap_cfg a)) = Inr ms \<and>
       replay (ot_sql ot) (ot_disk ot) (pending (versions_of s) ms) (md_tables s) = Inr (committed s1) \<and>
       ap_versions a = versions_of s @ map mg_version (pending (versions_of s) ms) \<and> distinct (ap_versions a) \<and>
       SeedIfEmpty (ot_hash ot) (ot_langs ot) s1 = (None, wd_srv (ap_world a))) \<and>
    (\<exists>r rs. committed (wd_srv (ap_world a)) ''site'' = Some (r # rs)) \<and>
    pl_open (ap_pool a) = max 0 (DBMaxOpen (ap_cfg a)) \<and>
    pl_idle (ap_pool a) =
      (if 0 < DBMaxOpen (ap_cfg a) then min (DBMaxOpen (ap_cfg a)) (max 0 (DBMaxIdle (ap_cfg a)))
       else max 0 (DBMaxIdle (ap_cfg a))) \<and>
    entries (wd_cache (ap_world a)) = (\<lambda>_. None) \<and> visitors (wd_limiter (ap_world a)) = (\<lambda>_. None) \<and>
    (serves_pprof (ap_cfg a) \<longleftrightarrow> ot_getenv ot ''ENABLE_PPROF'' = ''true'')"
proof -
  from assms(1) obtain cfg where cfg: "Load (ot_getenv ot) = Inr cfg"
    by (auto simp: main_start_def split: sum.splits)
  obtain op s1 where op: "Open (ot_driver ot) cfg (md_srv s) = (op, s1)" by (rule prod.exhaust)
  from assms(1) cfg op obtain p where p: "op = Inr p" by (cases op) (auto simp: main_start_def)
  note pool = pool_fits [OF op [unfolded p]]
  let ?s1 = "s\<lparr>md_srv := s1\<rparr>"
  obtain e2 s2 where run: "Run (ot_sql ot) (ot_disk ot) (MigrationsDir cfg) ?s1 = (e2, s2)" by (rule prod.exhaust)
  from assms(1) cfg op p run have e2: "e2 = None" by (cases e2) (auto simp: main_start_def)
  obtain e3 s3 where seed: "SeedIfEmpty (ot_hash ot) (ot_langs ot) (md_srv s2) = (e3, s3)" by (rule prod.exhaust)
  from assms(1) cfg op p run e2 seed have e3: "e3 = None" by (cases e3) (auto simp: main_start_def)
  from assms(1) cfg op p run e2 seed e3 have a: "a = \<lparr>ap_cfg = cfg, ap_log = Init (IsDev cfg), ap_pool = p,
      ap_versions = versions_of s2, ap_world = \<lparr>wd_srv = s3, wd_cache = cache_new (30 * 10 ^ 9),
        wd_limiter = NewRateLimiter (RateLimitPerMin cfg), wd_files = files, wd_disk = disk, wd_random = random\<rparr>\<rparr>"
    by (simp add: main_start_def)
  have "\<exists>c. Load (ot_getenv ot) = Inr c" using cfg by blast
  then have secret: "32 \<le> length (JWTSecret cfg)"
    using cfg unfolding Load_ok by (auto simp: Load_def Let_def split: if_splits)
  have v1: "versions_of ?s1 = versions_of s" by (simp add: versions_of_def)
  have t1: "md_tables ?s1 = md_tables s" using pool(3) by (simp add: md_tables_def)
  obtain ms where ms: "collectUpMigrations (ot_disk ot) (MigrationsDir cfg) = Inr ms"
    using run e2 by (auto simp: Run_def split: prod.splits option.splits sum.splits)
  from assms(4) have "distinct (versions_of ?s1)" by (simp only: v1)
  from Run_outcome [OF run ms this] e2 have
    ran: "migrated (ot_sql ot) (ot_disk ot) (pending (versions_of s) ms) ?s1 s2" "distinct (versions_of s2)"
    by (auto simp: v1)
  have "\<exists>s1. replay (ot_sql ot) (ot_disk ot) (pending (versions_of s) ms) (md_tables s) = Inr (committed s1) \<and>
      SeedIfEmpty (ot_hash ot) (ot_langs ot) s1 = (None, s3)"
    using ran(1) seed unfolding e3 migrated_def t1 md_tables_def [of s2] by blast
  moreover have "versions_of s2 = versions_of s @ map mg_version (pending (versions_of s) ms)"
    using ran(1) by (simp add: migrated_def v1)
  moreover have "\<exists>r rs. committed s3 ''site'' = Some (r # rs)"
    using seed e3 assms(2,3) by (intro SeedIfEmpty_site [of h "ot_langs ot" "md_srv s2"]) simp_all
  moreover have "serves_pprof cfg \<longleftrightarrow> ot_getenv ot ''ENABLE_PPROF'' = ''true''"
    unfolding serves_pprof_def by (rule Load_pprof [OF cfg])
  ultimately show ?thesis
    using cfg secret ms ran(2) pool(1,2) by (simp add: a cache_new_def NewRateLimiter_def)
qed

definition first_boot :: outside where
  "first_boot =
     \<lparr>ot_getenv = good_environment, ot_driver = (\<lambda>u. None), ot_sql = (\<lambda>c d. Inr empty_db),
      ot_disk = repo_disk, ot_hash = Some ''h'', ot_langs = DefaultLanguages\<rparr>"

lemma first_boot_serves: "\<exists>a. main_start first_boot new_mig_db (\<lambda>_. None) [] [] = Serving a"
proof -
  have "\<exists>c. Load good_environment = Inr c" unfolding Load_ok by (simp add: good_environment_def)
  then obtain cfg where cfg: "Load good_environment = Inr cfg" by blast
  then have dir: "MigrationsDir cfg = ''./migrations''"
    by (auto simp: Load_def Let_def getEnv_def good_environment_def split: if_splits)
  let ?s = "md_srv new_mig_db"
  have h: "healthy ?s" by (simp add: new_mig_db_def healthy_def)
  have "with_timeout (5 * 10 ^ 9) ping ?s = (None, ?s\<lparr>committed := committed ?s\<rparr>)"
    by (rule with_timeout_fine [OF h]) (simp_all add: ping_def next_fault_fine)
  then obtain p where op: "Open (\<lambda>u. None) cfg ?s = (Inr p, ?s)" by (simp add: Open_def Let_def)
  let ?m = "\<lparr>mg_version = 1, mg_name = ''init'', mg_path = ''migrations/0001_init.up.sql''\<rparr>"
  have v: "versions_of new_mig_db = []" by (simp add: versions_of_def new_mig_db_def)
  have pd: "pending [] [?m] = [?m]" by (simp add: pending_def)
  have "read_file repo_disk ''migrations/0001_init.up.sql'' = Inr ''CREATE''" by code_simp
  then have rp: "replay (\<lambda>c d. Inr empty_db) repo_disk [?m] (md_tables new_mig_db) = Inr empty_db" by simp
  have run: "Run (\<lambda>c d. Inr empty_db) repo_disk ''./migrations'' new_mig_db =
      (None, new_mig_db\<lparr>md_srv := ?s\<lparr>committed := empty_db\<rparr>, md_versions := Some [1]\<rparr>)"
    using Run_fine [OF h collect_repo, of "\<lambda>c d. Inr empty_db" empty_db] rp by (simp add: v pd)
  have un: "unseeded (committed (?s\<lparr>committed := empty_db\<rparr>))"
    using fresh_unseeded by (simp add: fresh_server_def)
  have "fst (SeedIfEmpty (Some ''h'') DefaultLanguages (?s\<lparr>committed := empty_db\<rparr>)) = None"
    using seed_fine [OF un _ default_order_refl] h by simp
  then obtain s3 where seed: "SeedIfEmpty (Some ''h'') DefaultLanguages (?s\<lparr>committed := empty_db\<rparr>) = (None, s3)"
    by (cases "SeedIfEmpty (Some ''h'') DefaultLanguages (?s\<lparr>committed := empty_db\<rparr>)") simp
  have same: "new_mig_db\<lparr>md_srv := ?s\<rparr> = new_mig_db" by simp
  show ?thesis
    unfolding main_start_def first_boot_def outside.select_convs cfg sum.case op prod.case Let_def dir same run
      option.case mig_db.select_convs mig_db.update_convs mig_db.simps
    by (simp add: seed)
qed

theorem serving_is_ready_witness:
  "\<exists>a :: bucket app. main_start first_boot new_mig_db (\<lambda>_. None) [] [] = Serving a \<and> 32 \<le> length (JWTSecret (ap_cfg a)) \<and>
     (\<exists>r rs. committed (wd_srv (ap_world a)) ''site'' = Some (r # rs))"
proof -
  obtain a :: "bucket app" where a: "main_start first_boot new_mig_db (\<lambda>_. None) [] [] = Serving a"
    using first_boot_serves by blast
  have "ot_hash first_boot = Some ''h''" "default_order (ot_langs first_boot)" "distinct (versions_of new_mig_db)"
    by (simp_all add: first_boot_def default_order_refl versions_of_def new_mig_db_def)
  note ready = serving_is_ready [OF a this]
  from ready have "32 \<le> length (JWTSecret (ap_cfg a))" by (elim conjE)
  moreover from ready have "\<exists>r rs. committed (wd_srv (ap_world a)) ''site'' = Some (r # rs)" by (elim conjE)
  ultimately show ?thesis using a by blast
qed

end
