(* ===== verification/Process.thy ===== *)
theory Process
  imports Startup
begin

text \<open>
  \<open>cmd/server/main.go\<close> after the start: the parameters of the \<open>http.Server\<close> and the end of the program. The
  function \<open>main\<close> waits on the channel of the signals, then calls \<open>Shutdown\<close> with 15 seconds; the goroutine
  that listens runs beside it. \<open>ListenAndServe\<close> and \<open>Shutdown\<close> belong to \<open>net/http\<close>: when and with what they
  return are events here, as are the signals.
\<close>

section \<open>The server\<close>

record http_server =
  hs_addr :: string
  hs_read_timeout :: int
  hs_write_timeout :: int
  hs_idle_timeout :: int
  hs_read_header_timeout :: int

definition new_http_server :: "Config \<Rightarrow> http_server" where
  "new_http_server cfg =
     \<lparr>hs_addr = '':'' @ Port cfg, hs_read_timeout = 10 * 10 ^ 9, hs_write_timeout = 30 * 10 ^ 9,
      hs_idle_timeout = 120 * 10 ^ 9, hs_read_header_timeout = 5 * 10 ^ 9\<rparr>"

section \<open>The end of the program\<close>

datatype log_line = Info string | Error string "goerr option"

datatype main_at = AtQuit | InShutdown | Returned

text \<open>\<open>ServeReturned None\<close> is \<open>http.ErrServerClosed\<close>, which is not logged.\<close>

datatype proc_event = Signalled | ServeReturned "goerr option" | ShutdownReturned "goerr option"

record process =
  pr_main :: main_at
  pr_serving :: bool
  pr_log :: "log_line list"

definition started :: process where
  "started = \<lparr>pr_main = AtQuit, pr_serving = True, pr_log = []\<rparr>"

definition say :: "log_line list \<Rightarrow> process \<Rightarrow> process" where
  "say ls p = p\<lparr>pr_log := pr_log p @ ls\<rparr>"

text \<open>A second signal stays in the channel; nothing reads it.\<close>

fun proc_step :: "process \<Rightarrow> proc_event \<Rightarrow> process" where
  "proc_step p (ServeReturned r) =
     (if \<not> pr_serving p then p
      else (case r of
              None \<Rightarrow> p
            | Some e \<Rightarrow> say [Error ''Server fatal error'' (Some e)] p)\<lparr>pr_serving := False\<rparr>)"
| "proc_step p Signalled =
     (if pr_main p = AtQuit then (say [Info ''Graceful shutdown...''] p)\<lparr>pr_main := InShutdown\<rparr> else p)"
| "proc_step p (ShutdownReturned r) =
     (if pr_main p = InShutdown
      then (say ((case r of None \<Rightarrow> [] | Some e \<Rightarrow> [Error ''Shutdown error'' (Some e)]) @
                 [Info ''Server stopped'']) p)\<lparr>pr_main := Returned\<rparr>
      else p)"

abbreviation proc_run :: "proc_event list \<Rightarrow> process" where
  "proc_run es \<equiv> foldl proc_step started es"

lemma say_main [simp]: "pr_main (say ls p) = pr_main p"
  by (simp add: say_def)

lemma proc_run_main:
  "pr_main (proc_run es) =
     (if Signalled \<notin> set es then AtQuit
      else if \<exists>r. ShutdownReturned r \<in> set (dropWhile (\<lambda>e. e \<noteq> Signalled) es) then Returned else InShutdown)"
proof (induction es rule: rev_induct)
  case Nil
  then show ?case by (simp add: started_def)
next
  case (snoc e es)
  have d: "dropWhile (\<lambda>e. e \<noteq> Signalled) (es @ [e]) =
      (if Signalled \<in> set es then dropWhile (\<lambda>e. e \<noteq> Signalled) es @ [e]
       else if e = Signalled then [e] else [])" for e
    by (induction es) auto
  show ?case
    using snoc.IH by (cases e) (auto simp: d split: if_splits option.splits)
qed

lemma absent: "x \<notin> set es \<Longrightarrow> dropWhile (\<lambda>e. e \<noteq> x) es = []"
  by (induction es) auto

lemma after_first:
  "y \<noteq> x \<Longrightarrow> y \<in> set (dropWhile (\<lambda>e. e \<noteq> x) es) \<longleftrightarrow> (\<exists>as bs cs. es = as @ x # bs @ y # cs)"
proof (induction es)
  case (Cons e es)
  show ?case
  proof (cases "e = x")
    case True
    have "(\<exists>as bs cs. e # es = as @ x # bs @ y # cs) \<longleftrightarrow> y \<in> set es"
    proof
      assume "\<exists>as bs cs. e # es = as @ x # bs @ y # cs"
      then obtain as bs cs where "e # es = as @ x # bs @ y # cs" by blast
      then show "y \<in> set es" by (cases as) auto
    next
      assume "y \<in> set es"
      then obtain bs cs where "es = bs @ y # cs" by (auto simp: in_set_conv_decomp)
      then have "e # es = [] @ x # bs @ y # cs" using True by simp
      then show "\<exists>as bs cs. e # es = as @ x # bs @ y # cs" by blast
    qed
    with True Cons.prems show ?thesis by auto
  next
    case False
    have "(\<exists>as bs cs. e # es = as @ x # bs @ y # cs) \<longleftrightarrow> (\<exists>as bs cs. es = as @ x # bs @ y # cs)"
    proof
      assume "\<exists>as bs cs. e # es = as @ x # bs @ y # cs"
      then obtain as bs cs where "e # es = as @ x # bs @ y # cs" by blast
      with False show "\<exists>as bs cs. es = as @ x # bs @ y # cs" by (cases as) auto
    next
      assume "\<exists>as bs cs. es = as @ x # bs @ y # cs"
      then obtain as bs cs where "es = as @ x # bs @ y # cs" by blast
      then have "e # es = (e # as) @ x # bs @ y # cs" by simp
      then show "\<exists>as bs cs. e # es = as @ x # bs @ y # cs" by blast
    qed
    with False Cons show ?thesis by simp
  qed
qed simp

section \<open>Properties\<close>

text \<open>
  C32. The program ends exactly when a signal has come and the call of \<open>Shutdown\<close> that follows it has
  returned, with or without an error. Nothing else ends it: when \<open>ListenAndServe\<close> fails (the port is
  taken), the error is logged and the process goes on waiting for a signal without serving.
\<close>

theorem process_ends_by_signal:
  "(pr_main (proc_run es) = Returned \<longleftrightarrow> (\<exists>r as bs cs. es = as @ Signalled # bs @ ShutdownReturned r # cs)) \<and>
   pr_main (proc_run [ServeReturned (Some e)]) = AtQuit \<and> \<not> pr_serving (proc_run [ServeReturned (Some e)]) \<and>
   pr_log (proc_run [ServeReturned (Some e)]) = [Error ''Server fatal error'' (Some e)]"
proof -
  have "pr_main (proc_run es) = Returned \<longleftrightarrow>
      (\<exists>r. ShutdownReturned r \<in> set (dropWhile (\<lambda>e. e \<noteq> Signalled) es))"
    by (auto simp: proc_run_main absent)
  also have "\<dots> \<longleftrightarrow> (\<exists>r as bs cs. es = as @ Signalled # bs @ ShutdownReturned r # cs)"
    by (simp add: after_first)
  finally show ?thesis by (simp add: started_def say_def)
qed

end
