(* ===== verification/Legacy.thy ===== *)
theory Legacy
  imports Middleware RateThms
begin

text \<open>
  \<open>cmd/server/middleware.go\<close>: an earlier copy of the middleware in package \<open>main\<close>, which \<open>main.go\<close> does not
  call. Its limiter counts requests in windows of fixed length, one window after the other.
\<close>

section \<open>Headers, compression, addresses\<close>

definition legacy_securityHeaders :: "'s handler \<Rightarrow> 's handler" where
  "legacy_securityHeaders next r w \<sigma> =
     next r
       (set_header ''Content-Security-Policy'' csp_text
         (set_header ''Referrer-Policy'' ''strict-origin-when-cross-origin''
           (set_header ''X-XSS-Protection'' ''1; mode=block''
             (set_header ''X-Frame-Options'' ''SAMEORIGIN''
               (set_header ''X-Content-Type-Options'' ''nosniff'' w))))) \<sigma>"

definition gzipMiddleware :: "'s handler \<Rightarrow> 's handler" where
  "gzipMiddleware next r w \<sigma> =
     (if \<not> str_contains (hget ''Accept-Encoding'' (req_headers r)) ''gzip'' then next r w \<sigma>
      else
        (let w1 = del_header ''Content-Length'' (set_header ''Content-Encoding'' ''gzip'' w);
             (w2, \<sigma>1) = next r (w1\<lparr>w_out := []\<rparr>) \<sigma>;
             w3 = write_header 200 w2
         in (w3\<lparr>w_out := w_out w @ [GzipOut (w_out w2)]\<rparr>, \<sigma>1)))"

definition legacy_realIP :: "request \<Rightarrow> string" where
  "legacy_realIP r =
     (let xff = hget ''X-Forwarded-For'' (req_headers r) in
      if xff \<noteq> [] then (let parts = split_on (CHR '','') xff in trim_space (hd parts))
      else if hget ''X-Real-IP'' (req_headers r) \<noteq> [] then hget ''X-Real-IP'' (req_headers r)
      else split_host (req_remote r))"

section \<open>The limiter\<close>

record ipEntry =
  count :: int
  resetAt :: int

record fixed_limiter =
  ips :: "string \<rightharpoonup> ipEntry"
  max_requests :: int
  window :: int

definition newRateLimiter :: "int \<Rightarrow> int \<Rightarrow> fixed_limiter" where
  "newRateLimiter m d = \<lparr>ips = (\<lambda>_. None), max_requests = m, window = d\<rparr>"

text \<open>One tick of the goroutine of \<open>newRateLimiter\<close>, every five minutes.\<close>

definition fixed_cleanup :: "int \<Rightarrow> fixed_limiter \<Rightarrow> fixed_limiter" where
  "fixed_cleanup now rl =
     rl\<lparr>ips := (\<lambda>ip. case ips rl ip of None \<Rightarrow> None | Some e \<Rightarrow> if resetAt e < now then None else Some e)\<rparr>"

definition count_request :: "int \<Rightarrow> int \<Rightarrow> ipEntry \<Rightarrow> ipEntry" where
  "count_request d now e =
     (let e1 = (if resetAt e < now then e\<lparr>count := 0, resetAt := now + d\<rparr> else e) in e1\<lparr>count := count e1 + 1\<rparr>)"

definition fixed_allow :: "int \<Rightarrow> string \<Rightarrow> fixed_limiter \<Rightarrow> bool \<times> fixed_limiter" where
  "fixed_allow now ip rl =
     (let e = (case ips rl ip of None \<Rightarrow> \<lparr>count = 0, resetAt = zero_time\<rparr> | Some e \<Rightarrow> e);
          e1 = count_request (window rl) now e
      in (count e1 \<le> max_requests rl, rl\<lparr>ips := (ips rl)(ip \<mapsto> e1)\<rparr>))"

text \<open>The state of the handler is the limiter beside the state of the program, whose clock is \<open>now\<close>.\<close>

definition rateLimitMiddleware :: "('s \<Rightarrow> int) \<Rightarrow> 's handler \<Rightarrow> (fixed_limiter \<times> 's) handler" where
  "rateLimitMiddleware now next r w st =
     (let (rl, \<sigma>) = st in
      if \<not> has_prefix (req_path r) ''/api/'' then
        (let (w1, \<sigma>1) = next r w \<sigma> in (w1, (rl, \<sigma>1)))
      else
        (let (ok, rl1) = fixed_allow (now \<sigma>) (legacy_realIP r) rl in
         if \<not> ok
         then (http_error (set_header ''Retry-After'' ''60'' w) (error_text ''Too many requests'') 429, (rl1, \<sigma>))
         else
           (let (w1, \<sigma>1) = next r (set_header ''X-RateLimit-Limit'' ''100'' w) \<sigma> in (w1, (rl1, \<sigma>1)))))"

text \<open>The parts the two copies share are the same functions.\<close>

lemma legacy_same: "legacy_realIP = realIP" "gzipMiddleware = Gzip"
  by (intro ext, simp add: legacy_realIP_def realIP_def Let_def gzipMiddleware_def Gzip_def)+

section \<open>Histories\<close>

fun run_fixed :: "fixed_limiter \<Rightarrow> (int \<times> rl_event) list \<Rightarrow> (string \<times> bool) list" where
  "run_fixed rl [] = []"
| "run_fixed rl ((t, RLCleanup) # evs) = run_fixed (fixed_cleanup t rl) evs"
| "run_fixed rl ((t, RLRequest ip) # evs) =
     (let (ok, rl1) = fixed_allow t ip rl in (ip, ok) # run_fixed rl1 evs)"

text \<open>One client by itself.\<close>

fun run_counter :: "int \<Rightarrow> int \<Rightarrow> ipEntry \<Rightarrow> int list \<Rightarrow> bool list" where
  "run_counter m d e [] = []"
| "run_counter m d e (t # ts) = (let e1 = count_request d t e in (count e1 \<le> m) # run_counter m d e1 ts)"

text \<open>
  The entry of a client that was never dropped, and what the map holds: the same, or nothing because its
  window is over.
\<close>

definition same_entry :: "int \<Rightarrow> ipEntry \<Rightarrow> ipEntry option \<Rightarrow> bool" where
  "same_entry now e v \<longleftrightarrow> v = Some e \<or> v = None \<and> resetAt e < now"

lemma count_expired: "resetAt e < now \<Longrightarrow> resetAt e' < now \<Longrightarrow> count_request d now e = count_request d now e'"
  by (simp add: count_request_def Let_def)

lemma fixed_answers:
  "max_requests rl = m \<Longrightarrow> window rl = d \<Longrightarrow> same_entry now e (ips rl ip) \<Longrightarrow> zero_time < now \<Longrightarrow>
   sorted (now # map fst evs) \<Longrightarrow>
     answers_for ip (run_fixed rl evs) = run_counter m d e (times_of ip evs)"
proof (induction evs arbitrary: rl now e)
  case Nil
  then show ?case by (simp add: answers_for_def)
next
  case (Cons ev evs)
  obtain t p where ev: "ev = (t, p)" by force
  have t: "now \<le> t" "zero_time < t" "sorted (t # map fst evs)" using Cons.prems(4,5) ev by auto
  have se: "same_entry t e (ips rl ip)" using Cons.prems(3) t(1) by (auto simp: same_entry_def)
  show ?case
  proof (cases p)
    case RLCleanup
    have "same_entry t e (ips (fixed_cleanup t rl) ip)"
      using se by (auto simp: same_entry_def fixed_cleanup_def split: if_splits)
    from Cons.IH [OF _ _ this t(2,3)] Cons.prems(1,2) RLCleanup ev show ?thesis
      by (simp add: fixed_cleanup_def)
  next
    case (RLRequest ip')
    obtain ok rl1 where a: "fixed_allow t ip' rl = (ok, rl1)" by force
    then have p1: "max_requests rl1 = m" "window rl1 = d"
      using Cons.prems(1,2) by (auto simp: fixed_allow_def Let_def)
    show ?thesis
    proof (cases "ip' = ip")
      case False
      with a se have "same_entry t e (ips rl1 ip)" by (auto simp: fixed_allow_def Let_def)
      from Cons.IH [OF p1 this t(2,3)] a False RLRequest ev show ?thesis by (simp add: answers_for_def)
    next
      case True
      let ?e1 = "count_request d t e"
      have "count_request d t (case ips rl ip of None \<Rightarrow> \<lparr>count = 0, resetAt = zero_time\<rparr> | Some e \<Rightarrow> e) = ?e1"
        using se t(2) count_expired [of "\<lparr>count = 0, resetAt = zero_time\<rparr>" t e d] by (auto simp: same_entry_def)
      with a True Cons.prems(1,2) have ok: "ok \<longleftrightarrow> count ?e1 \<le> m" and v: "ips rl1 ip = Some ?e1"
        by (auto simp: fixed_allow_def Let_def)
      have "same_entry t ?e1 (ips rl1 ip)" by (simp add: same_entry_def v)
      from Cons.IH [OF p1 this t(2,3)] a True ok RLRequest ev show ?thesis by (simp add: answers_for_def Let_def)
    qed
  qed
qed

section \<open>The bound\<close>

lemma count_more: "count_request d t e = e\<lparr>count := count e + 1\<rparr>" if "t \<le> resetAt e"
  using that by (simp add: count_request_def)

lemma granted_same_window:
  "\<forall>t \<in> set ts. t \<le> resetAt e \<Longrightarrow> int (granted (run_counter m d e ts)) \<le> max 0 (m - count e)"
proof (induction ts arbitrary: e)
  case (Cons t ts)
  from Cons.IH [of "e\<lparr>count := count e + 1\<rparr>"] Cons.prems show ?case
    by (simp add: count_more Let_def max_def split: if_splits)
qed simp

text \<open>In an interval of the length of a window at most one window begins.\<close>

lemma granted_interval:
  "sorted ts \<Longrightarrow> \<forall>t \<in> set ts. a \<le> t \<and> t \<le> a + d \<Longrightarrow> 0 \<le> m \<Longrightarrow>
     int (granted (run_counter m d e ts)) \<le> max 0 (m - count e) + m"
proof (induction ts arbitrary: e)
  case (Cons t ts)
  show ?case
  proof (cases "resetAt e < t")
    case True
    let ?e1 = "e\<lparr>count := 1, resetAt := t + d\<rparr>"
    have e1: "count_request d t e = ?e1" using True by (simp add: count_request_def)
    have "\<forall>u \<in> set ts. u \<le> resetAt ?e1" using Cons.prems(2) by fastforce
    from granted_same_window [OF this, of m d] Cons.prems(3) show ?thesis
      by (simp add: e1 Let_def max_def split: if_splits)
  next
    case False
    with Cons.IH [of "e\<lparr>count := count e + 1\<rparr>"] Cons.prems show ?thesis
      by (simp add: count_more Let_def max_def split: if_splits)
  qed
qed simp

lemma run_counter_append:
  "\<exists>e1. run_counter m d e (ts @ us) = run_counter m d e ts @ run_counter m d e1 us \<and> (0 \<le> count e \<longrightarrow> 0 \<le> count e1)"
proof (induction ts arbitrary: e)
  case (Cons t ts)
  have "0 \<le> count e \<longrightarrow> 0 \<le> count (count_request d t e)" by (simp add: count_request_def Let_def)
  with Cons.IH [of "count_request d t e"] show ?case by (auto simp: Let_def)
qed auto

lemma length_run_counter [simp]: "length (run_counter m d e ts) = length ts"
  by (induction ts arbitrary: e) (simp_all add: Let_def)

text \<open>
  C31. The fixed-window limiter grants a client at most twice its maximum in any interval of the length of
  the window, whatever came before, whatever the other clients do, and although expired entries are
  dropped.
\<close>

theorem fixed_window_bound:
  assumes "0 \<le> m" "sorted (map fst (pre @ win))" "\<forall>(t, p) \<in> set (pre @ win). 0 \<le> t"
    and "\<forall>(t, p) \<in> set win. a \<le> t \<and> t \<le> a + d"
  shows "int (granted (drop (length (times_of ip pre))
      (answers_for ip (run_fixed (newRateLimiter m d) (pre @ win))))) \<le> 2 * m"
proof -
  let ?e0 = "\<lparr>count = 0, resetAt = zero_time\<rparr>"
  have tz: "zero_time + 1 < 0" by (simp add: zero_time_def)
  have nonneg: "\<forall>u \<in> fst ` set (pre @ win). 0 \<le> u" using assms(3) by fastforce
  have "sorted ((zero_time + 1) # map fst (pre @ win))"
    using assms(2) nonneg tz by (fastforce simp del: map_append set_append)
  then have "answers_for ip (run_fixed (newRateLimiter m d) (pre @ win)) =
      run_counter m d ?e0 (times_of ip pre @ times_of ip win)"
    by (subst fixed_answers [where now = "zero_time + 1" and e = ?e0])
      (simp_all add: newRateLimiter_def same_entry_def times_of_append)
  moreover obtain e1 where e1: "run_counter m d ?e0 (times_of ip pre @ times_of ip win) =
      run_counter m d ?e0 (times_of ip pre) @ run_counter m d e1 (times_of ip win)" "0 \<le> count e1"
    using run_counter_append [of m d ?e0 "times_of ip pre" "times_of ip win"] by auto
  moreover have "\<forall>t \<in> set (times_of ip win). a \<le> t \<and> t \<le> a + d" using assms(4) set_times_of [of ip win] by fastforce
  then have "int (granted (run_counter m d e1 (times_of ip win))) \<le> max 0 (m - count e1) + m"
    using assms(1,2) by (intro granted_interval sorted_times_of) (simp_all add: sorted_append)
  ultimately show ?thesis using assms(1) by simp
qed

theorem fixed_window_bound_witness:
  "int (granted (answers_for ''a'' (run_fixed (newRateLimiter 2 10)
     [(0, RLRequest ''a''), (1, RLRequest ''b''), (2, RLRequest ''a''), (3, RLRequest ''a'')]))) \<le> 4"
  using fixed_window_bound [of 2 "[]" "[(0, RLRequest ''a''), (1, RLRequest ''b''), (2, RLRequest ''a''), (3, RLRequest ''a'')]"
      0 10 "''a''"] by simp

text \<open>
  The bound is met but for one: the window is not a sliding one, as the comment of the code says. With
  three requests a window, five are granted around the end of a window of 60 within one unit of time.
\<close>

lemma fixed_window_burst:
  "answers_for ''a'' (run_fixed (newRateLimiter 3 60)
     [(0, RLRequest ''a''), (60, RLRequest ''a''), (60, RLRequest ''a''),
      (61, RLRequest ''a''), (61, RLRequest ''a''), (61, RLRequest ''a'')]) = replicate 6 True"
  by code_simp

end
