(* ===== verification/ErrorThms.thy ===== *)
theory ErrorThms
  imports ContentThms
begin

text \<open>
  The handlers when something goes wrong: a database that refuses every call, a body that is not JSON, and
  a method that is not the one of the route.
\<close>

section \<open>An outage of the database\<close>

fun is_refused :: "fault \<Rightarrow> bool" where
  "is_refused (Refused m) = True"
| "is_refused f = False"

text \<open>The next \<open>n\<close> calls of the database fail without effect.\<close>

definition refusing :: "nat \<Rightarrow> server \<Rightarrow> bool" where
  "refusing n s \<longleftrightarrow> n \<le> length (faults s) \<and> list_all is_refused (take n (faults s))"

lemma next_fault_refusing:
  assumes "refusing (Suc n) s"
  obtains m s1 where "next_fault s = (Refused m, s1)" "refusing n s1"
proof -
  from assms obtain f fs where fs: "faults s = f # fs" "is_refused f" "n \<le> length fs" "list_all is_refused (take n fs)"
    by (cases "faults s") (auto simp: refusing_def)
  from fs(2) obtain m where f: "f = Refused m" by (cases f) auto
  obtain g s1 where g: "next_fault s = (g, s1)" by (rule prod.exhaust)
  with fs f have "is_refused g" "refusing n s1"
    by (auto simp: next_fault_def Let_def refusing_def split: option.splits if_splits)
  with g that show thesis by (cases g) auto
qed

text \<open>A function that fails with the value \<open>v\<close> after one refused call.\<close>

definition fails_with :: "'a \<Rightarrow> (server \<Rightarrow> ('a \<times> goerr option) \<times> server) \<Rightarrow> bool" where
  "fails_with v f \<longleftrightarrow>
     (\<forall>n s. refusing (Suc n) s \<longrightarrow> (\<exists>e s1. f s = ((v, Some e), s1) \<and> refusing n s1))"

lemma fails_withE:
  assumes "fails_with v f" "refusing (Suc n) s"
  obtains e s1 where "f s = ((v, Some e), s1)" "refusing n s1"
  using assms unfolding fails_with_def by blast

lemma get_list_fails: "fails_with None (get_list t cols scan)"
  by (auto simp: fails_with_def get_list_def db_query_def elim!: next_fault_refusing)

lemma get_row_fails: "fails_with zero (get_row t cols scan zero)"
  by (auto simp: fails_with_def get_row_def db_query_row_def db_query_def elim!: next_fault_refusing)

lemma with_timeout_fails: "fails_with v f \<Longrightarrow> fails_with v (with_timeout d f)"
  unfolding fails_with_def
proof (intro allI impI)
  fix n s
  assume f: "\<forall>n s. refusing (Suc n) s \<longrightarrow> (\<exists>e s1. f s = ((v, Some e), s1) \<and> refusing n s1)"
    and s: "refusing (Suc n) s"
  let ?s = "s\<lparr>deadline := Some (case deadline s of None \<Rightarrow> clock s + d | Some b \<Rightarrow> min b (clock s + d))\<rparr>"
  from s have "refusing (Suc n) ?s" by (simp add: refusing_def)
  with f obtain e s1 where "f ?s = ((v, Some e), s1)" "refusing n s1" by blast
  then show "\<exists>e s1. with_timeout d f s = ((v, Some e), s1) \<and> refusing n s1"
    by (simp add: with_timeout_def Let_def refusing_def)
qed

lemmas svc_get_fails =
  with_timeout_fails [OF get_list_fails, where d = dbTimeout]
  with_timeout_fails [OF get_row_fails, where d = dbTimeout]

definition zero_payload :: json where
  "zero_payload = content_payload zero_Site None None zero_About None None None zero_Contact"

lemma read_content_refused:
  assumes "refusing 8 s"
  shows "fst (read_content s) = zero_payload"
proof -
  have n: "refusing (Suc 7) s" using assms by simp
  note defs = svc_get_defs get_defs
  obtain e1 s1 where 1: "Svc_GetSite s = ((zero_Site, Some e1), s1)" "refusing (Suc 6) s1"
    unfolding defs by (rule fails_withE [OF svc_get_fails(2) n]) simp
  obtain e2 s2 where 2: "Svc_GetHeroSlides s1 = ((None, Some e2), s2)" "refusing (Suc 5) s2"
    unfolding defs by (rule fails_withE [OF svc_get_fails(1) 1(2)]) (simp add: numeral_eq_Suc)
  obtain e3 s3 where 3: "Svc_GetStats s2 = ((None, Some e3), s3)" "refusing (Suc 4) s3"
    unfolding defs by (rule fails_withE [OF svc_get_fails(1) 2(2)]) (simp add: numeral_eq_Suc)
  obtain e4 s4 where 4: "Svc_GetAbout s3 = ((zero_About, Some e4), s4)" "refusing (Suc 3) s4"
    unfolding defs by (rule fails_withE [OF svc_get_fails(2) 3(2)]) (simp add: numeral_eq_Suc)
  obtain e5 s5 where 5: "Svc_GetServices s4 = ((None, Some e5), s5)" "refusing (Suc 2) s5"
    unfolding defs by (rule fails_withE [OF svc_get_fails(1) 4(2)]) (simp add: numeral_eq_Suc)
  obtain e6 s6 where 6: "Svc_GetNews s5 = ((None, Some e6), s6)" "refusing (Suc 1) s6"
    unfolding defs by (rule fails_withE [OF svc_get_fails(1) 5(2)]) (simp add: numeral_eq_Suc)
  obtain e7 s7 where 7: "Svc_GetPartners s6 = ((None, Some e7), s7)" "refusing (Suc 0) s7"
    unfolding defs by (rule fails_withE [OF svc_get_fails(1) 6(2)]) (simp add: numeral_eq_Suc)
  obtain e8 s8 where 8: "Svc_GetContact s7 = ((zero_Contact, Some e8), s8)" "refusing 0 s8"
    unfolding defs by (rule fails_withE [OF svc_get_fails(2) 7(2)])
  show ?thesis
    by (simp add: read_content_def 1(1) 2(1) 3(1) 4(1) 5(1) 6(1) 7(1) 8(1) zero_payload_def)
qed

text \<open>
  C33. An outage is cached: when the database refuses the eight reads of \<open>Content\<close>, the handler still
  answers 200, with an empty site, and stores that answer; every reader gets it for the lifetime of
  the cache, whatever the database does by then.
\<close>

theorem outage_is_cached:
  assumes "req_method r = ''GET''" "cache_get (wd_now \<sigma>) ''content'' (wd_cache \<sigma>) = None"
    and "refusing 8 (wd_srv \<sigma>)" "Content r new_writer \<sigma> = (w1, \<sigma>1)"
    and "req_method r2 = ''GET''" "wd_cache \<sigma>2 = wd_cache \<sigma>1" "wd_now \<sigma>2 \<le> wd_now \<sigma>1 + ttl (wd_cache \<sigma>)"
  shows "w_status w1 = Some 200 \<and> w_out w1 = [JsonOut zero_payload] \<and>
    Content r2 new_writer \<sigma>2 = (writeJSON new_writer 200 zero_payload, \<sigma>2)"
proof -
  obtain s1 where c: "read_content (wd_srv \<sigma>) = (zero_payload, s1)"
    using read_content_refused [OF assms(3)] by (metis prod.collapse)
  from assms(1,2,4) c have w: "w1 = writeJSON new_writer 200 zero_payload"
    "\<sigma>1 = put_cache ''content'' zero_payload (\<sigma>\<lparr>wd_srv := s1\<rparr>)"
    by (auto simp: Content_def with_srv_def)
  then have now: "wd_now \<sigma>1 = clock s1" by (simp add: put_cache_def wd_now_def)
  have "cache_get (wd_now \<sigma>2) ''content'' (wd_cache \<sigma>2) = Some zero_payload"
    using assms(6,7) by (simp add: w(2) put_cache_def cache_set_def cache_get_def wd_now_def)
  with assms(5) w(1) show ?thesis by (simp add: Content_def writeJSON_new)
qed


definition down_world :: "bucket world" where
  "down_world = empty_world\<lparr>wd_srv := seeded_server\<lparr>faults := replicate 8 (Refused ''connection refused'')\<rparr>\<rparr>"

theorem outage_is_cached_witness:
  "\<exists>\<sigma>1. snd (Content (some_request ''GET'' ''/api/content'') new_writer down_world) = \<sigma>1 \<and>
     fst (Content (some_request ''GET'' ''/api/content'') new_writer
       (\<sigma>1\<lparr>wd_srv := seeded_server\<lparr>clock := wd_now \<sigma>1\<rparr>\<rparr>)) = writeJSON new_writer 200 zero_payload"
proof -
  let ?r = "some_request ''GET'' ''/api/content''"
  obtain w1 \<sigma>1 where c: "Content ?r new_writer down_world = (w1, \<sigma>1)" by (rule prod.exhaust)
  have g: "req_method ?r = ''GET''" by (simp add: some_request_def)
  have "cache_get (wd_now down_world) ''content'' (wd_cache down_world) = None"
    by (simp add: down_world_def empty_world_def cache_new_def cache_get_def)
  moreover have "refusing 8 (wd_srv down_world)"
    by (simp add: refusing_def down_world_def list_all_iff)
  moreover have "wd_now (\<sigma>1\<lparr>wd_srv := seeded_server\<lparr>clock := wd_now \<sigma>1\<rparr>\<rparr>) \<le>
      wd_now \<sigma>1 + ttl (wd_cache down_world)"
    by (simp add: wd_now_def down_world_def empty_world_def cache_new_def)
  ultimately show ?thesis
    using outage_is_cached [OF g _ _ c g, of "\<sigma>1\<lparr>wd_srv := seeded_server\<lparr>clock := wd_now \<sigma>1\<rparr>\<rparr>"] c
    by simp
qed

section \<open>A body that is not JSON\<close>

text \<open>
  C34. The admin handlers drop the error of \<open>readBody\<close>: on a database that answers, a \<open>PUT\<close> of the stats
  whose body is not JSON (an empty body, or one cut at 1 MiB) answers 200 with success and leaves the
  list empty, and the next read of the content shows an empty list.
\<close>

theorem malformed_body_empties_list:
  assumes "healthy (wd_srv \<sigma>)" "db_wf (committed (wd_srv \<sigma>))"
    and "req_method r = ''PUT''" "json_first (take body_limit (req_body r)) = None"
  shows "w_status (fst (AdminStats r new_writer \<sigma>)) = Some 200 \<and>
    committed (wd_srv (snd (AdminStats r new_writer \<sigma>))) ''stats'' = Some [] \<and>
    content_shows ''stats'' (JArr []) (snd (AdminStats r new_writer \<sigma>))"
proof -
  have b: "body_value (decode_slice (decode_struct fields_Stat) zero_Stat) r None = None"
    using assms(4) by (simp add: body_value_def readBody_def)
  from db_wf_tableE [OF assms(2) map_of_schema_lists(1)] obtain rows
    where rows: "committed (wd_srv \<sigma>) ''stats'' = Some rows" .
  have "storable ''stats'' (map vals_Stat [])" by (simp add: storable_def map_of_schema_lists)
  from stats.exec_replace_ok [of "[]" "committed (wd_srv \<sigma>)" rows, OF this rows] have ex:
    "exec_stmts (replace_stmts ''stats'' (map vals_Stat [])) (committed s') =
       Inr ((committed s')(''stats'' \<mapsto> list_rows 0 (map vals_Stat [])))"
    if "committed s' = committed (wd_srv \<sigma>)" for s' using that by simp
  have f: "Svc_UpdateStats None (wd_srv \<sigma>) =
      (None, wd_srv \<sigma>\<lparr>committed := (committed (wd_srv \<sigma>))(''stats'' \<mapsto> [])\<rparr>)"
    unfolding Svc_UpdateStats_def UpdateStats_def
  proof (rule with_timeout_fine [OF assms(1) dbTimeout_nonneg])
    fix s' assume s': "healthy s'" "committed s' = committed (wd_srv \<sigma>)"
    show "run_ignoring (replace_stmts ''stats'' (map vals_Stat (elems None))) s' =
        (None, s'\<lparr>committed := (committed (wd_srv \<sigma>))(''stats'' \<mapsto> [])\<rparr>)"
      using run_ignoring_fine [OF s'(1) ex [OF s'(2)]] s'(2) by simp
  qed
  then have ok: "w_status (fst (AdminStats r new_writer \<sigma>)) = Some 200"
    unfolding AdminStats_def b by (intro adminPUT_accepts) (simp_all add: assms(3))
  moreover have "content_shows ''stats'' (JArr []) (snd (AdminStats r new_writer \<sigma>))"
    using lists_shown(1) [OF assms(1), of r] ok by (simp add: shown_after_def b)
  moreover have "committed (wd_srv (snd (AdminStats r new_writer \<sigma>))) ''stats'' = Some []"
    by (simp add: AdminStats_def b adminPUT_def assms(3) with_srv_def f)
  ultimately show ?thesis by blast
qed

theorem malformed_body_empties_list_witness:
  "committed (wd_srv (snd (AdminStats (some_request ''PUT'' ''/api/admin/stats'') new_writer empty_world))) ''stats''
     = Some []"
proof -
  let ?r = "some_request ''PUT'' ''/api/admin/stats''"
  have "healthy (wd_srv empty_world)" "db_wf (committed (wd_srv empty_world))"
    by (simp_all add: empty_world_def seeded_server_def healthy_def seeded_db_wf)
  moreover have "req_body ?r = []" by (simp add: some_request_def)
  moreover have "json_first [] = None" by code_simp
  ultimately show ?thesis
    using malformed_body_empties_list [of empty_world ?r] by (simp add: some_request_def)
qed

section \<open>Methods\<close>

definition allowed_methods :: "env \<Rightarrow> ('l world handler \<times> string) list" where
  "allowed_methods env =
     [(Content, ''GET''), (Languages, ''GET''), (SidePanel, ''GET''), (Login env, ''POST''),
      (ChangePassword env, ''POST''), (Upload env, ''POST''), (AdminSite, ''PUT''), (AdminHero, ''PUT''),
      (AdminStats, ''PUT''), (AdminAbout, ''PUT''), (AdminServices, ''PUT''), (AdminNews, ''PUT''),
      (AdminPartners, ''PUT''), (AdminContact, ''PUT''), (AdminLanguages, ''PUT''), (AdminSidePanel, ''PUT'')]"

text \<open>
  Every handler of the API but \<open>Health\<close> takes one method: any other is answered with status 405 and
  an error, without a call of the database, the disk, the cache or the random source.
\<close>

theorem other_methods_refused:
  assumes "(h, m) \<in> set (allowed_methods env)" "req_method r \<noteq> m"
  shows "h r new_writer \<sigma> = (writeJSON new_writer 405 (json_error ''method not allowed''), \<sigma>)"
  using assms
  by (auto simp: allowed_methods_def Content_def Languages_def SidePanel_def Login_def ChangePassword_def
      Upload_def admin_defs adminPUT_def method_not_allowed_def)

theorem other_methods_refused_witness:
  "w_status (fst (AdminStats (some_request ''GET'' ''/api/admin/stats'') new_writer empty_world)) = Some 405"
proof -
  have "(AdminStats :: bucket world handler, ''PUT'') \<in> set (allowed_methods some_env)"
    by (simp add: allowed_methods_def)
  from other_methods_refused [OF this, of "some_request ''GET'' ''/api/admin/stats''" empty_world]
  show ?thesis by (simp add: some_request_def writeJSON_new)
qed

end
