(* ===== verification/AccountThms.thy ===== *)
theory AccountThms
  imports ErrorThms
begin

text \<open>
  The password of the administrator: a change of the password, the login with it, and the gate that the
  token of the login opens. bcrypt is in the record \<open>env\<close>; each property names what it assumes of it.
\<close>

section \<open>Changing the password\<close>

lemma next_random_srv [simp]: "wd_srv (snd (next_random \<sigma>)) = wd_srv \<sigma>"
  by (simp add: next_random_def)

definition hash_of :: "string option \<Rightarrow> string" where
  "hash_of h = (case h of None \<Rightarrow> [] | Some h \<Rightarrow> h)"

lemma hash_of_simps [simp]: "hash_of None = []" "hash_of (Some h) = h"
  by (simp_all add: hash_of_def)

lemma ChangePassword_run:
  assumes "req_method r = ''POST''" "readBody (decode_body ''newPassword'') r [] = (pw, False)" "6 \<le> length pw"
  shows "fst (ChangePassword env r new_writer \<sigma>) = writeJSON new_writer 200 json_success"
    "wd_srv (snd (ChangePassword env r new_writer \<sigma>)) =
      snd (Svc_UpdateAdminPassword (hash_of (e_bcrypt env (fst (next_random \<sigma>)) pw)) (wd_srv \<sigma>))"
proof -
  obtain salt \<sigma>1 where n: "next_random \<sigma> = (salt, \<sigma>1)" by (rule prod.exhaust)
  then have s: "wd_srv \<sigma>1 = wd_srv \<sigma>" using next_random_srv [of \<sigma>] by simp
  show "fst (ChangePassword env r new_writer \<sigma>) = writeJSON new_writer 200 json_success"
    using assms by (simp add: ChangePassword_def n Let_def split: prod.splits)
  show "wd_srv (snd (ChangePassword env r new_writer \<sigma>)) =
      snd (Svc_UpdateAdminPassword (hash_of (e_bcrypt env (fst (next_random \<sigma>)) pw)) (wd_srv \<sigma>))"
    using assms by (simp add: ChangePassword_def n Let_def with_srv_def s hash_of_def split: prod.splits)
qed

lemma UpdateAdminPassword_fine:
  assumes "healthy s" "committed s ''admin_password'' = Some rows" "text_ok h"
  shows "fst (Svc_UpdateAdminPassword h s) = None"
proof -
  have ok: "assigns_ok (the (map_of schema ''admin_password'')) [(''hash'', VText h)]"
    using assms(3) by (simp add: schema_def assigns_ok_def col_type_of_def)
  let ?d = "(committed s)(''admin_password'' \<mapsto> update_id1 [(''hash'', VText h)] rows)"
  have "Svc_UpdateAdminPassword h s = (None, s\<lparr>committed := ?d\<rparr>)"
    unfolding Svc_UpdateAdminPassword_def
    by (rule with_timeout_fine [OF assms(1) dbTimeout_nonneg])
      (simp add: UpdateAdminPassword_def db_exec_def next_fault_fine password.exec_update_single assms(2) ok)
  then show ?thesis by simp
qed

lemma password_changed:
  assumes "healthy s" "db_wf (committed s)" "committed s ''admin_password'' \<noteq> Some []" "text_ok h"
    and "committed s2 = committed (snd (Svc_UpdateAdminPassword h s))" "healthy s2"
  shows "Svc_GetAdminPasswordHash s2 = ((h, None), s2)"
proof -
  obtain rows where rows: "committed s ''admin_password'' = Some rows"
    using db_wf_tableE [OF assms(2)] by (metis password.schema_tbl)
  obtain e s1 where u: "Svc_UpdateAdminPassword h s = (e, s1)" by (rule prod.exhaust)
  with UpdateAdminPassword_fine [OF assms(1) rows assms(4)] have e: "e = None" by simp
  have h1: "healthy s1"
    using only_tables_svc(11) [of h] assms(1) u unfolding only_tables_def by (metis healthy_committed snd_conv)
  have "GetAdminPasswordHash s1 = ((h, None), s1)"
    using singles_read(4) [OF assms(1,2) h1] u e assms(3) by blast
  moreover have "committed s2 = committed s1" using assms(5) u by simp
  ultimately have "fst (GetAdminPasswordHash s2) = (h, None)"
    using get_row_fine [OF h1 assms(6), of "''admin_password''" "[''hash'']" scan_hash "[]"]
    by (simp add: GetAdminPasswordHash_scan)
  with svc_get_fine(9) [OF assms(6)] show ?thesis by simp
qed

section \<open>Logging in\<close>

lemma Login_run:
  assumes "req_method r = ''POST''" "readBody (decode_body ''password'') r [] = (pw, False)"
    and "Svc_GetAdminPasswordHash (wd_srv \<sigma>) = ((h, None), wd_srv \<sigma>)"
  shows "Login env r new_writer \<sigma> =
    (if e_compare env h pw
     then (writeJSON new_writer 200 (JObj [(''token'', JStr (login_token (e_mac env) (e_secret env) (wd_now \<sigma>)))]), \<sigma>)
     else (writeJSON new_writer 401 (json_error ''Invalid password''), sleep (300 * 10 ^ 6) \<sigma>))"
  using assms by (simp add: Login_def with_srv_def)

text \<open>A request that carries a token reaches the handler behind the gate.\<close>

definition token_admits :: "env \<Rightarrow> string \<Rightarrow> int \<Rightarrow> bool" where
  "token_admits env tok t \<longleftrightarrow> (\<exists>tk. jwt_parse (e_mac env) (e_secret env) t tok = Inr tk)"

lemma Auth_admits:
  assumes "token_admits env tok (wd_now \<sigma>)" "hget ''Authorization'' (req_headers r) = ''Bearer '' @ tok"
  shows "Auth (e_mac env) (e_secret env) next r w \<sigma> = next r w \<sigma>"
proof -
  have "has_prefix (''Bearer '' @ x) ''Bearer '' = True" for x by (rule eqTrueI) (rule has_prefix_append)
  with assms show ?thesis
    unfolding Auth_def assms(2) Let_def trim_prefix_append by (auto simp: token_admits_def)
qed

text \<open>
  C17. Changing the password works end to end. On a database that answers, when the row of the password
  exists and bcrypt makes a hash \<open>h\<close> of the new password (a text that
  PostgreSQL takes, and that compares equal to the
  password), the change answers 200; from then on, as long as the tables stay, a login with the new
  password answers 200 with a token, a login with a password that does not compare is answered 401,
  and the token passes the gate of the admin area for the next 24 hours.
\<close>

theorem password_change_takes_effect:
  assumes "healthy (wd_srv \<sigma>)" "db_wf (committed (wd_srv \<sigma>))"
    and "committed (wd_srv \<sigma>) ''admin_password'' \<noteq> Some []"
    and "req_method r = ''POST''" "readBody (decode_body ''newPassword'') r [] = (pw, False)" "6 \<le> length pw"
    and "e_bcrypt env (fst (next_random \<sigma>)) pw = Some h" "text_ok h" "e_compare env h pw"
    and "ChangePassword env r new_writer \<sigma> = (w1, \<sigma>1)"
    and "healthy (wd_srv \<sigma>2)" "committed (wd_srv \<sigma>2) = committed (wd_srv \<sigma>1)"
    and "req_method r2 = ''POST''" "readBody (decode_body ''password'') r2 [] = (pw2, False)"
    and "0 < unix (wd_now \<sigma>2)" "unix (wd_now \<sigma>2) < 2 ^ 52"
  shows "w_status w1 = Some 200 \<and>
    (if e_compare env h pw2
     then \<exists>tok. Login env r2 new_writer \<sigma>2 =
         (writeJSON new_writer 200 (JObj [(''token'', JStr tok)]), \<sigma>2) \<and>
       (\<forall>r3 w \<sigma>3 next. hget ''Authorization'' (req_headers r3) = ''Bearer '' @ tok \<longrightarrow>
          wd_now \<sigma>3 < (unix (wd_now \<sigma>2) + 86400) * nanos \<longrightarrow>
          Auth (e_mac env) (e_secret env) next r3 w \<sigma>3 = next r3 w \<sigma>3)
     else w_status (fst (Login env r2 new_writer \<sigma>2)) = Some 401) \<and>
    (pw2 = pw \<longrightarrow> e_compare env h pw2)"
proof -
  note run = ChangePassword_run [OF assms(4,5,6), of env \<sigma>]
  have w1: "w1 = writeJSON new_writer 200 json_success" using run(1) assms(10) by simp
  have "committed (wd_srv \<sigma>2) = committed (snd (Svc_UpdateAdminPassword h (wd_srv \<sigma>)))"
    using run(2) assms(7,10,12) by simp
  from Login_run [OF assms(13,14) password_changed [OF assms(1-3,8) this assms(11)], of env]
  have l: "Login env r2 new_writer \<sigma>2 = (if e_compare env h pw2
     then (writeJSON new_writer 200 (JObj [(''token'', JStr (login_token (e_mac env) (e_secret env) (wd_now \<sigma>2)))]), \<sigma>2)
     else (writeJSON new_writer 401 (json_error ''Invalid password''), sleep (300 * 10 ^ 6) \<sigma>2))" .
  have "token_admits env (login_token (e_mac env) (e_secret env) (wd_now \<sigma>2)) t"
    if "t < (unix (wd_now \<sigma>2) + 86400) * nanos" for t
    using login_token_parse [OF assms(15,16)] that by (simp add: token_admits_def)
  then have a: "\<forall>r3 w \<sigma>3 next.
      hget ''Authorization'' (req_headers r3) = ''Bearer '' @ login_token (e_mac env) (e_secret env) (wd_now \<sigma>2) \<longrightarrow>
      wd_now \<sigma>3 < (unix (wd_now \<sigma>2) + 86400) * nanos \<longrightarrow>
      Auth (e_mac env) (e_secret env) next r3 w \<sigma>3 = next r3 w \<sigma>3"
    by (blast intro: Auth_admits)
  show ?thesis
  proof (cases "e_compare env h pw2")
    case True
    with l a show ?thesis by (simp add: w1 writeJSON_new del: append.append_Cons) blast
  next
    case False
    with assms(9) show ?thesis by (auto simp: l w1 writeJSON_new)
  qed
qed


definition post_field :: "string \<Rightarrow> string \<Rightarrow> string \<Rightarrow> request" where
  "post_field path k v = (some_request ''POST'' path)\<lparr>req_body := ''{'' @ quoted k @ '':'' @ quoted v @ ''}''\<rparr>"

lemma post_field_read:
  assumes "length k + length v \<le> 1000"
  shows "readBody dec (post_field path k v) z =
    (case json_first (''{'' @ quoted k @ '':'' @ quoted v @ ''}'') of None \<Rightarrow> (z, True) | Some j \<Rightarrow> dec j z)"
  using assms by (subst readBody_short) (simp_all add: post_field_def quoted_def body_limit_def)

lemma post_field_method: "req_method (post_field path k v) = ''POST''"
  by (simp add: post_field_def some_request_def)

lemma world_at_srv:
  "healthy (wd_srv (world_at t))" "db_wf (committed (wd_srv (world_at t)))"
  "committed (wd_srv (world_at t)) ''admin_password'' \<noteq> Some []" "wd_now (world_at t) = t"
  by (simp_all add: world_at_def seeded_server_def healthy_def seeded_db_wf wd_now_def)
    (simp add: seeded_db_def)

lemma e_bcrypt_some: "length pw \<le> 72 \<Longrightarrow> e_bcrypt some_env n pw = Some (''$'' @ pw)"
  "e_compare some_env h pw \<longleftrightarrow> h = ''$'' @ pw \<and> length pw \<le> 72"
  by (simp_all add: some_env_def)

lemma read_new_password:
  "readBody (decode_body ''newPassword'') (post_field path ''newPassword'' ''secret1'') [] = (''secret1'', False)"
  "readBody (decode_body ''password'') (post_field path ''password'' ''secret1'') [] = (''secret1'', False)"
  by (simp_all only: post_field_read list.size, code_simp+)

theorem password_change_takes_effect_witness:
  "\<exists>\<sigma>1 tok. snd (ChangePassword some_env (post_field ''/api/admin/change-password'' ''newPassword'' ''secret1'')
       new_writer (world_at (1700000000 * nanos))) = \<sigma>1 \<and>
     fst (Login some_env (post_field ''/api/admin/login'' ''password'' ''secret1'') new_writer \<sigma>1) =
       writeJSON new_writer 200 (JObj [(''token'', JStr tok)])"
proof -
  let ?r = "post_field ''/api/admin/change-password'' ''newPassword'' ''secret1''"
  let ?r2 = "post_field ''/api/admin/login'' ''password'' ''secret1''"
  let ?s = "world_at (1700000000 * nanos)"
  obtain w1 \<sigma>1 where c: "ChangePassword some_env ?r new_writer ?s = (w1, \<sigma>1)" by (rule prod.exhaust)
  have b: "e_bcrypt some_env (fst (next_random ?s)) ''secret1'' = Some ''$secret1''" by (simp add: some_env_def)
  have "wd_srv \<sigma>1 = snd (Svc_UpdateAdminPassword ''$secret1'' (wd_srv ?s))"
    using ChangePassword_run(2) [where r = ?r and env = some_env and \<sigma> = ?s, OF post_field_method read_new_password(1)] c b by simp
  then obtain d where d: "wd_srv \<sigma>1 = wd_srv ?s\<lparr>committed := d\<rparr>"
    using only_tables_svc(11) [of "''$secret1''"] world_at_srv(1) unfolding only_tables_def by metis
  then have h: "healthy (wd_srv \<sigma>1)" "wd_now \<sigma>1 = 1700000000 * nanos"
    using world_at_srv(1) world_at_srv(4) by (simp_all add: wd_now_def)
  have "e_compare some_env ''$secret1'' ''secret1''" by (simp add: some_env_def)
  with password_change_takes_effect [where ?r2.0 = ?r2, OF world_at_srv(1-3) post_field_method read_new_password(1) _ b _ _ c h(1) refl
      post_field_method read_new_password(2)] h(2) c
  show ?thesis by (auto simp: unix_def nanos_def)
qed

section \<open>A password that bcrypt refuses\<close>

text \<open>
  C35. A password that bcrypt refuses (one longer than 72 bytes) locks the administrator out: the error is
  dropped and the empty text is stored as the hash, the change answers 200, and since nothing compares
  equal to an empty hash every later login is answered 401, also with the new password.
\<close>

theorem long_password_locks_out:
  assumes "healthy (wd_srv \<sigma>)" "db_wf (committed (wd_srv \<sigma>))"
    and "committed (wd_srv \<sigma>) ''admin_password'' \<noteq> Some []"
    and "req_method r = ''POST''" "readBody (decode_body ''newPassword'') r [] = (pw, False)" "6 \<le> length pw"
    and "e_bcrypt env (fst (next_random \<sigma>)) pw = None" "\<And>p. \<not> e_compare env [] p"
    and "ChangePassword env r new_writer \<sigma> = (w1, \<sigma>1)"
    and "healthy (wd_srv \<sigma>2)" "committed (wd_srv \<sigma>2) = committed (wd_srv \<sigma>1)"
    and "req_method r2 = ''POST''" "readBody (decode_body ''password'') r2 [] = (pw2, False)"
  shows "w_status w1 = Some 200 \<and> w_status (fst (Login env r2 new_writer \<sigma>2)) = Some 401"
proof -
  note run = ChangePassword_run [OF assms(4,5,6), of env \<sigma>]
  have n: "text_ok []" by simp
  have "committed (wd_srv \<sigma>2) = committed (snd (Svc_UpdateAdminPassword [] (wd_srv \<sigma>)))"
    using run(2) assms(7,9,11) by simp
  from Login_run [OF assms(12,13) password_changed [OF assms(1-3) n this assms(10)], of env]
  show ?thesis using run(1) assms(8,9) by (simp add: writeJSON_new)
qed

lemma read_long_password:
  "readBody (decode_body ''newPassword'') (post_field path ''newPassword'' (replicate 73 (CHR ''a''))) [] =
     (replicate 73 (CHR ''a''), False)"
  "readBody (decode_body ''password'') (post_field path ''password'' (replicate 73 (CHR ''a''))) [] =
     (replicate 73 (CHR ''a''), False)"
  by (subst post_field_read, simp, code_simp)+

theorem long_password_locks_out_witness:
  "w_status (fst (Login some_env (post_field ''/api/admin/login'' ''password'' (replicate 73 (CHR ''a''))) new_writer
     (snd (ChangePassword some_env (post_field ''/api/admin/change-password'' ''newPassword'' (replicate 73 (CHR ''a'')))
       new_writer (world_at 0))))) = Some 401"
proof -
  let ?r = "post_field ''/api/admin/change-password'' ''newPassword'' (replicate 73 (CHR ''a''))"
  obtain w1 \<sigma>1 where c: "ChangePassword some_env ?r new_writer (world_at 0) = (w1, \<sigma>1)" by (rule prod.exhaust)
  have b: "e_bcrypt some_env (fst (next_random (world_at 0))) (replicate 73 (CHR ''a'')) = None"
    by (simp add: some_env_def)
  have n: "\<not> e_compare some_env [] p" for p by (simp add: some_env_def)
  have "wd_srv \<sigma>1 = snd (Svc_UpdateAdminPassword [] (wd_srv (world_at 0)))"
    using ChangePassword_run(2) [where r = ?r and env = some_env and \<sigma> = "world_at 0", OF post_field_method read_long_password(1)] c b by simp
  then obtain d where "wd_srv \<sigma>1 = wd_srv (world_at 0)\<lparr>committed := d\<rparr>"
    using only_tables_svc(11) [of "[]"] world_at_srv(1) unfolding only_tables_def by metis
  then have h: "healthy (wd_srv \<sigma>1)" using world_at_srv(1) by simp
  from long_password_locks_out [OF world_at_srv(1-3) post_field_method read_long_password(1) _ b n c h refl
      post_field_method read_long_password(2)] c
  show ?thesis by simp
qed

text \<open>
  The error of the database is dropped too: when it refuses the update, a change of the password
  answers 200 and the old password stays.
\<close>

theorem password_error_unreported:
  assumes "refusing 1 (wd_srv \<sigma>)"
    and "req_method r = ''POST''" "readBody (decode_body ''newPassword'') r [] = (pw, False)" "6 \<le> length pw"
  shows "fst (ChangePassword env r new_writer \<sigma>) = writeJSON new_writer 200 json_success \<and>
    committed (wd_srv (snd (ChangePassword env r new_writer \<sigma>))) = committed (wd_srv \<sigma>)"
proof -
  let ?u = "\<lambda>h. Svc_UpdateAdminPassword h (wd_srv \<sigma>)"
  have "committed (snd (?u h)) = committed (wd_srv \<sigma>)" for h
  proof -
    let ?s = "wd_srv \<sigma>\<lparr>deadline := Some (case deadline (wd_srv \<sigma>) of None \<Rightarrow> clock (wd_srv \<sigma>) + dbTimeout
      | Some b \<Rightarrow> min b (clock (wd_srv \<sigma>) + dbTimeout))\<rparr>"
    have "refusing (Suc 0) ?s" using assms(1) by (simp add: refusing_def)
    then obtain m s1 where f: "next_fault ?s = (Refused m, s1)" by (rule next_fault_refusing)
    then have "committed s1 = committed ?s" by (rule next_fault_committed)
    with f show ?thesis
      by (simp add: Svc_UpdateAdminPassword_def with_timeout_def Let_def UpdateAdminPassword_def db_exec_def)
  qed
  with ChangePassword_run [OF assms(2-4), of env \<sigma>] show ?thesis by simp
qed

theorem password_error_unreported_witness:
  "fst (ChangePassword some_env (post_field ''/api/admin/change-password'' ''newPassword'' ''secret1'') new_writer
     down_world) = writeJSON new_writer 200 json_success"
proof -
  have "refusing 1 (wd_srv down_world)" by (simp add: refusing_def down_world_def)
  from password_error_unreported [OF this post_field_method read_new_password(1)] show ?thesis by simp
qed

end
