(* ===== verification/UploadThms.thy ===== *)
theory UploadThms
  imports HandlerThms
begin

text \<open>
  What an upload can put on the disk: at most one file, under a name the server makes up, with an
  extension of the list, and no larger than the limit of the body.
\<close>

section \<open>Names\<close>

text \<open>A name that stays in its directory and has an extension of the list.\<close>

definition safe_name :: "string \<Rightarrow> bool" where
  "safe_name n \<longleftrightarrow>
     CHR ''/'' \<notin> set n \<and> CHR 0x00 \<notin> set n \<and> n \<noteq> [] \<and> hd n \<noteq> CHR ''.'' \<and>
     to_lower (file_ext n) \<in> set allowed_exts"

lemma digit_plain: "digit_val c \<noteq> None \<Longrightarrow> c \<notin> {CHR ''/'', CHR ''.'', CHR 0x00}"
  by (auto simp: digit_val_def)

lemma show_nat_plain: "c \<in> set (show_nat n) \<Longrightarrow> c \<notin> {CHR ''/'', CHR ''.'', CHR 0x00}"
  using show_nat_digits digit_plain by blast

lemma show_int_plain: "c \<in> set (show_int n) \<Longrightarrow> c \<notin> {CHR ''/'', CHR ''.'', CHR 0x00}"
  using show_nat_plain by (fastforce simp: show_int_def split: if_splits)

lemma show_int_ne: "show_int n \<noteq> []"
  using show_nat_ne by (simp add: show_int_def)

lemma file_ext_append:
  assumes "CHR ''.'' \<notin> set e" "CHR ''/'' \<notin> set e"
  shows "file_ext (s @ CHR ''.'' # e) = CHR ''.'' # e"
proof -
  have "takeWhile (\<lambda>c. c \<noteq> CHR ''/'') (rev e @ CHR ''.'' # rev s) =
      rev e @ CHR ''.'' # takeWhile (\<lambda>c. c \<noteq> CHR ''/'') (rev s)"
    using assms(2) by (subst takeWhile_append2) auto
  then have l: "rev (last_elem (s @ CHR ''.'' # e)) = rev e @ CHR ''.'' # takeWhile (\<lambda>c. c \<noteq> CHR ''/'') (rev s)"
    by (simp add: last_elem_def)
  have "takeWhile (\<lambda>c. c \<noteq> CHR ''.'') (rev e @ CHR ''.'' # t) = rev e" for t
    using assms(1) by (subst takeWhile_append2) auto
  then show ?thesis by (simp add: file_ext_def l Let_def)
qed

lemma lower_exts: "\<forall>ext \<in> set allowed_exts. to_lower ext \<in> set allowed_exts"
  by code_simp

lemma upload_name_safe:
  assumes "ext \<in> set allowed_exts"
  shows "safe_name (upload_name t n ext)"
proof -
  have "hd (show_int k @ s) = hd (show_int k)" for k s using show_int_ne [of k] by simp
  moreover have "hd (show_int k) \<in> set (show_int k)" for k using show_int_ne [of k] by simp
  ultimately have h: "hd (show_int k @ s) \<noteq> CHR ''.''" for k s using show_int_plain by (metis insertCI)
  obtain e where e: "ext = CHR ''.'' # e" "CHR ''.'' \<notin> set e" "CHR ''/'' \<notin> set e" "CHR 0x00 \<notin> set e"
    using assms by (auto simp: allowed_exts_def)
  have "file_ext (upload_name t n ext) = ext"
    using file_ext_append [OF e(2,3), of "show_int (t div 10 ^ 6) @ ''-'' @ show_nat (n mod 10 ^ 9)"]
    by (simp add: upload_name_def e(1))
  moreover have "to_lower ext \<in> set allowed_exts" using assms lower_exts by blast
  ultimately show ?thesis
    using show_int_plain show_nat_plain e h show_int_ne
    by (auto simp: safe_name_def upload_name_def)
qed

section \<open>Uploads\<close>

lemma next_disk_files: "next_disk \<sigma> = (d, \<sigma>1) \<Longrightarrow> wd_files \<sigma>1 = wd_files \<sigma> \<and> wd_srv \<sigma>1 = wd_srv \<sigma>"
  by (auto simp: next_disk_def)

lemma next_random_files: "next_random \<sigma> = (n, \<sigma>1) \<Longrightarrow> wd_files \<sigma>1 = wd_files \<sigma> \<and> wd_srv \<sigma>1 = wd_srv \<sigma>"
  by (auto simp: next_random_def)

definition stored_upload :: "nat \<Rightarrow> 'l world \<Rightarrow> writer \<Rightarrow> 'l world \<Rightarrow> bool" where
  "stored_upload limit \<sigma> w1 \<sigma>1 \<longleftrightarrow>
     (\<exists>n bytes. safe_name n \<and> length bytes \<le> limit \<and> w_status w1 = Some 200 \<and>
        w_out w1 = [JsonOut (JObj [(''url'', JStr (''/uploads/'' @ n))])] \<and>
        wd_files \<sigma>1 = (wd_files \<sigma>)(n \<mapsto> bytes))"

lemma save_upload_outcome:
  assumes "save_upload ext bytes new_writer \<sigma> = (w1, \<sigma>1)" "ext \<in> set allowed_exts" "length bytes \<le> limit"
  shows "wd_srv \<sigma>1 = wd_srv \<sigma> \<and>
    (wd_files \<sigma>1 = wd_files \<sigma> \<and> w_status w1 = Some 500 \<or> stored_upload limit \<sigma> w1 \<sigma>1)"
proof -
  obtain d1 \<sigma>a where a: "next_disk \<sigma> = (d1, \<sigma>a)" by (rule prod.exhaust)
  obtain n \<sigma>b where b: "next_random \<sigma>a = (n, \<sigma>b)" by (rule prod.exhaust)
  obtain d2 \<sigma>c where c: "next_disk \<sigma>b = (d2, \<sigma>c)" by (rule prod.exhaust)
  obtain d3 \<sigma>d where d: "next_disk \<sigma>c = (d3, \<sigma>d)" by (rule prod.exhaust)
  note st = next_disk_files [OF a] next_random_files [OF b] next_disk_files [OF c] next_disk_files [OF d]
  let ?bs = "case d3 of DiskOk \<Rightarrow> bytes | DiskFail \<Rightarrow> [] | DiskShort k \<Rightarrow> take k bytes"
  have l: "length ?bs \<le> limit" using assms(3) by (cases d3) auto
  show ?thesis
  proof (cases "d1 = DiskFail \<or> d2 = DiskFail")
    case True
    then show ?thesis using assms(1) a b c d st
      by (cases d1; cases d2) (auto simp: save_upload_def writeJSON_new)
  next
    case False
    let ?n = "upload_name (wd_now \<sigma>b) n ext"
    from False assms(1) have "w1 = writeJSON new_writer 200 (JObj [(''url'', JStr (''/uploads/'' @ ?n))])"
      "\<sigma>1 = put_file ?n ?bs \<sigma>d"
      by (cases d1; cases d2; simp add: save_upload_def a b c d Let_def)+
    with l st upload_name_safe [OF assms(2)] show ?thesis
      unfolding stored_upload_def by (auto simp: writeJSON_new put_file_def)
  qed
qed

lemma Upload_outcome:
  assumes "\<And>hs b cut name bytes. e_form env hs b cut = FormFile name bytes \<Longrightarrow> length bytes \<le> length b"
    and "Upload env r new_writer \<sigma> = (w1, \<sigma>1)"
  shows "wd_srv \<sigma>1 = wd_srv \<sigma> \<and>
    (wd_files \<sigma>1 = wd_files \<sigma> \<and> w_status w1 \<in> {Some 400, Some 405, Some 500} \<or>
     stored_upload upload_limit \<sigma> w1 \<sigma>1)"
proof (cases "req_method r = ''POST''")
  case False
  with assms(2) show ?thesis by (auto simp: Upload_def method_not_allowed_def writeJSON_new)
next
  case True
  note post = this
  let ?f = "e_form env (req_headers r) (take upload_limit (req_body r)) (upload_limit < length (req_body r))"
  show ?thesis
  proof (cases ?f)
    case (FormFile name bytes)
    let ?ext = "to_lower (file_ext name)"
    from assms(1) [OF FormFile] have l: "length bytes \<le> upload_limit" by simp
    show ?thesis
    proof (cases "?ext \<in> set allowed_exts")
      case False
      with assms(2) post FormFile show ?thesis by (auto simp: Upload_def writeJSON_new)
    next
      case True
      with assms(2) post FormFile have "save_upload ?ext bytes new_writer \<sigma> = (w1, \<sigma>1)" by (simp add: Upload_def)
      from save_upload_outcome [OF this True l] show ?thesis by blast
    qed
  qed (use assms(2) post in \<open>auto simp: Upload_def writeJSON_new\<close>)
qed

text \<open>
  C22. An upload puts at most one file into the upload directory, and only with status 200 and the URL of
  that file: its name has no slash, no NUL and no leading dot and ends in an extension of the list, and
  its content is no larger than 5 MiB. Every other outcome (400, 405 or 500) leaves the files alone, and
  no upload touches the tables. (A form has no file larger than the body it was parsed from.)
\<close>

theorem upload_stores_safely:
  assumes "\<And>hs b cut name bytes. e_form env hs b cut = FormFile name bytes \<Longrightarrow> length bytes \<le> length b"
    and "Upload env r new_writer \<sigma> = (w1, \<sigma>1)"
  shows "wd_srv \<sigma>1 = wd_srv \<sigma> \<and>
    (wd_files \<sigma>1 = wd_files \<sigma> \<and> w_status w1 \<in> {Some 400, Some 405, Some 500} \<or>
     stored_upload upload_limit \<sigma> w1 \<sigma>1)"
  by (rule Upload_outcome [OF assms])

theorem upload_stores_safely_witness:
  "\<exists>w1 \<sigma>1. Upload some_env ((some_request ''POST'' ''/api/admin/upload'')\<lparr>req_body := ''xyz''\<rparr>) new_writer empty_world
       = (w1, \<sigma>1) \<and> wd_srv \<sigma>1 = wd_srv empty_world"
proof -
  let ?r = "(some_request ''POST'' ''/api/admin/upload'')\<lparr>req_body := ''xyz''\<rparr>"
  obtain w1 \<sigma>1 where u: "Upload some_env ?r new_writer empty_world = (w1, \<sigma>1)" by (rule prod.exhaust)
  have "wd_srv \<sigma>1 = wd_srv empty_world \<and> (wd_files \<sigma>1 = wd_files empty_world \<and>
      w_status w1 \<in> {Some 400, Some 405, Some 500} \<or> stored_upload upload_limit empty_world w1 \<sigma>1)"
    by (rule upload_stores_safely [OF _ u]) (simp add: some_env_def)
  with u show ?thesis by blast
qed

end
