(* ===== verification/ServerInv.thy ===== *)
theory ServerInv
  imports UploadThms ContentThms
begin

text \<open>
  The server as its clients see it, one request after the other (\<open>serve\<close>), and the interface through which
  the handlers change the world (the locale \<open>world_invariant\<close>): calls of the service, the cache, the
  waiting of a failed login, the operations of the disk. What survives each of these survives every handler,
  every route, the middleware and every run of the server.
\<close>

section \<open>A run of the server\<close>

text \<open>
  What happens to the server after a while: a request comes, or the goroutine \<open>cleanup\<close> of the limiter
  ticks. The log holds, for each request, the time it came and its answer.
\<close>

datatype arrival = Arrives request | Sweeps

type_synonym exchange = "int \<times> request \<times> writer"

fun serve ::
  "'l limiter_api \<Rightarrow> env \<Rightarrow> string \<Rightarrow> string \<Rightarrow> (int \<times> arrival) list \<Rightarrow> 'l world \<Rightarrow> exchange list \<times> 'l world"
where
  "serve api env allowed pub [] \<sigma> = ([], \<sigma>)"
| "serve api env allowed pub ((d, Sweeps) # as) \<sigma> =
     (let \<sigma>1 = sleep d \<sigma>
      in serve api env allowed pub as (\<sigma>1\<lparr>wd_limiter := rl_cleanup (wd_now \<sigma>1) (wd_limiter \<sigma>1)\<rparr>))"
| "serve api env allowed pub ((d, Arrives r) # as) \<sigma> =
     (let \<sigma>1 = sleep d \<sigma>;
          (w, \<sigma>2) = server_handler api env allowed pub r new_writer \<sigma>1;
          (es, \<sigma>3) = serve api env allowed pub as \<sigma>2
      in ((wd_now \<sigma>1, r, w) # es, \<sigma>3))"

section \<open>What the handlers do to the world\<close>

text \<open>The calls of the service that handlers make, as what they do to the database.\<close>

inductive service_call :: "(server \<Rightarrow> server) \<Rightarrow> bool" where
  get_Site: "service_call (\<lambda>s. snd (Svc_GetSite s))"
| get_HeroSlides: "service_call (\<lambda>s. snd (Svc_GetHeroSlides s))"
| get_Stats: "service_call (\<lambda>s. snd (Svc_GetStats s))"
| get_About: "service_call (\<lambda>s. snd (Svc_GetAbout s))"
| get_Services: "service_call (\<lambda>s. snd (Svc_GetServices s))"
| get_News: "service_call (\<lambda>s. snd (Svc_GetNews s))"
| get_Partners: "service_call (\<lambda>s. snd (Svc_GetPartners s))"
| get_Contact: "service_call (\<lambda>s. snd (Svc_GetContact s))"
| get_Languages: "service_call (\<lambda>s. snd (Svc_GetLanguages s))"
| get_SidePanel: "service_call (\<lambda>s. snd (Svc_GetSidePanel s))"
| get_AdminPasswordHash: "service_call (\<lambda>s. snd (Svc_GetAdminPasswordHash s))"
| update_Site: "service_call (\<lambda>s. snd (Svc_UpdateSite v s))"
| update_HeroSlides: "service_call (\<lambda>s. snd (Svc_UpdateHeroSlides v s))"
| update_Stats: "service_call (\<lambda>s. snd (Svc_UpdateStats v s))"
| update_About: "service_call (\<lambda>s. snd (Svc_UpdateAbout v s))"
| update_Services: "service_call (\<lambda>s. snd (Svc_UpdateServices v s))"
| update_News: "service_call (\<lambda>s. snd (Svc_UpdateNews v s))"
| update_Partners: "service_call (\<lambda>s. snd (Svc_UpdatePartners v s))"
| update_Contact: "service_call (\<lambda>s. snd (Svc_UpdateContact v s))"
| update_Languages: "service_call (\<lambda>s. snd (Svc_UpdateLanguages v s))"
| update_SidePanel: "service_call (\<lambda>s. snd (Svc_UpdateSidePanel v s))"
| update_AdminPassword: "service_call (\<lambda>s. snd (Svc_UpdateAdminPassword v s))"

lemmas call_get =
  get_Site get_HeroSlides get_Stats get_About get_Services get_News get_Partners get_Contact
  get_Languages get_SidePanel get_AdminPasswordHash

lemmas call_update =
  update_Site update_HeroSlides update_Stats update_About update_Services update_News update_Partners update_Contact
  update_Languages update_SidePanel update_AdminPassword

text \<open>What the parser of multipart forms is relied on for: a file is no larger than the body.\<close>

definition form_within_body :: "env \<Rightarrow> bool" where
  "form_within_body env \<longleftrightarrow>
     (\<forall>hs b cut name bytes. e_form env hs b cut = FormFile name bytes \<longrightarrow> length bytes \<le> length b)"

text \<open>At most one safe file is new; nothing but the disk and the source of random numbers is touched otherwise.\<close>

definition only_stores :: "'l world \<Rightarrow> 'l world \<Rightarrow> bool" where
  "only_stores \<sigma> \<sigma>1 \<longleftrightarrow>
     wd_srv \<sigma>1 = wd_srv \<sigma> \<and> wd_cache \<sigma>1 = wd_cache \<sigma> \<and> wd_limiter \<sigma>1 = wd_limiter \<sigma> \<and>
     (wd_files \<sigma>1 = wd_files \<sigma> \<or>
      (\<exists>n bytes. safe_name n \<and> length bytes \<le> upload_limit \<and> wd_files \<sigma>1 = (wd_files \<sigma>)(n \<mapsto> bytes)))"

lemma random_stores: "next_random \<sigma> = (n, \<sigma>1) \<Longrightarrow> only_stores \<sigma> \<sigma>1"
  by (auto simp: next_random_def only_stores_def)

lemma Upload_frame:
  "Upload env r w \<sigma> = (w1, \<sigma>1) \<Longrightarrow> wd_cache \<sigma>1 = wd_cache \<sigma> \<and> wd_limiter \<sigma>1 = wd_limiter \<sigma>"
  by (auto simp: Upload_def save_upload_def next_disk_def next_random_def put_file_def Let_def
      split: if_splits form.splits disk_step.splits)

lemma Upload_stores:
  assumes "form_within_body env"
  shows "only_stores \<sigma> (snd (Upload env r w \<sigma>))"
proof -
  obtain w1 \<sigma>1 where u: "Upload env r new_writer \<sigma> = (w1, \<sigma>1)" by (rule prod.exhaust)
  have "answers_json (Upload env :: 'a world handler)" by (rule json_auth)
  then obtain f where
    f: "\<And>r w \<sigma> :: 'a world. Upload env r w \<sigma> = (case f r \<sigma> of (code, v, \<sigma>1) \<Rightarrow> (writeJSON w code v, \<sigma>1))"
    unfolding answers_json_def by blast
  have "snd (Upload env r w \<sigma>) = \<sigma>1" using u by (auto simp: f split: prod.splits)
  moreover have "wd_srv \<sigma>1 = wd_srv \<sigma> \<and> (wd_files \<sigma>1 = wd_files \<sigma> \<or> stored_upload upload_limit \<sigma> w1 \<sigma>1)"
    using Upload_outcome [OF _ u] assms unfolding form_within_body_def by blast
  ultimately show ?thesis
    using Upload_frame [OF u] by (auto simp: only_stores_def stored_upload_def)
qed

lemma read_content_server:
  "snd (read_content s) =
     snd (Svc_GetContact (snd (Svc_GetPartners (snd (Svc_GetNews (snd (Svc_GetServices (snd (Svc_GetAbout
       (snd (Svc_GetStats (snd (Svc_GetHeroSlides (snd (Svc_GetSite s)))))))))))))))"
  by (simp add: read_content_def Let_def case_prod_beta)

section \<open>The interface\<close>

locale world_invariant =
  fixes P :: "'l world \<Rightarrow> bool"
  assumes service: "service_call f \<Longrightarrow> P \<sigma> \<Longrightarrow> P (\<sigma>\<lparr>wd_srv := f (wd_srv \<sigma>)\<rparr>)"
    and cached: "P \<sigma> \<Longrightarrow> P (put_cache k v \<sigma>)"
    and flushed: "P \<sigma> \<Longrightarrow> P (\<sigma>\<lparr>wd_cache := cache_flush (wd_cache \<sigma>)\<rparr>)"
    and waited: "0 \<le> d \<Longrightarrow> P \<sigma> \<Longrightarrow> P (sleep d \<sigma>)"
    and stored: "only_stores \<sigma> \<sigma>1 \<Longrightarrow> P \<sigma> \<Longrightarrow> P \<sigma>1"
begin

definition keeps :: "'l world handler \<Rightarrow> bool" where
  "keeps h \<longleftrightarrow> (\<forall>r w \<sigma>. P \<sigma> \<longrightarrow> P (snd (h r w \<sigma>)))"

lemma keepsI: "(\<And>r w \<sigma>. P \<sigma> \<Longrightarrow> P (snd (h r w \<sigma>))) \<Longrightarrow> keeps h"
  by (simp add: keeps_def)

lemma keepsD: "keeps h \<Longrightarrow> P \<sigma> \<Longrightarrow> P (snd (h r w \<sigma>))"
  by (simp add: keeps_def)

lemma called: "service_call (\<lambda>s. snd (f s)) \<Longrightarrow> with_srv f \<sigma> = (x, \<sigma>1) \<Longrightarrow> P \<sigma> \<Longrightarrow> P \<sigma>1"
  using service [of "\<lambda>s. snd (f s)" \<sigma>] by (auto simp: with_srv_def split: prod.splits)

lemma called_at: "service_call f \<Longrightarrow> P (\<sigma>\<lparr>wd_srv := s\<rparr>) \<Longrightarrow> P (\<sigma>\<lparr>wd_srv := f s\<rparr>)"
  using service [of f "\<sigma>\<lparr>wd_srv := s\<rparr>"] by simp

lemma read:
  assumes "with_srv read_content \<sigma> = (x, \<sigma>1)" "P \<sigma>"
  shows "P \<sigma>1"
proof -
  have "\<sigma>1 = \<sigma>\<lparr>wd_srv := snd (read_content (wd_srv \<sigma>))\<rparr>"
    using assms(1) by (auto simp: with_srv_def split: prod.splits)
  moreover have "P (\<sigma>\<lparr>wd_srv := wd_srv \<sigma>\<rparr>)" using assms(2) by simp
  ultimately show ?thesis
    unfolding read_content_server by (simp only:) (intro called_at [OF get_Contact] called_at [OF get_Partners]
      called_at [OF get_News] called_at [OF get_Services] called_at [OF get_About] called_at [OF get_Stats]
      called_at [OF get_HeroSlides] called_at [OF get_Site])
qed

lemma public: "keeps Health" "keeps Content" "keeps Languages" "keeps SidePanel"
proof -
  show "keeps Health" by (simp add: keeps_def Health_def)
  show "keeps Content"
    by (rule keepsI) (auto simp: Content_def Let_def cached dest: read split: option.splits prod.splits)
  show "keeps Languages"
    by (rule keepsI) (auto simp: Languages_def cached dest: called [OF call_get(9)] split: option.splits prod.splits)
  show "keeps SidePanel"
    by (rule keepsI) (auto simp: SidePanel_def cached dest: called [OF call_get(10)] split: option.splits prod.splits)
qed

lemma account: "keeps (Login env)" "keeps (ChangePassword env)"
proof -
  show "keeps (Login env)"
    by (rule keepsI) (auto simp: Login_def Let_def waited dest: called [OF call_get(11)]
        split: prod.splits bool.splits)
  show "keeps (ChangePassword env)"
    by (rule keepsI) (auto simp: ChangePassword_def Let_def split: prod.splits
        dest: called [OF call_update(11)] stored [OF random_stores])
qed

lemma put:
  assumes "\<And>r. service_call (\<lambda>s. snd (fn r s))"
  shows "keeps (\<lambda>r. adminPUT (fn r) r)"
proof (rule keepsI)
  fix r w \<sigma>
  assume p: "P \<sigma>"
  obtain e \<sigma>1 where w: "with_srv (fn r) \<sigma> = (e, \<sigma>1)" by (rule prod.exhaust)
  from called [OF assms w p] have "P \<sigma>1" .
  with p w show "P (snd (adminPUT (fn r) r w \<sigma>))"
    by (cases e) (simp_all add: adminPUT_def flushed)
qed

lemma admin:
  "keeps AdminSite" "keeps AdminHero" "keeps AdminStats" "keeps AdminAbout" "keeps AdminServices"
  "keeps AdminNews" "keeps AdminPartners" "keeps AdminContact" "keeps AdminLanguages" "keeps AdminSidePanel"
  unfolding admin_defs [abs_def] by (rule put, rule call_update)+

lemma upload: "form_within_body env \<Longrightarrow> keeps (Upload env)"
  by (rule keepsI) (rule stored [OF Upload_stores])

lemma gate: "keeps h \<Longrightarrow> keeps (Auth mac secret h)"
  by (auto simp: keeps_def Auth_def Let_def split: sum.splits)

lemma route: "form_within_body env \<Longrightarrow> keeps (route_handler env pub rt)"
  by (cases rt)
    (simp_all add: public account admin upload gate,
     simp_all add: keeps_def AddCacheHeaders_def uploads_server_def admin_page_def spa_fallback_def
       public_server_def Let_def)

lemma behind_limiter:
  assumes "form_within_body env"
  shows "keeps (CORS allowed (SecurityHeaders (Gzip (mux env pub))))"
proof (rule keepsI)
  fix r w \<sigma>
  assume p: "P \<sigma>"
  have "P (snd (mux env pub r w' \<sigma>))" for w'
    using route [OF assms] p by (auto simp: keeps_def mux_def Let_def)
  then have g: "P (snd (Gzip (mux env pub) r w' \<sigma>))" for w'
    by (rule Gzip_state)
  show "P (snd (CORS allowed (SecurityHeaders (Gzip (mux env pub))) r w \<sigma>))"
    by (rule CORS_state [of P]) (simp_all add: SecurityHeaders_def p g)
qed

end

text \<open>What also survives a change of the limiter survives the whole server.\<close>

locale server_invariant = world_invariant P for P :: "'l world \<Rightarrow> bool" +
  assumes limited: "P \<sigma> \<Longrightarrow> P (\<sigma>\<lparr>wd_limiter := rl\<rparr>)"
begin

lemma handled:
  assumes "form_within_body env"
  shows "keeps (server_handler api env allowed pub)"
proof (rule keepsI)
  fix r w \<sigma>
  assume p: "P \<sigma>"
  obtain ok rl where a: "rl_allow api (wd_now \<sigma>) (realIP r) (wd_limiter \<sigma>) = (ok, rl)" by (rule prod.exhaust)
  from behind_limiter [OF assms] have "P (snd (CORS allowed (SecurityHeaders (Gzip (mux env pub))) r w \<sigma>'))"
    if "P \<sigma>'" for \<sigma>' using that by (rule keepsD)
  with p limited [OF p, of rl] a show "P (snd (server_handler api env allowed pub r w \<sigma>))"
    by (cases ok) (simp_all add: server_handler_def RateLimit_def)
qed

lemma served:
  assumes "form_within_body env"
  shows "list_all (\<lambda>(d, a). 0 \<le> d) as \<Longrightarrow> P \<sigma> \<Longrightarrow> P (snd (serve api env allowed pub as \<sigma>))"
proof (induction as arbitrary: \<sigma>)
  case (Cons q as)
  obtain d a where q: "q = (d, a)" by (rule prod.exhaust)
  have p: "P (sleep d \<sigma>)" using Cons.prems q by (intro waited) simp_all
  show ?case
  proof (cases a)
    case Sweeps
    with Cons q limited [OF p] show ?thesis by (simp add: Let_def)
  next
    case (Arrives r)
    obtain w \<sigma>2 where h: "server_handler api env allowed pub r new_writer (sleep d \<sigma>) = (w, \<sigma>2)"
      by (rule prod.exhaust)
    have "P \<sigma>2" using keepsD [OF handled [OF assms] p, of api allowed pub r new_writer] h by simp
    with Cons q Arrives h show ?thesis by (simp add: Let_def case_prod_beta)
  qed
qed simp

end

end
