(* ===== verification/ServerThms.thy ===== *)
theory ServerThms
  imports ServerInv LimitThms
begin

text \<open>
  Two instances of the interface of \<open>ServerInv\<close>. An invariant of the running server: whatever comes, with or
  without a token, and whatever the database and the disk do, the tables stay well formed, the upload
  directory holds nothing but files with safe names and no more than 5 MiB, no deadline outlives its request,
  and the time to live of the cache stays as it was set. And a frame: no handler touches the limiter or
  turns the clock back, so that the bound of the limiter holds for the answers of the whole server.
\<close>

section \<open>The state stays in order\<close>

definition tidy_server :: "server \<Rightarrow> bool" where
  "tidy_server s \<longleftrightarrow> db_wf (committed s) \<and> deadline s = None"

definition tidy :: "'l world \<Rightarrow> bool" where
  "tidy \<sigma> \<longleftrightarrow>
     tidy_server (wd_srv \<sigma>) \<and> ttl (wd_cache \<sigma>) = 30 * 10 ^ 9 \<and>
     (\<forall>n bytes. wd_files \<sigma> n = Some bytes \<longrightarrow> safe_name n \<and> length bytes \<le> upload_limit)"

lemma timeout_tidy:
  "(\<And>s. db_wf (committed s) \<Longrightarrow> db_wf (committed (snd (f s)))) \<Longrightarrow> tidy_server s \<Longrightarrow>
     tidy_server (snd (with_timeout d f s))"
  by (auto simp: tidy_server_def with_timeout_def Let_def case_prod_beta)

lemma service_tidy: "service_call f \<Longrightarrow> tidy_server s \<Longrightarrow> tidy_server (f s)"
  by (induction rule: service_call.induct)
    (unfold svc_get_defs svc_update_defs, (erule timeout_tidy [rotated]; simp add: reads_keep_tables updates_keep_db_wf)+)

interpretation tidied: server_invariant tidy
proof
  fix f k v d rl and \<sigma> \<sigma>1 :: "'a world"
  assume t: "tidy \<sigma>"
  show "tidy (\<sigma>\<lparr>wd_srv := f (wd_srv \<sigma>)\<rparr>)" if "service_call f"
    using t service_tidy [OF that] by (simp add: tidy_def)
  show "tidy (put_cache k v \<sigma>)" "tidy (\<sigma>\<lparr>wd_cache := cache_flush (wd_cache \<sigma>)\<rparr>)" "tidy (sleep d \<sigma>)"
    "tidy (\<sigma>\<lparr>wd_limiter := rl\<rparr>)"
    using t by (simp_all add: tidy_def tidy_server_def put_cache_def cache_set_def sleep_def cache_flush_def)
  show "tidy \<sigma>1" if "only_stores \<sigma> \<sigma>1"
    using that t by (auto simp: only_stores_def tidy_def split: if_splits)
qed

text \<open>
  C12. The server keeps its state in order, whatever it is asked: starting from well-formed tables, after any
  sequence of requests (any methods, paths, bodies and headers, with or without a token) and ticks of the
  limiter's goroutine, however the calls of the database fail or lose their replies and the operations of
  the disk fail, the tables are well formed, no deadline is left behind, the cache keeps its time to live,
  and every file of the upload directory has a safe name with an allowed extension and at most 5 MiB.
\<close>

theorem server_stays_tidy:
  assumes "form_within_body env" "list_all (\<lambda>(d, a). 0 \<le> d) as" "tidy \<sigma>"
  shows "tidy (snd (serve api env allowed pub as \<sigma>))"
  by (rule tidied.served [OF assms])

lemma some_env_form: "form_within_body some_env"
  by (simp add: form_within_body_def some_env_def)

theorem server_stays_tidy_witness:
  "tidy (snd (serve bucket_api some_env [] ''./public''
     [(0, Arrives (some_request ''PUT'' ''/api/admin/stats'')), (5, Sweeps),
      (5, Arrives (some_request ''POST'' ''/api/admin/upload''))] empty_world))"
proof (rule server_stays_tidy [OF some_env_form])
  show "tidy empty_world"
    by (simp add: tidy_def tidy_server_def empty_world_def cache_new_def) (simp add: seeded_server_def seeded_db_wf)
qed simp

section \<open>The limit holds for the answers\<close>

text \<open>The limiter is as it was, and it is not earlier than it was.\<close>

definition framed :: "'l rate_limiter \<Rightarrow> int \<Rightarrow> 'l world \<Rightarrow> bool" where
  "framed rl t \<sigma> \<longleftrightarrow> wd_limiter \<sigma> = rl \<and> t \<le> wd_now \<sigma>"

lemma service_clock: "service_call f \<Longrightarrow> clock s \<le> clock (f s)"
proof -
  have t: "clock s \<le> clock (snd (with_timeout dbTimeout g s))" if "in_time g" for g :: "server \<Rightarrow> 'r \<times> server"
    using with_timeout_ends [OF that dbTimeout_nonneg] by (simp add: ends_within_def)
  assume "service_call f"
  then show ?thesis
    by cases (simp_all add: svc_get_defs svc_update_defs get_defs UpdateSite_def UpdateStats_def UpdateAbout_def
      UpdateServices_def UpdateNews_def UpdatePartners_def UpdateContact_def UpdateLanguages_def
      UpdateSidePanel_def UpdateAdminPassword_def t in_time_all)
qed

interpretation frame: world_invariant "framed rl t" for rl :: "'l rate_limiter" and t
proof
  fix f k v d and \<sigma> \<sigma>1 :: "'l world"
  assume fr: "framed rl t \<sigma>"
  show "framed rl t (\<sigma>\<lparr>wd_srv := f (wd_srv \<sigma>)\<rparr>)" if "service_call f"
    using fr service_clock [OF that, of "wd_srv \<sigma>"] by (simp add: framed_def wd_now_def)
  show "framed rl t (put_cache k v \<sigma>)" "framed rl t (\<sigma>\<lparr>wd_cache := cache_flush (wd_cache \<sigma>)\<rparr>)"
    using fr by (simp_all add: framed_def put_cache_def wd_now_def)
  show "framed rl t (sleep d \<sigma>)" if "0 \<le> d" using that fr by (simp add: framed_def sleep_def wd_now_def)
  show "framed rl t \<sigma>1" if "only_stores \<sigma> \<sigma>1" using that fr by (simp add: only_stores_def framed_def wd_now_def)
qed


lemma answer_limited:
  assumes "form_within_body env" "server_handler api env allowed pub r new_writer \<sigma> = (w, \<sigma>1)"
  shows "wd_now \<sigma> \<le> wd_now \<sigma>1 \<and>
    (if has_prefix (req_path r) ''/api/''
     then (case rl_allow api (wd_now \<sigma>) (realIP r) (wd_limiter \<sigma>) of (ok, rl) \<Rightarrow>
             wd_limiter \<sigma>1 = rl \<and> (w_status w \<noteq> Some 429 \<longrightarrow> ok))
     else wd_limiter \<sigma>1 = wd_limiter \<sigma>)"
proof -
  let ?next = "CORS allowed (SecurityHeaders (Gzip (mux env pub)))"
  have f: "framed (wd_limiter \<sigma>') (wd_now \<sigma>') (snd (?next r new_writer \<sigma>'))" for \<sigma>'
    by (rule frame.keepsD [OF frame.behind_limiter [OF assms(1)]]) (simp add: framed_def)
  obtain ok rl where a: "rl_allow api (wd_now \<sigma>) (realIP r) (wd_limiter \<sigma>) = (ok, rl)" by (rule prod.exhaust)
  note g = f [of \<sigma>] f [of "\<sigma>\<lparr>wd_limiter := rl\<rparr>"]
  show ?thesis
  proof (cases "has_prefix (req_path r) ''/api/'' \<and> \<not> ok")
    case True
    with assms(2) a have w: "w = http_error (set_header ''Retry-After'' ''60'' new_writer) (error_text ''Too many requests'') 429"
      and \<sigma>1: "\<sigma>1 = \<sigma>\<lparr>wd_limiter := rl\<rparr>"
      by (simp_all add: server_handler_def RateLimit_def)
    have "w_status w = Some 429"
      unfolding w by (simp add: http_error_def set_header_def new_writer_def write_header_def write_chunk_def
        del_header_def)
    with True a \<sigma>1 show ?thesis by (simp add: wd_now_def)
  next
    case False
    with assms(2) a g show ?thesis
      by (auto simp: server_handler_def RateLimit_def framed_def wd_now_def split: if_splits)
  qed
qed

text \<open>The requests of one client to the API, and those answered between \<open>a\<close> and \<open>b\<close> and not refused.\<close>

definition of_client :: "string \<Rightarrow> exchange list \<Rightarrow> exchange list" where
  "of_client ip es = filter (\<lambda>(t, r, w). realIP r = ip \<and> has_prefix (req_path r) ''/api/'') es"

definition not_refused :: "int \<Rightarrow> int \<Rightarrow> exchange list \<Rightarrow> exchange list" where
  "not_refused a b es = filter (\<lambda>(t, r, w). a \<le> t \<and> t \<le> b \<and> w_status w \<noteq> Some 429) es"

definition decided :: "int \<times> bool \<Rightarrow> exchange \<Rightarrow> bool" where
  "decided d e \<longleftrightarrow> (case (d, e) of ((t, ok), (t', r, w)) \<Rightarrow> t = t' \<and> (w_status w \<noteq> Some 429 \<longrightarrow> ok))"

lemma decided_simp [simp]: "decided (t, ok) (t', r, w) \<longleftrightarrow> t = t' \<and> (w_status w \<noteq> Some 429 \<longrightarrow> ok)"
  by (simp add: decided_def)

lemma answers_for_Cons [simp]:
  "answers_for ip ((ip', ok) # ds) = (if ip' = ip then ok # answers_for ip ds else answers_for ip ds)"
  by (simp add: answers_for_def)

text \<open>Behind the answers is a history of the limiter.\<close>

lemma log_history:
  assumes "form_within_body env"
  shows "list_all (\<lambda>(d, a). 0 \<le> d) as \<Longrightarrow>
    \<exists>evs. sorted (wd_now \<sigma> # map fst evs) \<and>
      (\<forall>ip. list_all2 decided (zip (times_of ip evs) (answers_for ip (run_rl api (wd_limiter \<sigma>) evs)))
              (of_client ip (fst (serve api env allowed pub as \<sigma>))))"
proof (induction as arbitrary: \<sigma>)
  case Nil
  then show ?case by (intro exI [of _ "[]"]) (simp add: of_client_def answers_for_def)
next
  case (Cons q as)
  obtain d a where q: "q = (d, a)" by (rule prod.exhaust)
  let ?\<sigma> = "sleep d \<sigma>"
  have d: "wd_now \<sigma> \<le> wd_now ?\<sigma>" "wd_limiter ?\<sigma> = wd_limiter \<sigma>"
    using Cons.prems q by (simp_all add: sleep_def wd_now_def)
  have as: "list_all (\<lambda>(d, a). 0 \<le> d) as" using Cons.prems by simp
  show ?case
  proof (cases a)
    case Sweeps
    let ?\<sigma>1 = "?\<sigma>\<lparr>wd_limiter := rl_cleanup (wd_now ?\<sigma>) (wd_limiter ?\<sigma>)\<rparr>"
    have n: "wd_now ?\<sigma>1 = wd_now ?\<sigma>" by (simp add: wd_now_def)
    from Cons.IH [OF as, of ?\<sigma>1] obtain evs where
      "sorted (wd_now ?\<sigma> # map fst evs)"
      "\<forall>ip. list_all2 decided (zip (times_of ip evs) (answers_for ip (run_rl api (wd_limiter ?\<sigma>1) evs)))
              (of_client ip (fst (serve api env allowed pub as ?\<sigma>1)))"
      unfolding n by blast
    with d q Sweeps show ?thesis
      by (intro exI [of _ "(wd_now ?\<sigma>, RLCleanup) # evs"]) (auto simp: Let_def)
  next
    case (Arrives r)
    obtain w \<sigma>1 where h: "server_handler api env allowed pub r new_writer ?\<sigma> = (w, \<sigma>1)" by (rule prod.exhaust)
    obtain ok rl where o: "rl_allow api (wd_now ?\<sigma>) (realIP r) (wd_limiter \<sigma>) = (ok, rl)" by (rule prod.exhaust)
    note l = answer_limited [OF assms h, unfolded d(2) o prod.case]
    from Cons.IH [OF as, of \<sigma>1] obtain evs where
      evs: "sorted (wd_now \<sigma>1 # map fst evs)"
      "\<And>ip. list_all2 decided (zip (times_of ip evs) (answers_for ip (run_rl api (wd_limiter \<sigma>1) evs)))
              (of_client ip (fst (serve api env allowed pub as \<sigma>1)))" by blast
    have es: "fst (serve api env allowed pub (q # as) \<sigma>) =
        (wd_now ?\<sigma>, r, w) # fst (serve api env allowed pub as \<sigma>1)"
      using q Arrives h by (simp add: Let_def case_prod_beta)
    show ?thesis
    proof (cases "has_prefix (req_path r) ''/api/''")
      case True
      with evs l d(1) o show ?thesis unfolding es
        by (intro exI [of _ "(wd_now ?\<sigma>, RLRequest (realIP r)) # evs"])
          (auto simp: of_client_def intro: order_trans)
    next
      case False
      with evs l d(1) show ?thesis unfolding es
        by (intro exI [of _ evs]) (auto simp: of_client_def intro: order_trans)
    qed
  qed
qed

lemma decided_between:
  "list_all2 decided ds es \<Longrightarrow>
     length (not_refused a b es) \<le> granted_in a b ds"
  by (induction rule: list_all2_induct) (auto simp: not_refused_def granted_in_def decided_def split: prod.splits)

text \<open>
  C13. The limit holds for the answers of the whole server: over any run (any requests of any clients, ticks of
  the cleanup, failures of the database and the disk, the waiting after a failed login), of the requests
  to the API of one client that come in a window of time (from \<open>a\<close> to \<open>b\<close>, in nanoseconds) at most the burst and
  what flows in at the configured rate are answered with anything but status 429. Each of them is charged a token
  less the error of the limiter's \<open>float64\<close> arithmetic (for a burst of 30 that is a part in \<open>10 ^ 12\<close>), and the
  window counts two nanoseconds more. So no client can try more passwords than that, or make the database work
  more often. (Requests come one after the other here; \<open>LimiterHeap\<close> has the overlapping ones.)
\<close>

theorem answers_bounded:
  assumes "form_within_body env" "list_all (\<lambda>(d, a). 0 \<le> d) as"
    and "go_int perMinute" "4 \<le> perMinute" "wd_limiter \<sigma> = NewRateLimiter perMinute" "0 \<le> wd_now \<sigma>"
    and "0 \<le> a" "a \<le> b"
  shows "of_nat (length (not_refused a b (of_client ip (fst (serve bucket_api env allowed pub as \<sigma>))))) *
      (1 - of_int (go_div perMinute 4) / 2 ^ 45)
    \<le> of_int (go_div perMinute 4) + limit_of perMinute * of_int (b - a + 2) / 10 ^ 9"
proof -
  from log_history [OF assms(1,2), where api = bucket_api and allowed = allowed and pub = pub and \<sigma> = \<sigma>]
  obtain evs where evs: "sorted (wd_now \<sigma> # map fst evs)"
    and log: "list_all2 decided (zip (times_of ip evs) (answers_for ip (run_rl bucket_api (wd_limiter \<sigma>) evs)))
              (of_client ip (fst (serve bucket_api env allowed pub as \<sigma>)))" by blast
  have s: "sorted (map fst evs)" using evs by simp
  have ts: "sorted (times_of ip evs)" "\<forall>t \<in> set (times_of ip evs). 0 \<le> t"
    using sorted_times_of [OF s] set_times_of [of ip evs] evs assms(6) by fastforce+
  have "0 \<le> inflow perMinute (b - a)" using assms(3,4,8) by (intro inflow_nonneg) (simp_all add: go_int_def)
  from fewer_charged [OF decided_between [OF log] granted_between_times [OF assms(3,4) ts assms(7,8),
      folded answers_limiter [OF assms(3) s, of ip], folded assms(5)] this]
  show ?thesis by (simp add: charge_def inflow_def)
qed

theorem answers_bounded_witness:
  "of_nat (length (not_refused 0 60 (of_client ''a'' (fst (serve bucket_api some_env [] ''./public''
       [(0, Arrives (some_request ''POST'' ''/api/admin/login'')), (5, Sweeps),
        (5, Arrives (some_request ''POST'' ''/api/admin/login''))]
       (empty_world\<lparr>wd_limiter := NewRateLimiter 60\<rparr>)))))) * (1 - of_int (go_div 60 4) / 2 ^ 45)
     \<le> of_int (go_div 60 4) + limit_of 60 * of_int (60 - 0 + 2) / 10 ^ 9"
  by (rule answers_bounded [OF some_env_form])
    (simp_all add: go_int_def wd_now_def empty_world_def seeded_server_def)

end
