(* ===== verification/Interleaving.thy ===== *)
theory Interleaving
  imports ContentThms
begin

text \<open>
  The public reads and the admin updates when requests overlap (\<open>handlers.go\<close>: \<open>Content\<close>, \<open>Languages\<close>,
  \<open>SidePanel\<close>, \<open>adminPUT\<close>; \<open>cache.go\<close>). The server runs every request in a goroutine of its own, and
  between two calls of the cache or of the database another request may take its steps. The state keeps
  what the requests in flight hold: for each read the results of the queries it has made so far, and the
  updates that were written and whose flush has not come. Each query of a read is a step of its own. The
  lemmas that compare the cache with the database are for a database that answers every call (\<open>answering\<close>).
\<close>

section \<open>The reads behind the cache\<close>

text \<open>
  What a public handler asks the service for when its key is not in the cache, one call after the other,
  and the payload it builds from the results. A query yields \<open>None\<close> when the handler answers an error then.
\<close>

type_synonym query = "server \<Rightarrow> json option \<times> server"

record plan =
  queries :: "query list"
  build :: "json list \<Rightarrow> json"

fun ask :: "query list \<Rightarrow> server \<Rightarrow> json list option \<times> server" where
  "ask [] s = (Some [], s)"
| "ask (q # qs) s =
     (case q s of
        (None, s1) \<Rightarrow> (None, s1)
      | (Some v, s1) \<Rightarrow> (case ask qs s1 of (vs, s2) \<Rightarrow> (map_option ((#) v) vs, s2)))"

lemma ask_length: "ask qs s = (Some vs, s1) \<Longrightarrow> length vs = length qs"
  by (induction qs arbitrary: s vs) (auto split: prod.splits option.splits)

definition answer :: "plan \<Rightarrow> query" where
  "answer p s = (case ask (queries p) s of (vs, s1) \<Rightarrow> (map_option (build p) vs, s1))"

text \<open>\<open>Content\<close> drops the errors of its reads; \<open>Languages\<close> and \<open>SidePanel\<close> answer 500.\<close>

definition part_read :: "('a \<Rightarrow> json) \<Rightarrow> (server \<Rightarrow> ('a \<times> goerr option) \<times> server) \<Rightarrow> query" where
  "part_read enc get s = (case get s of ((v, e), s1) \<Rightarrow> (Some (enc v), s1))"

definition map_read :: "(server \<Rightarrow> (gomap option \<times> goerr option) \<times> server) \<Rightarrow> query" where
  "map_read get s =
     (case get s of
        ((m, Some e), s1) \<Rightarrow> (None, s1)
      | ((m, None), s1) \<Rightarrow> (Some (json_of_map m), s1))"

definition content_plan :: plan where
  "content_plan =
     \<lparr>queries =
        [part_read json_Site Svc_GetSite,
         part_read (\<lambda>v. JObj [(''slides'', json_of_slice json_HeroSlide v)]) Svc_GetHeroSlides,
         part_read (json_of_slice json_Stat) Svc_GetStats, part_read json_About Svc_GetAbout,
         part_read (json_of_slice json_Service) Svc_GetServices, part_read (json_of_slice json_NewsItem) Svc_GetNews,
         part_read (json_of_slice json_Partner) Svc_GetPartners, part_read json_Contact Svc_GetContact],
      build = (\<lambda>vs. JObj (zip [''site'', ''hero'', ''stats'', ''about'', ''services'', ''news'', ''partners'',
        ''contact''] vs))\<rparr>"

definition map_plan :: "(server \<Rightarrow> (gomap option \<times> goerr option) \<times> server) \<Rightarrow> plan" where
  "map_plan get = \<lparr>queries = [map_read get], build = hd\<rparr>"

definition cached_reads :: "(string \<times> plan) list" where
  "cached_reads =
     [(''content'', content_plan), (''languages'', map_plan Svc_GetLanguages),
      (''sidepanel'', map_plan Svc_GetSidePanel)]"

text \<open>Asked without interruption, the plan of the content is \<open>read_content\<close>.\<close>

lemma answer_content: "answer content_plan s = (case read_content s of (p, s1) \<Rightarrow> (Some p, s1))"
  by (simp add: answer_def content_plan_def part_read_def read_content_def content_payload_def Let_def
      split: prod.splits)

lemma answer_map: "answer (map_plan get) = map_read get"
  by (rule ext) (simp add: answer_def map_plan_def split: prod.splits option.splits)

section \<open>The updates\<close>

text \<open>What the admin handlers pass to \<open>adminPUT\<close>.\<close>

inductive admin_update :: "(server \<Rightarrow> goerr option \<times> server) \<Rightarrow> bool" where
  "admin_update (Svc_UpdateSite v1)"
| "admin_update (Svc_UpdateHeroSlides v2)"
| "admin_update (Svc_UpdateStats v3)"
| "admin_update (Svc_UpdateAbout v4)"
| "admin_update (Svc_UpdateServices v5)"
| "admin_update (Svc_UpdateNews v6)"
| "admin_update (Svc_UpdatePartners v7)"
| "admin_update (Svc_UpdateContact v8)"
| "admin_update (Svc_UpdateLanguages v9)"
| "admin_update (Svc_UpdateSidePanel v10)"

section \<open>The steps\<close>

text \<open>The requests that missed the cache hold the results of their queries so far.\<close>

record 'l traffic =
  tf_world :: "'l world"
  tf_reading :: "json list list"
  tf_flushing :: nat

datatype event =
    Served json
  | Missed
  | Queried
  | Stored json
  | Written
  | Flushed
  | Evicted
  | Elapsed

inductive step :: "string \<Rightarrow> plan \<Rightarrow> 'l traffic \<Rightarrow> event \<Rightarrow> 'l traffic \<Rightarrow> bool" for key p where
  hit: "cache_get (wd_now (tf_world c)) key (wd_cache (tf_world c)) = Some v \<Longrightarrow> step key p c (Served v) c"
| miss: "cache_get (wd_now (tf_world c)) key (wd_cache (tf_world c)) = None \<Longrightarrow>
    step key p c Missed (c\<lparr>tf_reading := [] # tf_reading c\<rparr>)"
| query: "tf_reading c = xs @ rs # ys \<Longrightarrow> length rs < length (queries p) \<Longrightarrow>
    with_srv (queries p ! length rs) (tf_world c) = (Some v, \<sigma>) \<Longrightarrow>
    step key p c Queried (c\<lparr>tf_world := \<sigma>, tf_reading := xs @ (rs @ [v]) # ys\<rparr>)"
| failed_query: "tf_reading c = xs @ rs # ys \<Longrightarrow> length rs < length (queries p) \<Longrightarrow>
    with_srv (queries p ! length rs) (tf_world c) = (None, \<sigma>) \<Longrightarrow>
    step key p c Queried (c\<lparr>tf_world := \<sigma>, tf_reading := xs @ ys\<rparr>)"
| store: "tf_reading c = xs @ rs # ys \<Longrightarrow> length rs = length (queries p) \<Longrightarrow>
    step key p c (Stored (build p rs))
      (c\<lparr>tf_world := put_cache key (build p rs) (tf_world c), tf_reading := xs @ ys\<rparr>)"
| store_other: "k \<noteq> key \<Longrightarrow> step key p c Elapsed (c\<lparr>tf_world := put_cache k v (tf_world c)\<rparr>)"
| update: "admin_update fn \<Longrightarrow> with_srv fn (tf_world c) = (None, \<sigma>) \<Longrightarrow>
    step key p c Written (c\<lparr>tf_world := \<sigma>, tf_flushing := Suc (tf_flushing c)\<rparr>)"
| failed_update: "admin_update fn \<Longrightarrow> with_srv fn (tf_world c) = (Some e, \<sigma>) \<Longrightarrow>
    step key p c Written (c\<lparr>tf_world := \<sigma>\<rparr>)"
| flush: "tf_flushing c = Suc n \<Longrightarrow>
    step key p c Flushed
      (c\<lparr>tf_world := (tf_world c)\<lparr>wd_cache := cache_flush (wd_cache (tf_world c))\<rparr>, tf_flushing := n\<rparr>)"
| evict: "step key p c Evicted
    (c\<lparr>tf_world := (tf_world c)\<lparr>wd_cache := cache_evict (wd_now (tf_world c)) (wd_cache (tf_world c))\<rparr>\<rparr>)"
| elapse: "0 \<le> d \<Longrightarrow> step key p c Elapsed (c\<lparr>tf_world := sleep d (tf_world c)\<rparr>)"

inductive_cases step_cases: "step key p c e c'"

text \<open>Runs whose every step satisfies a discipline \<open>G\<close>.\<close>

inductive run ::
  "string \<Rightarrow> plan \<Rightarrow> ('l traffic \<Rightarrow> event \<Rightarrow> bool) \<Rightarrow> 'l traffic \<Rightarrow> 'l traffic \<Rightarrow> bool"
  for key p G c where
  run_refl: "run key p G c c"
| run_step: "run key p G c c1 \<Longrightarrow> step key p c1 e c2 \<Longrightarrow> G c1 e \<Longrightarrow> run key p G c c2"

lemma run_before: "run key p G c1 c2 \<Longrightarrow> step key p c e c1 \<Longrightarrow> G c e \<Longrightarrow> run key p G c c2"
  by (induction rule: run.induct) (auto intro: run_step [OF run_refl] run_step)

definition any_order :: "'l traffic \<Rightarrow> event \<Rightarrow> bool" where
  "any_order c e \<longleftrightarrow> True"

text \<open>No update between a miss and its store, no miss between an update and its flush.\<close>

definition orderly :: "'l traffic \<Rightarrow> event \<Rightarrow> bool" where
  "orderly c e \<longleftrightarrow> (e = Written \<longrightarrow> tf_reading c = []) \<and> (e = Missed \<longrightarrow> tf_flushing c = 0)"

definition no_update :: "'l traffic \<Rightarrow> event \<Rightarrow> bool" where
  "no_update c e \<longleftrightarrow> e \<noteq> Written"

definition idle :: "'l world \<Rightarrow> 'l traffic" where
  "idle \<sigma> = \<lparr>tf_world = \<sigma>, tf_reading = [], tf_flushing = 0\<rparr>"

text \<open>The database answers every call, and no request has a deadline of its own.\<close>

definition answering :: "'l world \<Rightarrow> bool" where
  "answering \<sigma> \<longleftrightarrow> faults (wd_srv \<sigma>) = [] \<and> delays (wd_srv \<sigma>) = [] \<and> deadline (wd_srv \<sigma>) = None"

definition served :: "string \<Rightarrow> 'l world \<Rightarrow> json option" where
  "served key \<sigma> = cache_get (wd_now \<sigma>) key (wd_cache \<sigma>)"

section \<open>Updates that fail change nothing\<close>

definition fails_cleanly :: "(server \<Rightarrow> goerr option \<times> server) \<Rightarrow> bool" where
  "fails_cleanly f \<longleftrightarrow> (\<forall>s e s1. healthy s \<longrightarrow> f s = (Some e, s1) \<longrightarrow> s1 = s)"

lemma tx_commit_clean: "healthy s \<Longrightarrow> tx_commit t s = (Some e, s1) \<Longrightarrow> s1 = s"
  by (auto simp: tx_commit_def next_fault_fine split: if_splits)

lemma fails_cleanlyI: "(\<And>s e s1. healthy s \<Longrightarrow> f s = (Some e, s1) \<Longrightarrow> s1 = s) \<Longrightarrow> fails_cleanly f"
  by (auto simp: fails_cleanly_def)

lemma fails_cleanly_run: "fails_cleanly (run_ignoring sts)"
proof (rule fails_cleanlyI)
  fix s e s1
  assume s: "healthy s" and r: "run_ignoring sts s = (Some e, s1)"
  obtain t1 s2 where x: "tx_exec_all sts \<lparr>work = committed s, aborted = False\<rparr> s = (t1, s2)"
    by (rule prod.exhaust)
  have s2: "s2 = s" by (rule tx_exec_all_healthy [OF s x])
  from r s x have "tx_commit t1 s = (Some e, s1)" by (simp add: run_ignoring_def db_begin_fine s2)
  then show "s1 = s" by (rule tx_commit_clean [OF s])
qed

lemma fails_cleanly_exec: "fails_cleanly (db_exec st)"
  by (auto simp: fails_cleanly_def db_exec_def next_fault_fine split: sum.splits)

lemma fails_cleanly_slides: "fails_cleanly (UpdateHeroSlides xs)"
proof -
  have "s1 = s" if s: "healthy s" and r: "UpdateHeroSlides xs s = (Some e, s1)" for s e s1
  proof -
    obtain e1 t2 s2 where x: "tx_exec (DeleteAll ''hero_slides'') \<lparr>work = committed s, aborted = False\<rparr> s = (e1, t2, s2)"
      by (rule prod_cases3)
    have s2: "s2 = s" by (rule tx_exec_healthy [OF s x])
    obtain e2 t3 s3 where y: "insert_slides 0 (elems xs) t2 s = (e2, t3, s3)"
      by (rule prod_cases3)
    have s3: "s3 = s" by (rule insert_slides_healthy [OF s y])
    show ?thesis
      using r s x y tx_commit_clean [OF s] unfolding s2 s3
      by (auto simp: UpdateHeroSlides_def db_begin_fine split: option.splits)
  qed
  then show ?thesis by (auto simp: fails_cleanly_def)
qed

lemma fails_cleanly_timeout:
  assumes "fails_cleanly f"
  shows "fails_cleanly (with_timeout dbTimeout f)"
proof -
  have "s1 = s" if s: "healthy s" and r: "with_timeout dbTimeout f s = (Some e, s1)" for s e s1
  proof -
    let ?b = "case deadline s of None \<Rightarrow> clock s + dbTimeout | Some b0 \<Rightarrow> min b0 (clock s + dbTimeout)"
    obtain e2 s2 where f: "f (s\<lparr>deadline := Some ?b\<rparr>) = (e2, s2)" by (rule prod.exhaust)
    with r have "e2 = Some e" "s1 = s2\<lparr>deadline := deadline s\<rparr>" by (simp_all add: with_timeout_def Let_def)
    with f assms healthy_deadline [OF s dbTimeout_nonneg] show "s1 = s"
      unfolding fails_cleanly_def by (cases s) fastforce
  qed
  then show ?thesis by (auto simp: fails_cleanly_def)
qed

lemma admin_update_tables: "admin_update fn \<Longrightarrow> only_tables fn"
  by (induction rule: admin_update.induct) (rule only_tables_svc)+

lemma admin_update_clean: "admin_update fn \<Longrightarrow> fails_cleanly fn"
  by (induction rule: admin_update.induct)
    (simp_all add: svc_update_defs UpdateSite_def UpdateStats_def UpdateAbout_def UpdateServices_def
      UpdateNews_def UpdatePartners_def UpdateContact_def UpdateLanguages_def UpdateSidePanel_def
      fails_cleanly_timeout fails_cleanly_run fails_cleanly_slides fails_cleanly_exec)

section \<open>The effect of the calls on an answering database\<close>

lemma answering_healthy: "answering \<sigma> \<Longrightarrow> healthy (wd_srv \<sigma>)"
  by (simp add: answering_def healthy_def)

lemma answering_frame [simp]:
  "answering (\<sigma>\<lparr>wd_cache := c\<rparr>) = answering \<sigma>" "answering (put_cache k v \<sigma>) = answering \<sigma>"
  "answering (sleep d \<sigma>) = answering \<sigma>" "answering (\<sigma>\<lparr>wd_srv := (wd_srv \<sigma>)\<lparr>committed := d1\<rparr>\<rparr>) = answering \<sigma>"
  by (simp_all add: answering_def put_cache_def sleep_def)

lemma update_run:
  assumes "admin_update fn" "answering \<sigma>" "with_srv fn \<sigma> = (r, \<sigma>1)"
  obtains d where "\<sigma>1 = \<sigma>\<lparr>wd_srv := (wd_srv \<sigma>)\<lparr>committed := d\<rparr>\<rparr>" "r \<noteq> None \<Longrightarrow> \<sigma>1 = \<sigma>"
proof -
  obtain r1 s1 where f: "fn (wd_srv \<sigma>) = (r1, s1)" by (rule prod.exhaust)
  with assms(3) have r: "r1 = r" "\<sigma>1 = \<sigma>\<lparr>wd_srv := s1\<rparr>" by (simp_all add: with_srv_def)
  from admin_update_tables [OF assms(1)] answering_healthy [OF assms(2)] f obtain d
    where d: "s1 = (wd_srv \<sigma>)\<lparr>committed := d\<rparr>" unfolding only_tables_def by (metis snd_conv)
  have "s1 = wd_srv \<sigma>" if "r \<noteq> None"
    using admin_update_clean [OF assms(1)] answering_healthy [OF assms(2)] f that r(1)
    unfolding fails_cleanly_def by blast
  with r d show thesis by (intro that [of d]) simp_all
qed

section \<open>Uninterrupted queries\<close>

lemma run_trans: "run key p G c1 c2 \<Longrightarrow> run key p G c c1 \<Longrightarrow> run key p G c c2"
  by (induction rule: run.induct) (auto intro: run_step)

lemma any_order: "any_order c e"
  by (simp add: any_order_def)

text \<open>A request asks a segment of its plan while no other request takes a step.\<close>

lemma run_queries:
  assumes "queries p = pre @ qs @ post" "length rs = length pre" "ask qs (wd_srv \<sigma>) = (Some vs, s1)"
    and "tf_world c = \<sigma>" "tf_reading c = rs # ys" "\<And>c. G c Queried"
  shows "run key p G c (c\<lparr>tf_world := \<sigma>\<lparr>wd_srv := s1\<rparr>, tf_reading := (rs @ vs) # ys\<rparr>)"
  using assms(1-5)
proof (induction qs arbitrary: pre rs vs \<sigma> c)
  case Nil
  then have "c\<lparr>tf_world := \<sigma>\<lparr>wd_srv := s1\<rparr>, tf_reading := (rs @ vs) # ys\<rparr> = c" by simp
  then show ?case by (simp add: run_refl)
next
  case (Cons q qs)
  from Cons.prems(3) obtain v s2 vs' where q: "q (wd_srv \<sigma>) = (Some v, s2)" "ask qs s2 = (Some vs', s1)" "vs = v # vs'"
    by (auto split: prod.splits option.splits)
  let ?c = "c\<lparr>tf_world := \<sigma>\<lparr>wd_srv := s2\<rparr>, tf_reading := (rs @ [v]) # ys\<rparr>"
  have st: "step key p c Queried ?c"
    using step.query [of c "[]" rs ys p v "\<sigma>\<lparr>wd_srv := s2\<rparr>" key] Cons.prems(1,2,4,5) q(1)
    by (simp add: with_srv_def nth_append)
  have "run key p G ?c (?c\<lparr>tf_world := \<sigma>\<lparr>wd_srv := s2\<rparr>\<lparr>wd_srv := s1\<rparr>, tf_reading := ((rs @ [v]) @ vs') # ys\<rparr>)"
    by (rule Cons.IH [of "pre @ [q]"]) (use Cons.prems(1,2) q(2) in simp_all)
  then show ?case using run_before [where G = G, OF _ st assms(6)] q(3) by simp
qed

lemma run_failed_queries:
  assumes "queries p = pre @ qs" "length rs = length pre" "ask qs (wd_srv \<sigma>) = (None, s1)"
    and "tf_world c = \<sigma>" "tf_reading c = rs # ys" "\<And>c. G c Queried"
  shows "run key p G c (c\<lparr>tf_world := \<sigma>\<lparr>wd_srv := s1\<rparr>, tf_reading := ys\<rparr>)"
  using assms(1-5)
proof (induction qs arbitrary: pre rs \<sigma> c)
  case (Cons q qs)
  obtain v s2 where q: "q (wd_srv \<sigma>) = (v, s2)" by (rule prod.exhaust)
  show ?case
  proof (cases v)
    case None
    have "step key p c Queried (c\<lparr>tf_world := \<sigma>\<lparr>wd_srv := s2\<rparr>, tf_reading := ys\<rparr>)"
      using step.failed_query [of c "[]" rs ys p "\<sigma>\<lparr>wd_srv := s2\<rparr>" key] Cons.prems(1,2,4,5) q None
      by (simp add: with_srv_def nth_append)
    moreover have "s2 = s1" using Cons.prems(3) q None by simp
    ultimately show ?thesis using run_step [where G = G, OF run_refl _ assms(6)] by simp
  next
    case (Some w)
    let ?c = "c\<lparr>tf_world := \<sigma>\<lparr>wd_srv := s2\<rparr>, tf_reading := (rs @ [w]) # ys\<rparr>"
    have st: "step key p c Queried ?c"
      using step.query [of c "[]" rs ys p w "\<sigma>\<lparr>wd_srv := s2\<rparr>" key] Cons.prems(1,2,4,5) q Some
      by (simp add: with_srv_def nth_append)
    have "run key p G ?c (?c\<lparr>tf_world := \<sigma>\<lparr>wd_srv := s2\<rparr>\<lparr>wd_srv := s1\<rparr>, tf_reading := ys\<rparr>)"
      by (rule Cons.IH [of "pre @ [q]"]) (use Cons.prems(1-3) q Some in \<open>auto split: prod.splits\<close>)
    then show ?thesis using run_before [where G = G, OF _ st assms(6)] by simp
  qed
qed simp

text \<open>Updates that succeed one after the other.\<close>

fun applied :: "(server \<Rightarrow> goerr option \<times> server) list \<Rightarrow> server \<Rightarrow> server option" where
  "applied [] s = Some s"
| "applied (fn # fns) s = (case fn s of (None, s1) \<Rightarrow> applied fns s1 | (Some e, s1) \<Rightarrow> None)"

lemma flush_flush [simp]: "cache_flush (cache_flush c) = cache_flush c"
  by (simp add: cache_flush_def)

lemma run_updates:
  assumes "\<forall>fn \<in> set fns. admin_update fn" "applied fns (wd_srv (tf_world c)) = Some s1" "tf_flushing c = 0"
  shows "run key p any_order c (c\<lparr>tf_world := (tf_world c)\<lparr>wd_srv := s1,
    wd_cache := (if fns = [] then wd_cache (tf_world c) else cache_flush (wd_cache (tf_world c)))\<rparr>\<rparr>)"
  using assms
proof (induction fns arbitrary: c)
  case Nil
  then have "c\<lparr>tf_world := (tf_world c)\<lparr>wd_srv := s1\<rparr>\<rparr> = c" by simp
  then show ?case by (simp add: run_refl)
next
  case (Cons fn fns)
  from Cons.prems(2) obtain s2 where f: "fn (wd_srv (tf_world c)) = (None, s2)" "applied fns s2 = Some s1"
    by (auto split: prod.splits option.splits)
  let ?\<sigma> = "(tf_world c)\<lparr>wd_srv := s2\<rparr>"
  let ?c1 = "c\<lparr>tf_world := ?\<sigma>, tf_flushing := Suc 0\<rparr>"
  let ?c2 = "?c1\<lparr>tf_world := ?\<sigma>\<lparr>wd_cache := cache_flush (wd_cache ?\<sigma>)\<rparr>, tf_flushing := 0\<rparr>"
  have s1: "step key p c Written ?c1"
    using step.update [of fn c ?\<sigma> key p] Cons.prems(1,3) f(1) by (simp add: with_srv_def)
  have s2: "step key p ?c1 Flushed ?c2" using step.flush [of ?c1 0] by simp
  have r1: "run key p any_order c ?c2" by (rule run_step [OF run_step [OF run_refl s1 any_order] s2 any_order])
  have r2: "run key p any_order ?c2 (?c2\<lparr>tf_world := (tf_world ?c2)\<lparr>wd_srv := s1,
      wd_cache := (if fns = [] then wd_cache (tf_world ?c2) else cache_flush (wd_cache (tf_world ?c2)))\<rparr>\<rparr>)"
    by (rule Cons.IH) (use Cons.prems(1) f(2) in simp_all)
  from run_trans [OF r2 r1] Cons.prems(3) show ?case by (cases c) (simp split: if_splits)
qed

section \<open>A read and the cache in front of it\<close>

text \<open>
  What the argument needs of the queries of a read: on a database that answers, their results depend on the
  tables alone and they change nothing.
\<close>

locale cached_read =
  fixes key :: string
    and p :: plan
  assumes queries_fine: "q \<in> set (queries p) \<Longrightarrow> healthy s \<Longrightarrow> healthy s' \<Longrightarrow> committed s' = committed s \<Longrightarrow>
    q s' = (fst (q s), s')"
begin

definition results :: "'l world \<Rightarrow> json option list" where
  "results \<sigma> = map (\<lambda>q. fst (q (wd_srv \<sigma>))) (queries p)"

definition current :: "'l world \<Rightarrow> json option" where
  "current \<sigma> = map_option (build p) (those (results \<sigma>))"

lemma ask_fine:
  "set qs \<subseteq> set (queries p) \<Longrightarrow> healthy s \<Longrightarrow> ask qs s = (those (map (\<lambda>q. fst (q s)) qs), s)"
proof (induction qs)
  case (Cons q qs)
  then have "q s = (fst (q s), s)" using queries_fine [of q s s] by simp
  with Cons show ?case by (cases "q s") (auto split: option.splits)
qed simp

lemma answer_current: "answering \<sigma> \<Longrightarrow> answer p (wd_srv \<sigma>) = (current \<sigma>, wd_srv \<sigma>)"
  by (simp add: answer_def ask_fine answering_healthy current_def results_def)

lemma query_world:
  "answering \<sigma> \<Longrightarrow> i < length (queries p) \<Longrightarrow> with_srv (queries p ! i) \<sigma> = (results \<sigma> ! i, \<sigma>)"
  using queries_fine [of "queries p ! i" "wd_srv \<sigma>" "wd_srv \<sigma>"]
  by (cases "(queries p ! i) (wd_srv \<sigma>)") (simp add: answering_healthy with_srv_def results_def)

lemma results_cong:
  "answering \<sigma> \<Longrightarrow> answering \<sigma>1 \<Longrightarrow> committed (wd_srv \<sigma>1) = committed (wd_srv \<sigma>) \<Longrightarrow> results \<sigma>1 = results \<sigma>"
  unfolding results_def by (rule map_cong [OF refl]) (metis fst_conv queries_fine answering_healthy)

lemma results_frame [simp]:
  "results (\<sigma>\<lparr>wd_cache := c\<rparr>) = results \<sigma>" "results (put_cache k v \<sigma>) = results \<sigma>"
  by (simp_all add: results_def put_cache_def)

lemma results_sleep: "answering \<sigma> \<Longrightarrow> results (sleep d \<sigma>) = results \<sigma>"
  by (rule results_cong) (simp_all, simp add: sleep_def)

lemma step_answers: "step key p c e c' \<Longrightarrow> answering (tf_world c) \<Longrightarrow> answering (tf_world c')"
  by (erule step_cases) (auto simp: query_world elim!: update_run)

lemma run_answers: "run key p G c c' \<Longrightarrow> answering (tf_world c) \<Longrightarrow> answering (tf_world c')"
  by (induction rule: run.induct) (auto dest: step_answers)

text \<open>What a request in flight holds is a prefix of the results of now.\<close>

definition up_to_date :: "json list \<Rightarrow> 'l world \<Rightarrow> bool" where
  "up_to_date rs \<sigma> \<longleftrightarrow> map Some rs = take (length rs) (results \<sigma>)"

lemma up_to_date_Nil [simp]: "up_to_date [] \<sigma>"
  by (simp add: up_to_date_def)

lemma up_to_date_snoc:
  assumes "up_to_date rs \<sigma>" "length rs < length (queries p)" "results \<sigma> ! length rs = Some v"
  shows "up_to_date (rs @ [v]) \<sigma>"
  using assms by (simp add: up_to_date_def take_Suc_conv_app_nth results_def)

lemma those_Some: "those (map Some rs) = Some rs"
  by (induction rs) simp_all

lemma up_to_date_complete:
  assumes "up_to_date rs \<sigma>" "length rs = length (queries p)"
  shows "current \<sigma> = Some (build p rs)"
proof -
  have "results \<sigma> = map Some rs" using assms by (simp add: up_to_date_def results_def)
  then show ?thesis by (simp add: current_def those_Some)
qed

lemma up_to_date_cong: "results \<sigma>1 = results \<sigma> \<Longrightarrow> up_to_date rs \<sigma>1 = up_to_date rs \<sigma>"
  "results \<sigma>1 = results \<sigma> \<Longrightarrow> current \<sigma>1 = current \<sigma>"
  by (simp_all add: up_to_date_def current_def)

lemmas world_cong =
  up_to_date_cong [OF results_frame(1)] up_to_date_cong [OF results_frame(2)] up_to_date_cong [OF results_sleep]

definition held :: "'l world \<Rightarrow> json entry option" where
  "held \<sigma> = entries (wd_cache \<sigma>) key"

lemma held_simps [simp]:
  "held (put_cache key v \<sigma>) = Some \<lparr>cached = v, expiresAt = wd_now \<sigma> + ttl (wd_cache \<sigma>)\<rparr>"
  "k \<noteq> key \<Longrightarrow> held (put_cache k v \<sigma>) = held \<sigma>"
  "held (\<sigma>\<lparr>wd_cache := cache_flush c\<rparr>) = None"
  "held (sleep d \<sigma>) = held \<sigma>" "held (\<sigma>\<lparr>wd_srv := s\<rparr>) = held \<sigma>"
  by (simp_all add: held_def put_cache_def cache_set_def cache_flush_def sleep_def)

lemma held_evict: "held (\<sigma>\<lparr>wd_cache := cache_evict t (wd_cache \<sigma>)\<rparr>) = Some e \<Longrightarrow> held \<sigma> = Some e"
  by (auto simp: held_def cache_evict_def split: option.splits if_splits)

lemma ttl_evict: "ttl (cache_evict t c) = ttl c"
  by (simp add: cache_evict_def)

lemma served_held: "served key \<sigma> = Some v \<longleftrightarrow> (\<exists>e. held \<sigma> = Some e \<and> wd_now \<sigma> \<le> expiresAt e \<and> v = cached e)"
  by (auto simp: served_def held_def cache_get_def split: option.splits)

text \<open>Orderly requests: what is cached or about to be cached is current, but for pending flushes.\<close>

definition in_order :: "'l traffic \<Rightarrow> bool" where
  "in_order c \<longleftrightarrow>
     (tf_reading c \<noteq> [] \<longrightarrow> tf_flushing c = 0) \<and>
     (\<forall>rs \<in> set (tf_reading c). up_to_date rs (tf_world c)) \<and>
     (tf_flushing c = 0 \<longrightarrow> (\<forall>e. held (tf_world c) = Some e \<longrightarrow> current (tf_world c) = Some (cached e)))"

lemma step_in_order:
  assumes "step key p c e c'" "orderly c e" "answering (tf_world c)" "in_order c"
  shows "in_order c'"
  using assms(1)
proof cases
  case (update fn \<sigma>)
  with assms(2) show ?thesis by (simp add: in_order_def orderly_def)
next
  case (failed_update fn err \<sigma>)
  then have "\<sigma> = tf_world c" by (auto elim: update_run [OF _ assms(3)])
  with failed_update assms(4) show ?thesis by simp
next
  case evict
  with assms(4) show ?thesis by (auto simp: in_order_def world_cong dest!: held_evict)
next
  case (query xs rs ys v \<sigma>)
  with assms(3,4) show ?thesis by (auto simp: in_order_def query_world intro: up_to_date_snoc)
next
  case (store xs rs ys)
  with assms(4) up_to_date_complete [of rs "tf_world c"] show ?thesis by (auto simp: in_order_def world_cong)
qed (use assms(2-4) in \<open>auto simp: in_order_def orderly_def query_world world_cong\<close>)

lemma run_in_order:
  "run key p orderly c c' \<Longrightarrow> answering (tf_world c) \<Longrightarrow> in_order c \<Longrightarrow> in_order c'"
  by (induction rule: run.induct) (auto intro: step_in_order run_answers)

lemma orderly_current:
  assumes "run key p orderly (idle \<sigma>) c" "answering \<sigma>" "entries (wd_cache \<sigma>) = (\<lambda>_. None)"
    and "tf_flushing c = 0" "served key (tf_world c) = Some v"
  shows "fst (answer p (wd_srv (tf_world c))) = Some v"
proof -
  have "in_order (idle \<sigma>)" using assms(3) by (simp add: in_order_def idle_def held_def)
  moreover have a: "answering (tf_world (idle \<sigma>))" using assms(2) by (simp add: idle_def)
  ultimately have "in_order c" using run_in_order [OF assms(1)] by blast
  with assms(4,5) answer_current [OF run_answers [OF assms(1) a]] show ?thesis by (auto simp: in_order_def served_held)
qed

text \<open>Without new updates every stale entry is gone when its time to live is over.\<close>

definition settling :: "int \<Rightarrow> 'l traffic \<Rightarrow> bool" where
  "settling T c \<longleftrightarrow>
     (\<forall>rs \<in> set (tf_reading c). up_to_date rs (tf_world c)) \<and>
     (\<forall>e. held (tf_world c) = Some e \<longrightarrow> current (tf_world c) = Some (cached e) \<or> expiresAt e \<le> T)"

lemma step_settling:
  assumes "step key p c e c'" "no_update c e" "answering (tf_world c)" "settling T c"
  shows "settling T c'"
  using assms(1)
proof cases
  case evict
  with assms(4) show ?thesis by (auto simp: settling_def world_cong dest!: held_evict)
next
  case (query xs rs ys v \<sigma>)
  with assms(3,4) show ?thesis by (auto simp: settling_def query_world intro: up_to_date_snoc)
next
  case (store xs rs ys)
  with assms(4) up_to_date_complete [of rs "tf_world c"] show ?thesis by (auto simp: settling_def world_cong)
qed (use assms(2-4) in \<open>auto simp: settling_def no_update_def query_world world_cong\<close>)

lemma run_settling:
  "run key p no_update c c' \<Longrightarrow> answering (tf_world c) \<Longrightarrow> settling T c \<Longrightarrow> settling T c'"
  by (induction rule: run.induct) (auto intro: step_settling run_answers)

definition bounded :: "'l traffic \<Rightarrow> bool" where
  "bounded c \<longleftrightarrow> (\<forall>e. held (tf_world c) = Some e \<longrightarrow>
     expiresAt e \<le> wd_now (tf_world c) + ttl (wd_cache (tf_world c)))"

lemma step_bounded:
  assumes "step key p c e c'" "answering (tf_world c)" "bounded c"
  shows "bounded c'"
  using assms(1)
proof cases
  case (update fn \<sigma>)
  from update_run [OF update(3) assms(2) update(4)] obtain d
    where "\<sigma> = (tf_world c)\<lparr>wd_srv := (wd_srv (tf_world c))\<lparr>committed := d\<rparr>\<rparr>" .
  with update assms(3) show ?thesis by (simp add: bounded_def wd_now_def)
next
  case (failed_update fn err \<sigma>)
  then have "\<sigma> = tf_world c" by (auto elim: update_run [OF _ assms(2)])
  with failed_update assms(3) show ?thesis by simp
next
  case evict
  with assms(3) show ?thesis by (auto simp: bounded_def wd_now_def ttl_evict dest!: held_evict)
next
  case (elapse d)
  with assms(3) show ?thesis by (auto simp: bounded_def wd_now_def sleep_def held_def)
qed (use assms(2,3) in \<open>auto simp: bounded_def wd_now_def query_world put_cache_def cache_set_def cache_flush_def held_def\<close>)

lemma run_bounded: "run key p G c c' \<Longrightarrow> answering (tf_world c) \<Longrightarrow> bounded c \<Longrightarrow> bounded c'"
  by (induction rule: run.induct) (auto intro: step_bounded run_answers)

lemma heals:
  assumes "run key p any_order (idle \<sigma>) c1" "answering \<sigma>" "entries (wd_cache \<sigma>) = (\<lambda>_. None)"
    and "tf_reading c1 = []" "run key p no_update c1 c2"
    and "wd_now (tf_world c1) + ttl (wd_cache (tf_world c1)) < wd_now (tf_world c2)"
    and "served key (tf_world c2) = Some v"
  shows "fst (answer p (wd_srv (tf_world c2))) = Some v"
proof -
  let ?T = "wd_now (tf_world c1) + ttl (wd_cache (tf_world c1))"
  have "bounded (idle \<sigma>)" and a: "answering (tf_world (idle \<sigma>))"
    using assms(2,3) by (simp_all add: bounded_def idle_def held_def)
  then have "bounded c1" by (intro run_bounded [OF assms(1)])
  then have "settling ?T c1" using assms(4) by (simp add: settling_def bounded_def)
  moreover have "answering (tf_world c1)" by (rule run_answers [OF assms(1) a])
  ultimately have "settling ?T c2" "answering (tf_world c2)"
    by (blast intro: run_settling [OF assms(5)] run_answers [OF assms(5)])+
  with assms(6,7) show ?thesis by (fastforce simp: settling_def served_held answer_current)
qed

text \<open>A read that is overtaken by updates stores a mixture of the contents before and after.\<close>

lemma those_eq: "those xs = Some vs \<Longrightarrow> xs = map Some vs"
  by (induction xs arbitrary: vs) (auto split: option.splits)

lemma ask_results: "answering \<sigma> \<Longrightarrow> ask (queries p) (wd_srv \<sigma>) = (those (results \<sigma>), wd_srv \<sigma>)"
  using ask_fine [of "queries p" "wd_srv \<sigma>"] by (simp add: answering_healthy results_def)

lemma ask_part:
  assumes "answering \<sigma>" "fst (ask (queries p) (wd_srv \<sigma>)) = Some vs"
  shows "length vs = length (queries p)" "ask (take k (queries p)) (wd_srv \<sigma>) = (Some (take k vs), wd_srv \<sigma>)"
    "ask (drop k (queries p)) (wd_srv \<sigma>) = (Some (drop k vs), wd_srv \<sigma>)"
proof -
  have r: "map (\<lambda>q. fst (q (wd_srv \<sigma>))) (queries p) = map Some vs"
    using assms(2) ask_results [OF assms(1)] by (auto simp: results_def dest: those_eq)
  from arg_cong [OF r, of length] show "length vs = length (queries p)" by simp
  have t: "map (\<lambda>q. fst (q (wd_srv \<sigma>))) (take k (queries p)) = map Some (take k vs)"
    "map (\<lambda>q. fst (q (wd_srv \<sigma>))) (drop k (queries p)) = map Some (drop k vs)"
    using r by (metis take_map, metis drop_map)
  show "ask (take k (queries p)) (wd_srv \<sigma>) = (Some (take k vs), wd_srv \<sigma>)"
    using ask_fine [OF set_take_subset answering_healthy [OF assms(1)], of k] by (simp only: t those_Some)
  show "ask (drop k (queries p)) (wd_srv \<sigma>) = (Some (drop k vs), wd_srv \<sigma>)"
    using ask_fine [OF set_drop_subset answering_healthy [OF assms(1)], of k] by (simp only: t those_Some)
qed

lemma applied_answers:
  "\<forall>fn \<in> set fns. admin_update fn \<Longrightarrow> applied fns (wd_srv \<sigma>) = Some s1 \<Longrightarrow> answering \<sigma> \<Longrightarrow>
     answering (\<sigma>\<lparr>wd_srv := s1\<rparr>) \<and> clock s1 = clock (wd_srv \<sigma>)"
proof (induction fns arbitrary: \<sigma>)
  case (Cons fn fns)
  from Cons.prems(2) obtain s2 where f: "fn (wd_srv \<sigma>) = (None, s2)" "applied fns s2 = Some s1"
    by (auto split: prod.splits option.splits)
  then have "with_srv fn \<sigma> = (None, \<sigma>\<lparr>wd_srv := s2\<rparr>)" by (simp add: with_srv_def)
  from update_run [OF _ Cons.prems(3) this] Cons.prems(1) obtain d
    where "\<sigma>\<lparr>wd_srv := s2\<rparr> = \<sigma>\<lparr>wd_srv := (wd_srv \<sigma>)\<lparr>committed := d\<rparr>\<rparr>" by auto
  then have "s2 = (wd_srv \<sigma>)\<lparr>committed := d\<rparr>" by (metis world.select_convs(1) world.surjective world.update_convs(1))
  with Cons.IH [of "\<sigma>\<lparr>wd_srv := s2\<rparr>"] Cons.prems(1,3) f(2) show ?case by simp
qed (auto simp: answering_def)

lemma overtaken:
  assumes "answering \<sigma>" "served key \<sigma> = None" "0 \<le> ttl (wd_cache \<sigma>)" "\<forall>fn \<in> set fns. admin_update fn"
    and "applied fns (wd_srv \<sigma>) = Some s1" "k \<le> length (queries p)"
    and "fst (ask (queries p) (wd_srv \<sigma>)) = Some vs" "fst (ask (queries p) s1) = Some vs'"
  obtains c where "run key p any_order (idle \<sigma>) c" "tf_reading c = []" "tf_flushing c = 0" "wd_srv (tf_world c) = s1"
    "\<And>d. 0 \<le> d \<Longrightarrow> d \<le> ttl (wd_cache \<sigma>) \<Longrightarrow>
       served key (sleep d (tf_world c)) = Some (build p (take k vs @ drop k vs'))"
proof -
  have a: "answering (\<sigma>\<lparr>wd_srv := s1\<rparr>)" "clock s1 = clock (wd_srv \<sigma>)"
    using applied_answers [OF assms(4,5,1)] by blast+
  note old = ask_part [OF assms(1,7)]
  note new = ask_part [OF a(1), simplified, OF assms(8)]
  let ?C = "if fns = [] then wd_cache \<sigma> else cache_flush (wd_cache \<sigma>)"
  let ?\<sigma> = "\<sigma>\<lparr>wd_srv := s1, wd_cache := ?C\<rparr>"
  let ?rs = "take k vs @ drop k vs'"
  let ?c1 = "idle \<sigma>\<lparr>tf_reading := [[]]\<rparr>" and ?c2 = "idle \<sigma>\<lparr>tf_reading := [take k vs]\<rparr>"
  let ?c3 = "?c2\<lparr>tf_world := ?\<sigma>\<rparr>" and ?c4 = "?c2\<lparr>tf_world := ?\<sigma>, tf_reading := [?rs]\<rparr>"
  let ?c5 = "?c4\<lparr>tf_world := put_cache key (build p ?rs) ?\<sigma>, tf_reading := []\<rparr>"
  have r1: "run key p any_order (idle \<sigma>) ?c1"
    using step.miss [of "idle \<sigma>" key p] assms(2)
    by (intro run_step [where G = any_order, OF run_refl _ any_order]) (simp add: idle_def served_def)
  have r2: "run key p any_order ?c1 ?c2"
    using run_queries [of p "[]" "take k (queries p)" "drop k (queries p)" "[]" \<sigma>, OF _ _ old(2), of ?c1 "[]" any_order key]
    by (simp add: idle_def any_order)
  have r3: "run key p any_order ?c2 ?c3"
    using run_updates [OF assms(4), of ?c2 s1 key p] assms(5) by (cases "fns = []") (simp_all add: idle_def)
  have r4: "run key p any_order ?c3 ?c4"
    using run_queries [of p "take k (queries p)" "drop k (queries p)" "[]" "take k vs" ?\<sigma> "drop k vs'" s1 ?c3 "[]" any_order key]
      new(3) old(1) by (cases "fns = []"; cases \<sigma>) (simp_all add: idle_def any_order)
  have "length ?rs = length (queries p)" using old(1) new(1) assms(6) by simp
  then have r5: "run key p any_order ?c4 ?c5"
    using step.store [of ?c4 "[]" ?rs "[]" p key]
    by (intro run_step [where G = any_order, OF run_refl _ any_order]) (simp add: idle_def)
  have "run key p any_order (idle \<sigma>) ?c5"
    by (rule run_trans [OF r5 run_trans [OF r4 run_trans [OF r3 run_trans [OF r2 r1]]]])
  moreover have "served key (sleep d (tf_world ?c5)) = Some (build p ?rs)" if "0 \<le> d" "d \<le> ttl (wd_cache \<sigma>)" for d
    using that a(2) by (simp add: served_held) (simp add: wd_now_def cache_flush_def sleep_def put_cache_def)
  ultimately show thesis by (intro that [of ?c5]) (simp_all add: put_cache_def idle_def)
qed

end

end
