(* ===== verification/InterleavingThms.thy ===== *)
theory InterleavingThms
  imports Interleaving
begin

text \<open>
  What the cache serves when requests overlap: the three cached reads of the program as instances of
  \<open>cached_read\<close>, the handlers as runs of the relation, and the properties.
\<close>

section \<open>The three reads of the program\<close>

interpretation content: cached_read "''content''" content_plan
proof
  fix q and s s' :: server
  assume q: "q \<in> set (queries content_plan)" and h: "healthy s" "healthy s'" "committed s' = committed s"
  note same = get_list_fine [OF h] get_row_fine [OF h]
  have "fst (GetSite s') = fst (GetSite s)" "fst (GetHeroSlides s') = fst (GetHeroSlides s)"
    "fst (GetStats s') = fst (GetStats s)" "fst (GetAbout s') = fst (GetAbout s)"
    "fst (GetServices s') = fst (GetServices s)" "fst (GetNews s') = fst (GetNews s)"
    "fst (GetPartners s') = fst (GetPartners s)" "fst (GetContact s') = fst (GetContact s)"
    unfolding get_defs by (simp_all add: same)
  with q h(1,2) show "q s' = (fst (q s), s')"
    by (auto simp: content_plan_def part_read_def svc_get_fine case_prod_beta)
qed

lemma map_plan_fine:
  assumes "\<And>s. healthy s \<Longrightarrow> get s = (fst (f s), s)"
    and "\<And>s s'. healthy s \<Longrightarrow> healthy s' \<Longrightarrow> committed s' = committed s \<Longrightarrow> f s' = (fst (f s), s')"
  shows "cached_read (map_plan get)"
proof
  fix q and s s' :: server
  assume q: "q \<in> set (queries (map_plan get))" and h: "healthy s" "healthy s'" "committed s' = committed s"
  have "fst (f s') = fst (f s)" using assms(2) [OF h] by simp
  with q show "q s' = (fst (q s), s')"
    by (auto simp: map_plan_def map_read_def assms(1) h split: prod.splits option.splits)
qed

interpretation languages: cached_read "''languages''" "map_plan Svc_GetLanguages"
  by (rule map_plan_fine) (fact svc_map_fine(1) get_languages_fine)+

interpretation panel: cached_read "''sidepanel''" "map_plan Svc_GetSidePanel"
  by (rule map_plan_fine) (fact svc_map_fine(2) get_panel_fine)+

lemma cached_reads_cases:
  assumes "(key, p) \<in> set cached_reads"
  shows "cached_read p"
  using assms content.cached_read_axioms languages.cached_read_axioms panel.cached_read_axioms
  by (auto simp: cached_reads_def)

section \<open>The handlers, run alone, are runs of the relation\<close>

lemma miss_alone:
  assumes "cache_get (wd_now \<sigma>) key (wd_cache \<sigma>) = None"
  shows "answer p (wd_srv \<sigma>) = (Some v, s1) \<Longrightarrow>
      run key p any_order (idle \<sigma>) (idle (put_cache key v (\<sigma>\<lparr>wd_srv := s1\<rparr>)))"
    "answer p (wd_srv \<sigma>) = (None, s1) \<Longrightarrow> run key p any_order (idle \<sigma>) (idle (\<sigma>\<lparr>wd_srv := s1\<rparr>))"
proof -
  let ?c1 = "idle \<sigma>\<lparr>tf_reading := [[]]\<rparr>"
  have "step key p (idle \<sigma>) Missed ?c1" using step.miss [of "idle \<sigma>" key p] assms by (simp add: idle_def)
  then have r1: "run key p any_order (idle \<sigma>) ?c1" by (rule run_step [where G = any_order, OF run_refl _ any_order])
  { assume "answer p (wd_srv \<sigma>) = (Some v, s1)"
    then obtain vs where vs: "ask (queries p) (wd_srv \<sigma>) = (Some vs, s1)" "v = build p vs"
      by (auto simp: answer_def split: prod.splits)
    have len: "length vs = length (queries p)" using ask_length [OF vs(1)] .
    let ?c2 = "?c1\<lparr>tf_world := \<sigma>\<lparr>wd_srv := s1\<rparr>, tf_reading := [vs]\<rparr>"
    have r2: "run key p any_order ?c1 ?c2"
      using run_queries [of p "[]" "queries p" "[]" "[]" \<sigma>, OF _ _ vs(1), of ?c1 "[]" any_order key]
      by (simp add: idle_def any_order)
    have "step key p ?c2 (Stored v) (idle (put_cache key v (\<sigma>\<lparr>wd_srv := s1\<rparr>)))"
      using step.store [of ?c2 "[]" vs "[]" p key] len vs(2) by (simp add: idle_def)
    then have "run key p any_order ?c2 (idle (put_cache key v (\<sigma>\<lparr>wd_srv := s1\<rparr>)))"
      by (rule run_step [where G = any_order, OF run_refl _ any_order])
    from run_trans [OF this run_trans [OF r2 r1]]
    show "run key p any_order (idle \<sigma>) (idle (put_cache key v (\<sigma>\<lparr>wd_srv := s1\<rparr>)))" . }
  { assume "answer p (wd_srv \<sigma>) = (None, s1)"
    then have "ask (queries p) (wd_srv \<sigma>) = (None, s1)" by (auto simp: answer_def split: prod.splits)
    from run_failed_queries [of p "[]" "queries p" "[]" \<sigma>, OF _ _ this, of ?c1 "[]" any_order key]
    have "run key p any_order ?c1 (idle (\<sigma>\<lparr>wd_srv := s1\<rparr>))" by (simp add: idle_def any_order)
    from run_trans [OF this r1] show "run key p any_order (idle \<sigma>) (idle (\<sigma>\<lparr>wd_srv := s1\<rparr>))" . }
qed

lemma public_read_alone:
  assumes "req_method r = ''GET''"
  shows "run ''content'' content_plan any_order (idle \<sigma>) (idle (snd (Content r w \<sigma>)))"
    "run ''languages'' (map_plan Svc_GetLanguages) any_order (idle \<sigma>) (idle (snd (Languages r w \<sigma>)))"
    "run ''sidepanel'' (map_plan Svc_GetSidePanel) any_order (idle \<sigma>) (idle (snd (SidePanel r w \<sigma>)))"
  by (auto simp: Content_def Languages_def SidePanel_def assms with_srv_def answer_content answer_map map_read_def
      intro: run_refl miss_alone split: option.splits prod.splits)

lemma admin_put_alone:
  assumes "admin_update fn"
  shows "run key p any_order (idle \<sigma>) (idle (snd (adminPUT fn r w \<sigma>)))"
proof (cases "req_method r = ''PUT''")
  case True
  obtain e \<sigma>1 where f: "with_srv fn \<sigma> = (e, \<sigma>1)" by (rule prod.exhaust)
  show ?thesis
  proof (cases e)
    case None
    let ?c = "idle \<sigma>\<lparr>tf_world := \<sigma>1, tf_flushing := Suc 0\<rparr>"
    have s1: "step key p (idle \<sigma>) Written ?c"
      using step.update [OF assms, of "idle \<sigma>" \<sigma>1] f None by (simp add: idle_def)
    have s2: "step key p ?c Flushed (idle (\<sigma>1\<lparr>wd_cache := cache_flush (wd_cache \<sigma>1)\<rparr>))"
      using step.flush [of ?c 0] by (simp add: idle_def)
    show ?thesis using run_step [OF run_step [OF run_refl s1 any_order] s2 any_order] True f None by (simp add: adminPUT_def)
  next
    case (Some err)
    have s1: "step key p (idle \<sigma>) Written (idle \<sigma>1)"
      using step.failed_update [OF assms, of "idle \<sigma>" err \<sigma>1] f Some by (simp add: idle_def)
    show ?thesis using run_step [OF run_refl s1 any_order] True f Some by (simp add: adminPUT_def)
  qed
qed (simp add: adminPUT_def run_refl)

section \<open>Properties\<close>


text \<open>
  C9. A read that updates overtake stores a mixture: the handlers query the tables one after the other, and
  any number of updates may write and flush after \<open>k\<close> of the queries. Then all requests have been answered,
  the updates with success, and for its whole time to live the cache serves a payload with the first \<open>k\<close>
  parts of before and the others of after the updates: the old content when \<open>k\<close> is the number of queries, and
  otherwise perhaps a content that never was in the database.
\<close>

theorem overtaken_read_serves_stale:
  assumes "(key, p) \<in> set cached_reads" "answering \<sigma>" "served key \<sigma> = None" "0 \<le> ttl (wd_cache \<sigma>)"
    and "\<forall>fn \<in> set fns. admin_update fn" "applied fns (wd_srv \<sigma>) = Some s1" "k \<le> length (queries p)"
    and "fst (ask (queries p) (wd_srv \<sigma>)) = Some vs" "fst (ask (queries p) s1) = Some vs'"
  shows "\<exists>c. run key p any_order (idle \<sigma>) c \<and> tf_reading c = [] \<and> tf_flushing c = 0 \<and> wd_srv (tf_world c) = s1 \<and>
    (\<forall>d. 0 \<le> d \<and> d \<le> ttl (wd_cache \<sigma>) \<longrightarrow>
       served key (sleep d (tf_world c)) = Some (build p (take k vs @ drop k vs')))"
  by (rule cached_read.overtaken [OF cached_reads_cases [OF assms(1)] assms(2-9)]) blast


section \<open>Instances\<close>

lemma read_and_store:
  assumes "answering \<sigma>" "entries (wd_cache \<sigma>) = (\<lambda>_. None)" "fst (answer content_plan (wd_srv \<sigma>)) = Some v"
    and "\<And>c e. tf_flushing c = 0 \<Longrightarrow> e \<noteq> Written \<Longrightarrow> G c e" "\<And>c. G c Queried"
  shows "run ''content'' content_plan G (idle \<sigma>) (idle (put_cache ''content'' v \<sigma>))"
proof -
  obtain vs where vs: "ask (queries content_plan) (wd_srv \<sigma>) = (Some vs, wd_srv \<sigma>)" "v = build content_plan vs"
    using assms(3) content.ask_results [OF assms(1)] by (auto simp: answer_def split: prod.splits)
  let ?c1 = "idle \<sigma>\<lparr>tf_reading := [[]]\<rparr>" and ?c2 = "idle \<sigma>\<lparr>tf_reading := [vs]\<rparr>"
  have s1: "step ''content'' content_plan (idle \<sigma>) Missed ?c1"
    using step.miss [of "idle \<sigma>" "''content''" content_plan] assms(2) by (simp add: idle_def cache_get_def)
  have g: "G (idle \<sigma>) Missed" "G ?c2 (Stored v)" by (simp_all add: assms(4) idle_def)
  have r1: "run ''content'' content_plan G (idle \<sigma>) ?c1" by (rule run_step [where G = G, OF run_refl s1 g(1)])
  have r2: "run ''content'' content_plan G ?c1 ?c2"
    using run_queries [of content_plan "[]" "queries content_plan" "[]" "[]" \<sigma>, OF _ _ vs(1), of ?c1 "[]" G "''content''"]
    by (simp add: idle_def assms(5))
  have "step ''content'' content_plan ?c2 (Stored v) (idle (put_cache ''content'' v \<sigma>))"
    using step.store [of ?c2 "[]" vs "[]" content_plan "''content''"] ask_length [OF vs(1)] vs(2) by (simp add: idle_def)
  from run_step [where G = G, OF run_trans [OF r2 r1] this g(2)] show ?thesis .
qed

lemma served_stored: "0 \<le> ttl (wd_cache \<sigma>) \<Longrightarrow> served k (put_cache k v \<sigma>) = Some v"
  by (simp add: served_def cache_get_def put_cache_def cache_set_def wd_now_def)

lemma empty_world_facts:
  "answering empty_world" "entries (wd_cache empty_world) = (\<lambda>_. None)" "ttl (wd_cache empty_world) = 30 * 10 ^ 9"
  "wd_srv empty_world = seeded_server"
  by (simp_all add: empty_world_def answering_def seeded_server_def cache_new_def)

lemma content_cached: "(''content'', content_plan) \<in> set cached_reads"
  by (simp add: cached_reads_def)

lemma content_answer: "fst (answer content_plan s) = Some (fst (read_content s))"
  by (simp add: answer_content case_prod_beta)



text \<open>
  The site and the contact are changed between the first and the second query: what is cached has the old
  site and the new contact.
\<close>

definition renamed :: Site where
  "renamed = \<lparr>site_companyName = ''Acme'', site_tagline = ''t''\<rparr>"

definition moved :: Contact where
  "moved = \<lparr>co_address = ''B'', co_phone = ''2'', co_email = ''f'', co_whatsapp = ''3''\<rparr>"

abbreviation site_and_contact :: "(server \<Rightarrow> goerr option \<times> server) list" where
  "site_and_contact \<equiv> [Svc_UpdateSite renamed, Svc_UpdateContact moved]"

lemma site_and_contact_run:
  "map_option committed (applied site_and_contact seeded_server) \<noteq> None"
  "(case applied site_and_contact seeded_server of None \<Rightarrow> None | Some s \<Rightarrow>
     Some (fst (fst (GetSite s)), fst (fst (GetContact s)))) = Some (renamed, moved)"
  "fst (fst (GetSite seeded_server)) = \<lparr>site_companyName = ''NexLog'', site_tagline = ''T''\<rparr>"
  by code_simp+

definition parts :: "server \<Rightarrow> json list" where
  "parts s =
     [json_Site (fst (fst (GetSite s))), JObj [(''slides'', json_of_slice json_HeroSlide (fst (fst (GetHeroSlides s))))],
      json_of_slice json_Stat (fst (fst (GetStats s))), json_About (fst (fst (GetAbout s))),
      json_of_slice json_Service (fst (fst (GetServices s))), json_of_slice json_NewsItem (fst (fst (GetNews s))),
      json_of_slice json_Partner (fst (fst (GetPartners s))), json_Contact (fst (fst (GetContact s)))]"

lemma ask_parts: "healthy s \<Longrightarrow> ask (queries content_plan) s = (Some (parts s), s)"
  by (simp add: content_plan_def part_read_def svc_get_fine parts_def case_prod_beta)

lemma member_build:
  "length vs = 8 \<Longrightarrow> member ''site'' (build content_plan vs) = Some (vs ! 0)"
  "length vs = 8 \<Longrightarrow> member ''contact'' (build content_plan vs) = Some (vs ! 7)"
  by (auto simp: member_def content_plan_def numeral_eq_Suc length_Suc_conv)

theorem overtaken_read_serves_stale_witness:
  "\<exists>c v. run ''content'' content_plan any_order (idle empty_world) c \<and> tf_reading c = [] \<and> tf_flushing c = 0 \<and>
     served ''content'' (sleep (30 * 10 ^ 9) (tf_world c)) = Some v \<and>
     member ''site'' v = Some (json_Site \<lparr>site_companyName = ''NexLog'', site_tagline = ''T''\<rparr>) \<and>
     member ''contact'' v = Some (json_Contact moved) \<and>
     fst (fst (GetSite (wd_srv (tf_world c)))) = renamed"
proof -
  let ?p = "queries content_plan"
  obtain s1 where a: "applied site_and_contact (wd_srv empty_world) = Some s1"
    using site_and_contact_run(1) by (auto simp: empty_world_facts(4))
  with site_and_contact_run(2) have s1: "fst (fst (GetSite s1)) = renamed" "fst (fst (GetContact s1)) = moved"
    by (simp_all add: empty_world_facts(4))
  have u: "\<forall>fn \<in> set site_and_contact. admin_update fn" by (simp add: admin_update.intros)
  have h: "healthy seeded_server" "healthy s1"
    using content.applied_answers [OF u a empty_world_facts(1)] answering_healthy [OF empty_world_facts(1)]
      answering_healthy [of "empty_world\<lparr>wd_srv := s1\<rparr>"] by (simp_all add: empty_world_facts(4))
  let ?vs = "parts seeded_server" and ?vs' = "parts s1"
  let ?v = "build content_plan (take 1 ?vs @ drop 1 ?vs')"
  have m: "served ''content'' empty_world = None" by (simp add: served_def cache_get_def empty_world_facts(2))
  have t: "0 \<le> ttl (wd_cache empty_world)" by (simp add: empty_world_facts(3))
  have k: "1 \<le> length ?p" by (simp add: content_plan_def)
  have vs: "fst (ask ?p (wd_srv empty_world)) = Some ?vs" "fst (ask ?p s1) = Some ?vs'"
    by (simp_all add: ask_parts h empty_world_facts(4))
  from overtaken_read_serves_stale [OF content_cached empty_world_facts(1) m t u a k vs]
  obtain c where c: "run ''content'' content_plan any_order (idle empty_world) c" "tf_reading c = []"
    "tf_flushing c = 0" "wd_srv (tf_world c) = s1"
    "\<forall>d. 0 \<le> d \<and> d \<le> ttl (wd_cache empty_world) \<longrightarrow> served ''content'' (sleep d (tf_world c)) = Some ?v" by blast
  from c(5) have "served ''content'' (sleep (30 * 10 ^ 9) (tf_world c)) = Some ?v" by (simp add: empty_world_facts(3))
  moreover have l: "length (take 1 ?vs @ drop 1 ?vs') = 8" by (simp add: parts_def)
  have "member ''site'' ?v = Some (json_Site \<lparr>site_companyName = ''NexLog'', site_tagline = ''T''\<rparr>)"
    using member_build(1) [OF l] site_and_contact_run(3) by (simp add: parts_def)
  moreover have "member ''contact'' ?v = Some (json_Contact moved)"
    using member_build(2) [OF l] s1(2) by (simp add: parts_def)
  moreover note c(1-3) s1(1) [folded c(4)]
  ultimately show ?thesis by blast
qed

end
