(* ===== verification/JsonEncode.thy ===== *)
theory JsonEncode
  imports Jwt Paths
begin

text \<open>
  The text that \<open>json.Encoder\<close> writes for a value (\<open>writeJSON\<close>), and that the decoder of \<open>readBody\<close> takes it
  back: reading what was written gives the value, for every value without numbers whose strings are valid
  UTF-8 and that is not nested deeper than the decoder allows.
\<close>

section \<open>Strings\<close>

definition hex_digit :: "nat \<Rightarrow> char" where
  "hex_digit n = ''0123456789abcdef'' ! n"

text \<open>A character below U+0080: quoted, as control characters and the characters of HTML are, or as it is.\<close>

definition esc_ascii :: "char \<Rightarrow> string" where
  "esc_ascii c =
     (let b = byte c in
      if c = CHR 0x22 \<or> c = CHR 0x5C then [CHR 0x5C, c]
      else if b = 0x08 then [CHR 0x5C, CHR ''b'']
      else if b = 0x0C then [CHR 0x5C, CHR ''f'']
      else if b = 0x0A then [CHR 0x5C, CHR ''n'']
      else if b = 0x0D then [CHR 0x5C, CHR ''r'']
      else if b = 0x09 then [CHR 0x5C, CHR ''t'']
      else if b < 0x20 \<or> c = CHR ''<'' \<or> c = CHR ''>'' \<or> c = CHR ''&''
      then [CHR 0x5C, CHR ''u'', CHR ''0'', CHR ''0'', hex_digit (b div 16), hex_digit (b mod 16)]
      else [c])"

text \<open>U+2028 and U+2029, which end lines in JavaScript, are escaped; a byte that is not UTF-8 stands as U+FFFD.\<close>

definition line_sep :: "string \<Rightarrow> bool" where
  "line_sep u \<longleftrightarrow> u = [CHR 0xE2, CHR 0x80, CHR 0xA8] \<or> u = [CHR 0xE2, CHR 0x80, CHR 0xA9]"

definition esc_rune :: "string \<Rightarrow> string" where
  "esc_rune u =
     (if line_sep u then CHR 0x5C # ''u202'' @ [hex_digit (byte (u ! 2) mod 16)] else u)"

function json_escape :: "string \<Rightarrow> string" where
  "json_escape [] = []"
| "json_escape (c # t) =
     (if byte c < 0x80 then esc_ascii c @ json_escape t
      else let n = rune_len (c # t) in
        if n = 0 then CHR 0x5C # ''ufffd'' @ json_escape t
        else esc_rune (take n (c # t)) @ json_escape (drop n (c # t)))"
  by pat_completeness auto
termination
  by (relation "measure length") simp_all

declare json_escape.simps(2) [simp del]

lemma rune_len_iff:
  "rune_len (c # s) = 2 \<longleftrightarrow> 0xC2 \<le> byte c \<and> byte c \<le> 0xDF \<and> cont_byte (c # s) 1 0x80 0xBF"
  "rune_len (c # s) = 3 \<longleftrightarrow> 0xE0 \<le> byte c \<and> byte c \<le> 0xEF \<and>
     cont_byte (c # s) 1 (if byte c = 0xE0 then 0xA0 else 0x80) (if byte c = 0xED then 0x9F else 0xBF) \<and>
     cont_byte (c # s) 2 0x80 0xBF"
  "rune_len (c # s) = 4 \<longleftrightarrow> 0xF0 \<le> byte c \<and> byte c \<le> 0xF4 \<and>
     cont_byte (c # s) 1 (if byte c = 0xF0 then 0x90 else 0x80) (if byte c = 0xF4 then 0x8F else 0xBF) \<and>
     cont_byte (c # s) 2 0x80 0xBF \<and> cont_byte (c # s) 3 0x80 0xBF"
  by (auto simp: rune_len_def Let_def)

lemma rune_len_range: "rune_len s \<in> {0, 1, 2, 3, 4}"
  by (simp add: rune_len_def Let_def)

lemma rune_len_le: "rune_len s \<le> length s"
  by (simp add: rune_len_def cont_byte_def Let_def Suc_le_eq)

lemma cont_byte_take:
  "i < n \<Longrightarrow> n \<le> length s \<Longrightarrow> cont_byte (take n s @ t) i lo hi = cont_byte s i lo hi"
  by (auto simp: cont_byte_def nth_append)

lemma rune_len_take:
  assumes "0x80 \<le> byte c" "rune_len (c # s) = n" "0 < n"
  shows "rune_len (take n (c # s) @ t) = n"
proof -
  have l: "n \<le> length (c # s)" using rune_len_le [of "c # s"] assms(2) by simp
  have k: "cont_byte (take n (c # s) @ t) i lo hi = cont_byte (c # s) i lo hi" if "i < n" for i lo hi
    using that l by (rule cont_byte_take)
  have h: "take n (c # s) @ t = c # take (n - 1) s @ t" using assms(3) by (cases n) simp_all
  have "n \<noteq> 1" using assms(1,2) by (auto simp: rune_len_def Let_def split: if_splits)
  then consider "n = 2" | "n = 3" | "n = 4" using rune_len_range [of "c # s"] assms(2,3) by auto
  then show ?thesis
  proof cases
    case 1
    with assms(2) k [of 1] show ?thesis unfolding h by (simp add: rune_len_iff)
  next
    case 2
    with assms(2) k [of 1] k [of 2] show ?thesis unfolding h by (simp add: rune_len_iff)
  next
    case 3
    with assms(2) k [of 1] k [of 2] k [of 3] show ?thesis unfolding h by (simp add: rune_len_iff)
  qed
qed

lemma hex_val_digit: "d < 16 \<Longrightarrow> hex_val (hex_digit d) = Some d"
proof -
  have "list_all (\<lambda>d. hex_val (hex_digit d) = Some d) [0..<16]" by code_simp
  then show "d < 16 \<Longrightarrow> hex_val (hex_digit d) = Some d" by (simp add: list_all_iff del: upt_rec_numeral)
qed

lemma byte_char: "byte c = n \<Longrightarrow> c = char_of n"
  by (auto simp: byte_def)

lemma scan_escape: "unescape t = Some (u, r) \<Longrightarrow> scan_string (CHR 0x5C # t) = cons_str u (scan_string r)"
  by (subst scan_string.simps) simp

lemma scan_plain:
  "byte c < 0x80 \<Longrightarrow> 0x20 \<le> byte c \<Longrightarrow> c \<noteq> CHR 0x22 \<Longrightarrow> c \<noteq> CHR 0x5C \<Longrightarrow>
     scan_string (c # r) = cons_str [c] (scan_string r)"
  by (subst scan_string.simps) (simp add: rune_len_ascii)

lemma scan_hex:
  assumes "byte c < 0x80"
  shows "unescape (CHR ''u'' # CHR ''0'' # CHR ''0'' # hex_digit (byte c div 16) # hex_digit (byte c mod 16) # r) =
    Some ([c], r)"
proof -
  have z: "hex_val (CHR ''0'') = Some 0" by code_simp
  have "hex4 (CHR ''0'' # CHR ''0'' # hex_digit (byte c div 16) # hex_digit (byte c mod 16) # r) = Some (byte c)"
    using assms by (simp add: hex4_def z hex_val_digit)
  with assms show ?thesis by (simp add: unescape_def utf8_char_def) (simp add: byte_def)
qed

lemma scan_esc_ascii:
  assumes "byte c < 0x80"
  shows "scan_string (esc_ascii c @ r) = cons_str [c] (scan_string r)"
proof -
  consider (quote) "c = CHR 0x22 \<or> c = CHR 0x5C"
    | (short) "byte c \<in> {0x08, 0x0C, 0x0A, 0x0D, 0x09}"
    | (hex) "esc_ascii c = [CHR 0x5C, CHR ''u'', CHR ''0'', CHR ''0'', hex_digit (byte c div 16), hex_digit (byte c mod 16)]"
    | (plain) "esc_ascii c = [c]" "0x20 \<le> byte c" "c \<noteq> CHR 0x22" "c \<noteq> CHR 0x5C"
  proof (cases "c = CHR 0x22 \<or> c = CHR 0x5C")
    case False
    note q = this
    show thesis
    proof (cases "byte c \<in> {0x08, 0x0C, 0x0A, 0x0D, 0x09}")
      case False
      with q show thesis
        by (cases "byte c < 0x20 \<or> c = CHR ''<'' \<or> c = CHR ''>'' \<or> c = CHR ''&''")
          (auto simp: esc_ascii_def Let_def intro: hex plain)
    qed (rule short)
  qed (rule quote)
  then show ?thesis
  proof cases
    case quote
    then show ?thesis by (auto simp: esc_ascii_def scan_escape unescape_def)
  next
    case short
    then have "c \<in> {CHR 0x08, CHR 0x0C, CHR 0x0A, CHR 0x0D, CHR 0x09}"
      by (auto dest!: byte_char simp: char_of_def bit_Suc_0_iff)
    then show ?thesis by (auto simp: esc_ascii_def byte_def scan_escape unescape_def)
  next
    case hex
    then show ?thesis using scan_escape [OF scan_hex [OF assms]] by simp
  next
    case plain
    then show ?thesis using scan_plain [OF assms plain(2-4)] by simp
  qed
qed

lemma scan_rune:
  assumes "0x80 \<le> byte c" "rune_len (c # s) = n" "0 < n"
  shows "scan_string (esc_rune (take n (c # s)) @ r) = cons_str (take n (c # s)) (scan_string r)"
proof (cases "line_sep (take n (c # s))")
  case True
  have h: "hex_val (CHR ''2'') = Some 2" "hex_val (CHR ''0'') = Some 0" by code_simp+
  have u: "utf8_char 0x2028 = [CHR 0xE2, CHR 0x80, CHR 0xA8]" "utf8_char 0x2029 = [CHR 0xE2, CHR 0x80, CHR 0xA9]"
    by (simp_all add: utf8_char_def char_of_def bit_Suc_0_iff)
  have d: "hex_digit 8 = CHR ''8''" "hex_digit 9 = CHR ''9''" "hex_val (CHR ''8'') = Some 8" "hex_val (CHR ''9'') = Some 9"
    by code_simp+
  have b: "byte (CHR 0xA8) mod 16 = 8" "byte (CHR 0xA9) mod 16 = 9" by (simp_all add: byte_def)
  have e: "unescape (CHR ''u'' # CHR ''2'' # CHR ''0'' # CHR ''2'' # x # r) = Some (utf8_char (0x2020 + v), r)"
    if "hex_val x = Some v" "v < 16" for x v
  proof -
    have "hex4 (CHR ''2'' # CHR ''0'' # CHR ''2'' # x # r) = Some (0x2020 + v)"
      using that h by (simp add: hex4_def)
    then show ?thesis using that(2) by (simp add: unescape_def)
  qed
  have e8: "unescape (CHR ''u'' # CHR ''2'' # CHR ''0'' # CHR ''2'' # CHR ''8'' # r) =
      Some ([CHR 0xE2, CHR 0x80, CHR 0xA8], r)" using e [OF d(3)] u(1) by simp
  have e9: "unescape (CHR ''u'' # CHR ''2'' # CHR ''0'' # CHR ''2'' # CHR ''9'' # r) =
      Some ([CHR 0xE2, CHR 0x80, CHR 0xA9], r)" using e [OF d(4)] u(2) by simp
  consider "take n (c # s) = [CHR 0xE2, CHR 0x80, CHR 0xA8]" | "take n (c # s) = [CHR 0xE2, CHR 0x80, CHR 0xA9]"
    using True unfolding line_sep_def by blast
  then show ?thesis
  proof cases
    case 1
    show ?thesis unfolding 1 using scan_escape [OF e8] by (simp add: esc_rune_def line_sep_def b d)
  next
    case 2
    show ?thesis unfolding 2 using scan_escape [OF e9] by (simp add: esc_rune_def line_sep_def b d)
  qed
next
  case False
  have ne: "take n (c # s) @ r = c # take (n - 1) s @ r" using assms(3) by (cases n) simp_all
  have r: "rune_len (c # take (n - 1) s @ r) = n" using rune_len_take [OF assms, of r] unfolding ne .
  have l: "n \<le> length (c # s)" using rune_len_le [of "c # s"] assms(2) by simp
  have c: "c \<noteq> CHR 0x22" "c \<noteq> CHR 0x5C" using assms(1) by (auto simp: byte_def)
  have "scan_string (take n (c # s) @ r) = cons_str (take n (take n (c # s) @ r)) (scan_string (drop n (take n (c # s) @ r)))"
    using assms(1,3) r c unfolding ne by (subst scan_string.simps) simp
  with False l show ?thesis by (simp add: esc_rune_def)
qed

lemma scan_json_escape: "valid_utf8 s \<Longrightarrow> scan_string (json_escape s @ CHR 0x22 # r) = Some (s, r)"
proof (induction s rule: json_escape.induct)
  case 1
  show ?case by (simp add: scan_string.simps)
next
  case (2 c t)
  show ?case
  proof (cases "byte c < 0x80")
    case True
    with 2 have "valid_utf8 t" by (simp add: valid_utf8.simps rune_len_ascii)
    with 2 True show ?thesis by (simp add: json_escape.simps scan_esc_ascii cons_str_def)
  next
    case False
    let ?n = "rune_len (c # t)"
    have n: "0 < ?n" and v: "valid_utf8 (drop ?n (c # t))"
      using "2.prems" by (simp_all add: valid_utf8.simps Let_def split: if_splits)
    from "2.IH"(3) [OF False refl _ v] n have
      ih: "scan_string (json_escape (drop ?n (c # t)) @ CHR 0x22 # r) = Some (drop ?n (c # t), r)" by simp
    have e: "json_escape (c # t) = esc_rune (take ?n (c # t)) @ json_escape (drop ?n (c # t))"
      using False n by (simp add: json_escape.simps Let_def)
    show ?thesis
      using scan_rune [OF _ refl n, of "json_escape (drop ?n (c # t)) @ CHR 0x22 # r"] False ih
      unfolding e append_assoc by (simp add: cons_str_def)
  qed
qed

section \<open>Values\<close>

text \<open>
  The members of an object are written in their order: the fields of a struct (a map of Go is written by
  sorted keys). \<open>num\<close> writes a number.
\<close>

definition string_text :: "string \<Rightarrow> string" where
  "string_text s = quoted (json_escape s)"

fun json_text :: "(rat \<Rightarrow> string) \<Rightarrow> json \<Rightarrow> string" where
  "json_text num JNull = ''null''"
| "json_text num (JBool b) = (if b then ''true'' else ''false'')"
| "json_text num (JNum q) = num q"
| "json_text num (JStr s) = string_text s"
| "json_text num (JArr js) = CHR ''['' # join_with CHR '','' (map (json_text num) js) @ '']''"
| "json_text num (JObj kvs) =
     CHR ''{'' # join_with CHR '','' (map (\<lambda>(k, v). string_text k @ CHR '':'' # json_text num v) kvs) @ ''}''"

text \<open>No numbers, valid strings, at most \<open>n\<close> levels of arrays and objects.\<close>

fun texts :: "nat \<Rightarrow> json \<Rightarrow> bool" where
  "texts n (JNum q) = False"
| "texts n (JStr s) = valid_utf8 s"
| "texts n (JArr js) = (0 < n \<and> list_all (texts (n - 1)) js)"
| "texts n (JObj kvs) = (0 < n \<and> list_all (\<lambda>(k, v). valid_utf8 k \<and> texts (n - 1) v) kvs)"
| "texts n j = True"

lemma scan_token_string: "valid_utf8 s \<Longrightarrow> scan_token (string_text s @ r) = Some (TLit (JStr s), r)"
  by (simp add: string_text_def quoted_def scan_token_def is_ws_def scan_json_escape)

lemma scan_token_more:
  "scan_token (CHR ''['' # r) = Some (TLBrack, r)" "scan_token (CHR '']'' # r) = Some (TRBrack, r)"
  "scan_token (''null'' @ r) = Some (TLit JNull, r)" "scan_token (''false'' @ r) = Some (TLit (JBool False), r)"
  by (simp_all add: scan_token_def is_ws_def scan_word_def has_prefix_def)

lemma step_literal:
  "scan_token s = Some (TLit v, r) \<Longrightarrow> st = EValue \<or> st = EValueOrEnd \<Longrightarrow>
     parse_loop fs st s = parse_loop fs (EDone v) r"
  by (rule parse_loop_step) (auto simp: parse_step_def begin_value_def)

text \<open>What is to be shown of a value, and then of the elements and the members after the first.\<close>

definition reads_back :: "(rat \<Rightarrow> string) \<Rightarrow> nat \<Rightarrow> json \<Rightarrow> bool" where
  "reads_back num n j \<longleftrightarrow>
     (\<forall>fs st r. length fs + n \<le> 10000 \<longrightarrow> st = EValue \<or> st = EValueOrEnd \<longrightarrow>
        parse_loop fs st (json_text num j @ r) = parse_loop fs (EDone j) r)"

lemma reads_backD:
  "reads_back num n j \<Longrightarrow> length fs + n \<le> 10000 \<Longrightarrow> st = EValue \<or> st = EValueOrEnd \<Longrightarrow>
     parse_loop fs st (json_text num j @ r) = parse_loop fs (EDone j) r"
  unfolding reads_back_def by blast

lemma parse_elements:
  assumes "length fs + n < 10000"
  shows "list_all (reads_back num n) (j # js) \<Longrightarrow> st = EValue \<or> st = EValueOrEnd \<Longrightarrow>
    parse_loop (FArr vs # fs) st (join_with CHR '','' (map (json_text num) (j # js)) @ CHR '']'' # r) =
    parse_loop fs (EDone (JArr (rev vs @ j # js))) r"
proof (induction js arbitrary: j vs st)
  case Nil
  have "parse_loop (FArr vs # fs) st (json_text num j @ CHR '']'' # r) = parse_loop (FArr vs # fs) (EDone j) (CHR '']'' # r)"
    by (rule reads_backD) (use Nil assms in auto)
  also have "\<dots> = parse_loop fs (EDone (JArr (rev vs @ [j]))) r"
    by (rule parse_loop_step [where tk = TRBrack]) (simp_all add: scan_token_more parse_step_def after_value_def)
  finally show ?case by simp
next
  case (Cons i js)
  let ?t = "join_with CHR '','' (map (json_text num) (i # js)) @ CHR '']'' # r"
  have "parse_loop (FArr vs # fs) st (json_text num j @ CHR '','' # ?t) = parse_loop (FArr vs # fs) (EDone j) (CHR '','' # ?t)"
    by (rule reads_backD) (use Cons.prems assms in auto)
  also have "\<dots> = parse_loop (FArr (j # vs) # fs) EValue ?t"
    by (rule parse_loop_step [where tk = TComma]) (simp_all add: scan_token_punct parse_step_def after_value_def)
  also have "\<dots> = parse_loop fs (EDone (JArr (rev (j # vs) @ i # js))) r"
    by (rule Cons.IH) (use Cons.prems in auto)
  finally show ?case by simp
qed

lemma parse_key_value:
  assumes "valid_utf8 k" "reads_back num n v" "length fs + n < 10000" "st = EKey \<or> st = EKeyOrEnd"
  shows "parse_loop (FObj kvs # fs) st (string_text k @ CHR '':'' # json_text num v @ r) =
    parse_loop (FMem kvs k # fs) (EDone v) r"
proof -
  have "parse_loop (FObj kvs # fs) st (string_text k @ CHR '':'' # json_text num v @ r) =
      parse_loop (FObj kvs # fs) (EColon k) (CHR '':'' # json_text num v @ r)"
    using assms(4) by (intro parse_loop_step [OF scan_token_string [OF assms(1)]])
      (auto simp: parse_step_def begin_key_def)
  also have "\<dots> = parse_loop (FMem kvs k # fs) EValue (json_text num v @ r)"
    by (rule parse_loop_step [where tk = TColon]) (simp_all add: scan_token_punct parse_step_def)
  also have "\<dots> = parse_loop (FMem kvs k # fs) (EDone v) r"
    by (rule reads_backD [OF assms(2)]) (use assms(3) in simp_all)
  finally show ?thesis .
qed

abbreviation member_text :: "(rat \<Rightarrow> string) \<Rightarrow> string \<times> json \<Rightarrow> string" where
  "member_text num \<equiv> (\<lambda>(k, v). string_text k @ CHR '':'' # json_text num v)"

lemma parse_members:
  assumes "length fs + n < 10000"
  shows "list_all (\<lambda>(k, v). valid_utf8 k \<and> reads_back num n v) (m # ms) \<Longrightarrow> st = EKey \<or> st = EKeyOrEnd \<Longrightarrow>
    parse_loop (FObj kvs # fs) st (join_with CHR '','' (map (member_text num) (m # ms)) @ CHR ''}'' # r) =
    parse_loop fs (EDone (JObj (rev kvs @ m # ms))) r"
proof (induction ms arbitrary: m kvs st)
  case Nil
  obtain k v where m: "m = (k, v)" by (rule prod.exhaust)
  with Nil parse_key_value [of k num n v fs st kvs "CHR ''}'' # r"] assms show ?case
    by (simp add: parse_close)
next
  case (Cons m' ms)
  obtain k v where m: "m = (k, v)" by (rule prod.exhaust)
  let ?t = "join_with CHR '','' (map (member_text num) (m' # ms)) @ CHR ''}'' # r"
  have "parse_loop (FObj kvs # fs) st (string_text k @ CHR '':'' # json_text num v @ '','' @ ?t) =
      parse_loop (FMem kvs k # fs) (EDone v) ('','' @ ?t)"
    by (rule parse_key_value) (use Cons.prems assms m in auto)
  also have "\<dots> = parse_loop (FObj ((k, v) # kvs) # fs) EKey ?t"
    by (rule parse_comma)
  also have "\<dots> = parse_loop fs (EDone (JObj (rev ((k, v) # kvs) @ m' # ms))) r"
    by (rule Cons.IH) (use Cons.prems in auto)
  finally show ?case by (simp add: m)
qed

lemma text_reads_back: "texts n j \<Longrightarrow> reads_back num n j"
proof (induction j arbitrary: n)
  case JNull
  show ?case unfolding reads_back_def by (auto intro!: step_literal simp: scan_token_more [simplified])
next
  case (JBool b)
  show ?case unfolding reads_back_def
    by (cases b) (auto intro!: step_literal simp: scan_token_more [simplified] scan_token_punct [simplified])
next
  case (JStr s)
  then show ?case unfolding reads_back_def by (auto intro!: step_literal simp: scan_token_string)
next
  case (JArr js)
  show ?case unfolding reads_back_def
  proof (intro allI impI)
    fix fs :: "frame list" and st r
    assume l: "length fs + n \<le> 10000" and st: "st = EValue \<or> st = EValueOrEnd"
    have n: "0 < n" "list_all (reads_back num (n - 1)) js" using JArr by (auto simp: list_all_iff)
    have "parse_loop fs st (CHR ''['' # t) = parse_loop (FArr [] # fs) EValueOrEnd t" for t
      using st l n by (intro parse_loop_step [where tk = TLBrack])
        (auto simp: scan_token_more parse_step_def begin_value_def)
    moreover have "parse_loop (FArr [] # fs) EValueOrEnd (join_with CHR '','' (map (json_text num) js) @ CHR '']'' # r) =
        parse_loop fs (EDone (JArr js)) r"
    proof (cases js)
      case Nil
      have "parse_loop (FArr [] # fs) EValueOrEnd (CHR '']'' # r) = parse_loop fs (EDone (JArr [])) r"
        by (rule parse_loop_step [where tk = TRBrack]) (simp_all add: scan_token_more parse_step_def)
      with Nil show ?thesis by (simp add: join_with_def)
    next
      case (Cons i rest)
      have "length fs + (n - 1) < 10000" using l n(1) by simp
      from parse_elements [OF this, of num i rest EValueOrEnd "[]" r] n(2) Cons show ?thesis by simp
    qed
    ultimately show "parse_loop fs st (json_text num (JArr js) @ r) = parse_loop fs (EDone (JArr js)) r" by simp
  qed
next
  case (JObj kvs)
  show ?case unfolding reads_back_def
  proof (intro allI impI)
    fix fs :: "frame list" and st r
    assume l: "length fs + n \<le> 10000" and st: "st = EValue \<or> st = EValueOrEnd"
    have n: "0 < n" "list_all (\<lambda>(k, v). valid_utf8 k \<and> reads_back num (n - 1) v) kvs"
      using JObj by (fastforce simp: list_all_iff)+
    have "parse_loop fs st (CHR ''{'' # t) = parse_loop (FObj [] # fs) EKeyOrEnd t" for t
      using st l n by (intro parse_loop_step [where tk = TLBrace])
        (auto simp: scan_token_punct parse_step_def begin_value_def)
    moreover have "parse_loop (FObj [] # fs) EKeyOrEnd (join_with CHR '','' (map (member_text num) kvs) @ CHR ''}'' # r) =
        parse_loop fs (EDone (JObj kvs)) r"
    proof (cases kvs)
      case Nil
      have "parse_loop (FObj [] # fs) EKeyOrEnd (CHR ''}'' # r) = parse_loop fs (EDone (JObj [])) r"
        by (rule parse_loop_step [where tk = TRBrace]) (simp_all add: scan_token_punct parse_step_def)
      with Nil show ?thesis by (simp add: join_with_def)
    next
      case (Cons m ms)
      have "length fs + (n - 1) < 10000" using l n(1) by simp
      from parse_members [OF this, of num m ms EKeyOrEnd "[]" r] n(2) Cons show ?thesis by simp
    qed
    ultimately show "parse_loop fs st (json_text num (JObj kvs) @ r) = parse_loop fs (EDone (JObj kvs)) r" by simp
  qed
qed simp

lemma json_first_text: "texts 10000 j \<Longrightarrow> json_first (json_text num j @ r) = Some j"
  using reads_backD [OF text_reads_back, of 10000 j "[]" EValue num r]
  by (simp add: json_first_def parse_loop_done)

end
