(* ===== verification/CodecThms.thy ===== *)
theory CodecThms
  imports ContentThms JsonEncode
begin

text \<open>
  The JSON tags of the models agree in both directions: what the server writes for a part of the content is
  what the admin handler of that part reads from it, whatever the value held before.
\<close>

lemmas codec_defs = decode_struct_def find_field_def string_field_def decode_string_def Let_def

lemma decodes_back:
  "decode_struct fields_Site (json_Site v1) z1 = (v1, False)"
  "decode_struct fields_HeroSlide (json_HeroSlide v2) z2 = (v2, False)"
  "decode_struct fields_Stat (json_Stat v3) z3 = (v3, False)"
  "decode_struct fields_About (json_About v4) z4 = (v4, False)"
  "decode_struct fields_Service (json_Service v5) z5 = (v5, False)"
  "decode_struct fields_NewsItem (json_NewsItem v6) z6 = (v6, False)"
  "decode_struct fields_Partner (json_Partner v7) z7 = (v7, False)"
  "decode_struct fields_Contact (json_Contact v8) z8 = (v8, False)"
  by (simp_all add: codec_defs fields_Site_def json_Site_def fields_HeroSlide_def json_HeroSlide_def
      fields_Stat_def json_Stat_def fields_About_def json_About_def fields_Service_def json_Service_def
      fields_NewsItem_def json_NewsItem_def fields_Partner_def json_Partner_def fields_Contact_def json_Contact_def)

lemma elements_decode_back:
  "(\<And>v z. dec (enc v) z = (v, False)) \<Longrightarrow> decode_elems dec zero old (map enc vs) = (vs, False)"
  by (induction vs arbitrary: old) simp_all

lemma list_decodes_back:
  "(\<And>v z. dec (enc v) z = (v, False)) \<Longrightarrow> decode_slice dec zero (JArr (map enc vs)) old = (Some vs, False)"
  by (simp add: decode_slice_def elements_decode_back)

lemma slides_decode_back:
  "decode_slides (JObj [(''slides'', JArr (map json_HeroSlide vs))]) old = (Some vs, False)"
  by (simp add: decode_slides_def codec_defs list_decodes_back [OF decodes_back(2)])

end
