(* ===== verification/MapThms.thy ===== *)
theory MapThms
  imports ContentThms RepoLanguages
begin

text \<open>
  The languages and the side panel, which are maps of Go and have a route and a cache entry of their own: what
  an update stores is what the next read shows, the languages in their normal form.
\<close>

section \<open>What a read shows\<close>

definition shows_that :: "'l world handler \<Rightarrow> (json \<Rightarrow> bool) \<Rightarrow> 'l world \<Rightarrow> bool" where
  "shows_that g Q \<sigma> \<longleftrightarrow>
     (\<forall>r. req_method r = ''GET'' \<longrightarrow>
        w_status (fst (g r new_writer \<sigma>)) = Some 200 \<and>
        (\<exists>v. w_out (fst (g r new_writer \<sigma>)) = [JsonOut v] \<and> Q v))"

lemma content_shows_that: "content_shows k j = shows_that Content (\<lambda>v. member k v = Some j)"
  by (rule ext) (simp add: content_shows_def shows_that_def)

lemma shows_limiter:
  "shows_that Content Q (\<sigma>\<lparr>wd_limiter := rl\<rparr>) = shows_that Content Q \<sigma>"
  "shows_that Languages Q (\<sigma>\<lparr>wd_limiter := rl\<rparr>) = shows_that Languages Q \<sigma>"
  "shows_that SidePanel Q (\<sigma>\<lparr>wd_limiter := rl\<rparr>) = shows_that SidePanel Q \<sigma>"
proof -
  have now: "wd_now (\<sigma>\<lparr>wd_limiter := rl\<rparr>) = wd_now \<sigma>" by (simp add: wd_now_def)
  show "shows_that Content Q (\<sigma>\<lparr>wd_limiter := rl\<rparr>) = shows_that Content Q \<sigma>"
    unfolding shows_that_def Content_def with_srv_def now by (simp add: Let_def case_prod_beta split: option.split)
  show "shows_that Languages Q (\<sigma>\<lparr>wd_limiter := rl\<rparr>) = shows_that Languages Q \<sigma>"
    unfolding shows_that_def Languages_def with_srv_def now by (simp add: case_prod_beta split: option.split)
  show "shows_that SidePanel Q (\<sigma>\<lparr>wd_limiter := rl\<rparr>) = shows_that SidePanel Q \<sigma>"
    unfolding shows_that_def SidePanel_def with_srv_def now by (simp add: case_prod_beta split: option.split)
qed

section \<open>The reads after an update\<close>

lemma body_map_decoded: "body_value decode_map r None = Some m \<Longrightarrow> decoded m"
  by (auto simp: body_value_def readBody_def split: option.splits)
    (metis decode_map_decoded prod.collapse)

lemma body_languages_decoded: "decoded (elems (body_value decode_map r None))"
  using body_map_decoded [of r] by (cases "body_value decode_map r None") (simp_all add: decoded_def wf_gomap_def)

lemma languages_stored:
  assumes "healthy s" "Svc_UpdateLanguages ms s = (None, s1)"
  shows "committed s1 ''languages'' = Some (lang_rows (elems ms))"
  using assms(2) unfolding svc_update_defs
  by (rule with_timeout_run [OF _ assms(1) dbTimeout_nonneg])
    (auto simp: UpdateLanguages_run dest!: run_ignoring_ok exec_languages)

lemma GetSidePanel_row:
  assumes "get_row ''sidepanel'' [''config''] scan_json zero s = ((j, None), s)"
  shows "GetSidePanel s = ((fst (decode_map j None), None), s)"
  using assms
  by (auto simp: GetSidePanel_def get_row_def scan_json_def split: prod.splits sum.splits option.splits
      list.splits sqlval.splits)

lemma decode_shown: "(\<And>m. cfg = Some m \<Longrightarrow> decoded m) \<Longrightarrow> fst (decode_map (json_of_map cfg) None) = cfg"
  by (cases cfg) (simp_all add: json_of_map_def decode_decoded, simp add: decode_map_def)

lemma panel_read:
  assumes "healthy s" "db_wf (committed s)" "committed s ''sidepanel'' \<noteq> Some []" "healthy s1"
    and "Svc_UpdateSidePanel cfg s = (None, s1)" "\<And>m. cfg = Some m \<Longrightarrow> decoded m"
  shows "GetSidePanel s1 = ((cfg, None), s1)"
proof -
  have "get_row ''sidepanel'' [''config''] scan_json JNull s1 = ((json_of_map cfg, None), s1)"
    using panel_row.timed_update_read [OF assms(1-3) _ assms(4)] assms(5)
    by (simp add: svc_update_defs UpdateSidePanel_def)
  from GetSidePanel_row [OF this] decode_shown [of cfg] assms(6) show ?thesis by simp
qed

section \<open>The handlers\<close>

lemma maps_shown:
  assumes "healthy (wd_srv \<sigma>)"
  shows "w_status (fst (AdminLanguages r new_writer \<sigma>)) = Some 200 \<Longrightarrow>
      shows_that Languages (\<lambda>v. v = JObj (lang_view (elems (body_value decode_map r None))))
        (snd (AdminLanguages r new_writer \<sigma>))"
    "db_wf (committed (wd_srv \<sigma>)) \<Longrightarrow> committed (wd_srv \<sigma>) ''sidepanel'' \<noteq> Some [] \<Longrightarrow>
      w_status (fst (AdminSidePanel r new_writer \<sigma>)) = Some 200 \<Longrightarrow>
      shows_that SidePanel (\<lambda>v. v = json_of_map (body_value decode_map r None))
        (snd (AdminSidePanel r new_writer \<sigma>))"
proof -
  let ?cfg = "body_value decode_map r None"
  have healthy: "healthy s1" if "only_tables f" "f (wd_srv \<sigma>) = (e, s1)" for f :: "server \<Rightarrow> goerr option \<times> server" and e s1
    using that assms unfolding only_tables_def by (metis healthy_committed snd_conv)
  show "shows_that Languages (\<lambda>v. v = JObj (lang_view (elems ?cfg))) (snd (AdminLanguages r new_writer \<sigma>))"
    if ok: "w_status (fst (AdminLanguages r new_writer \<sigma>)) = Some 200"
  proof -
    obtain w1 \<sigma>1 where p: "AdminLanguages r new_writer \<sigma> = (w1, \<sigma>1)" by (rule prod.exhaust)
    with ok obtain s1 where f: "Svc_UpdateLanguages ?cfg (wd_srv \<sigma>) = (None, s1)"
      and w: "\<sigma>1 = \<sigma>\<lparr>wd_srv := s1, wd_cache := cache_flush (wd_cache \<sigma>)\<rparr>"
      by (auto simp: AdminLanguages_def elim: adminPUT_ok)
    note h = healthy [OF only_tables_svc(9) f]
    have "Svc_GetLanguages s1 = ((Some (lang_view (elems ?cfg)), None), s1)"
      using svc_map_fine(1) [OF h] GetLanguages_fine [OF h body_languages_decoded languages_stored [OF assms f]] by simp
    then show ?thesis
      by (simp add: p w shows_that_def Languages_def get_flushed with_srv_def json_of_map_def writeJSON_new)
  qed
  show "shows_that SidePanel (\<lambda>v. v = json_of_map ?cfg) (snd (AdminSidePanel r new_writer \<sigma>))"
    if wf: "db_wf (committed (wd_srv \<sigma>))" and row: "committed (wd_srv \<sigma>) ''sidepanel'' \<noteq> Some []"
      and ok: "w_status (fst (AdminSidePanel r new_writer \<sigma>)) = Some 200"
  proof -
    obtain w1 \<sigma>1 where p: "AdminSidePanel r new_writer \<sigma> = (w1, \<sigma>1)" by (rule prod.exhaust)
    with ok obtain s1 where f: "Svc_UpdateSidePanel ?cfg (wd_srv \<sigma>) = (None, s1)"
      and w: "\<sigma>1 = \<sigma>\<lparr>wd_srv := s1, wd_cache := cache_flush (wd_cache \<sigma>)\<rparr>"
      by (auto simp: AdminSidePanel_def elim: adminPUT_ok)
    note h = healthy [OF only_tables_svc(10) f]
    have "Svc_GetSidePanel s1 = ((?cfg, None), s1)"
      using svc_map_fine(2) [OF h] panel_read [OF assms wf row h f body_map_decoded] by simp
    then show ?thesis
      by (simp add: p w shows_that_def SidePanel_def get_flushed with_srv_def writeJSON_new)
  qed
qed

end
