(* ===== verification/WholeServer.thy ===== *)
theory WholeServer
  imports LimitThms MapThms
begin

text \<open>
  Requests through the whole server: what a handler of the API answers comes out of the limiter, the
  CORS and security headers, the compression, the router and the token check as it is (\<open>server_run\<close>), and what
  an update left is what the next read through the server is answered (\<open>put_then_get\<close>).
\<close>

section \<open>Through the whole server\<close>

text \<open>The JSON value of an answer, compressed or not.\<close>

definition answered :: "writer \<Rightarrow> json option" where
  "answered w =
     (case w_out w of
        [JsonOut v] \<Rightarrow> Some v
      | [GzipOut [JsonOut v]] \<Rightarrow> Some v
      | _ \<Rightarrow> None)"

definition untouched :: "writer \<Rightarrow> bool" where
  "untouched w \<longleftrightarrow> w_status w = None \<and> w_out w = []"

lemma untouched_simps [simp]:
  "untouched new_writer" "untouched w \<Longrightarrow> untouched (set_header k v w)"
  "untouched w \<Longrightarrow> untouched (del_header k w)" "untouched w \<Longrightarrow> untouched (security_headers w)"
  by (simp_all add: untouched_def new_writer_def set_header_def del_header_def security_headers_def)

text \<open>A handler of the API behind \<open>Auth\<close> or not: with status 200, the handler has run.\<close>

definition guarded :: "env \<Rightarrow> 'l world handler \<Rightarrow> 'l world handler \<Rightarrow> bool" where
  "guarded env h H \<longleftrightarrow> H = h \<or> H = Auth (e_mac env) (e_secret env) h"

lemma guarded_run:
  assumes "guarded env h H" "answers_json h" "untouched w" "H = h \<or> w_status (fst (H r w \<sigma>)) \<noteq> Some 401"
  obtains code v \<sigma>1 where "H r w \<sigma> = (writeJSON w code v, \<sigma>1)" "h r new_writer \<sigma> = (writeJSON new_writer code v, \<sigma>1)"
proof -
  from assms(2) obtain f where
    f: "\<And>r w \<sigma>. h r w \<sigma> = (case f r \<sigma> of (code, v, \<sigma>1) \<Rightarrow> (writeJSON w code v, \<sigma>1))"
    by (auto simp: answers_json_def)
  obtain code v \<sigma>1 where r: "f r \<sigma> = (code, v, \<sigma>1)" by (rule prod_cases3)
  have "H r w \<sigma> = h r w \<sigma>"
    using assms(1,3,4)
    by (auto simp: guarded_def Auth_def Let_def http_error_def untouched_def write_header_def write_chunk_def
        set_header_def del_header_def split: if_splits sum.splits)
  with f r show thesis by (intro that [of code v \<sigma>1]) simp_all
qed

lemma writeJSON_untouched:
  "untouched w \<Longrightarrow> w_status (writeJSON w code v) = Some code \<and> w_out (writeJSON w code v) = [JsonOut v]"
  by (simp add: writeJSON_def untouched_def set_header_def write_header_def write_chunk_def)

lemma Gzip_run:
  assumes "guarded env h H" "answers_json h" "untouched w" "Gzip H r w \<sigma> = (w1, \<sigma>1)"
    and "w_status w1 = Some 200 \<or> H = h"
  shows "\<sigma>1 = snd (h r new_writer \<sigma>)" "w_status (fst (h r new_writer \<sigma>)) = w_status w1"
    "answered w1 = answered (fst (h r new_writer \<sigma>))"
proof -
  let ?z = "(del_header ''Content-Length'' (set_header ''Content-Encoding'' ''gzip'' w))\<lparr>w_out := []\<rparr>"
  let ?w = "if str_contains (hget ''Accept-Encoding'' (req_headers r)) ''gzip'' then ?z else w"
  have u: "untouched ?w" using assms(3) by (simp add: untouched_def set_header_def del_header_def)
  have "H = h \<or> w_status (fst (H r ?w \<sigma>)) \<noteq> Some 401"
    using assms(4,5) by (auto simp: Gzip_def Let_def write_header_def split: prod.splits if_splits)
  from guarded_run [OF assms(1,2) u this] obtain code v s1 where
    H: "H r ?w \<sigma> = (writeJSON ?w code v, s1)" "h r new_writer \<sigma> = (writeJSON new_writer code v, s1)" .
  have "\<sigma>1 = s1 \<and> w_status w1 = Some code \<and> answered w1 = Some v"
    using assms(3,4) H(1) writeJSON_untouched [OF u, of code v]
    by (auto simp: Gzip_def Let_def answered_def write_header_def untouched_def split: if_splits)
  with H(2) show "\<sigma>1 = snd (h r new_writer \<sigma>)" "w_status (fst (h r new_writer \<sigma>)) = w_status w1"
    "answered w1 = answered (fst (h r new_writer \<sigma>))"
    by (simp_all add: writeJSON_new answered_def)
qed

lemma CORS_next:
  assumes "req_method r \<noteq> ''OPTIONS''" "untouched w"
  obtains w' where "untouched w'" "CORS allowed h r w \<sigma> = h r w' \<sigma>"
proof -
  have "\<exists>w'. CORS allowed h r w \<sigma> = h r w' \<sigma> \<and> untouched w'"
    unfolding CORS_def Let_def if_not_P [OF assms(1)] by (rule exI, rule conjI, rule refl) (simp add: assms(2))
  with that show thesis by blast
qed

lemma server_run:
  assumes "\<And>w \<sigma>'. wd_now \<sigma>' = wd_now \<sigma> \<Longrightarrow> mux env pub r w \<sigma>' = H r w \<sigma>'" "guarded env h H" "answers_json h"
    and "has_prefix (req_path r) ''/api/''" "req_method r \<noteq> ''OPTIONS''"
    and "server_handler api env allowed pub r new_writer \<sigma> = (w1, \<sigma>1)"
    and "w_status w1 = Some 200 \<or> H = h \<and> fst (rl_allow api (wd_now \<sigma>) (realIP r) (wd_limiter \<sigma>))"
  obtains rl where "\<sigma>1 = snd (h r new_writer (\<sigma>\<lparr>wd_limiter := rl\<rparr>))"
    "w_status (fst (h r new_writer (\<sigma>\<lparr>wd_limiter := rl\<rparr>))) = w_status w1"
    "answered w1 = answered (fst (h r new_writer (\<sigma>\<lparr>wd_limiter := rl\<rparr>)))"
    "rl = snd (rl_allow api (wd_now \<sigma>) (realIP r) (wd_limiter \<sigma>))"
proof -
  obtain ok rl where a: "rl_allow api (wd_now \<sigma>) (realIP r) (wd_limiter \<sigma>) = (ok, rl)" by (rule prod.exhaust)
  have ok: "ok"
    using assms(4,6,7) a
    by (auto simp: server_handler_def RateLimit_def Let_def http_error_def write_header_def write_chunk_def new_writer_def
        set_header_def del_header_def split: if_splits)
  have g: "Gzip (mux env pub) r w (\<sigma>\<lparr>wd_limiter := rl\<rparr>) = Gzip H r w (\<sigma>\<lparr>wd_limiter := rl\<rparr>)" for w
    by (simp add: Gzip_def assms(1) wd_now_def)
  let ?\<sigma> = "\<sigma>\<lparr>wd_limiter := rl\<rparr>"
  have eq: "CORS allowed (SecurityHeaders (Gzip (mux env pub))) r new_writer ?\<sigma> = (w1, \<sigma>1)"
    using assms(4,6) a ok by (simp add: server_handler_def RateLimit_def)
  obtain w where w: "untouched w"
    "CORS allowed (SecurityHeaders (Gzip (mux env pub))) r new_writer ?\<sigma> = SecurityHeaders (Gzip (mux env pub)) r w ?\<sigma>"
    by (rule CORS_next [OF assms(5) untouched_simps(1)])
  have u: "untouched (security_headers w)" by (rule untouched_simps(4) [OF w(1)])
  have z: "Gzip H r (security_headers w) ?\<sigma> = (w1, \<sigma>1)"
    using eq unfolding w(2) SecurityHeaders_def g .
  from assms(7) have "w_status w1 = Some 200 \<or> H = h" by blast
  from that [OF Gzip_run [OF assms(2,3) u z this]] a show thesis by simp
qed

text \<open>The paths of the API as clients write them.\<close>

definition api_paths :: "(string \<times> route) list" where
  "api_paths =
     [(''/api/content'', RtContent), (''/api/admin/site'', RtSite), (''/api/admin/hero'', RtHero),
      (''/api/admin/stats'', RtStats), (''/api/admin/about'', RtAbout), (''/api/admin/services'', RtServices),
      (''/api/admin/news'', RtNews), (''/api/admin/partners'', RtPartners), (''/api/admin/contact'', RtContact),
      (''/api/languages'', RtLanguages), (''/api/sidepanel'', RtSidePanel),
      (''/api/admin/languages'', RtAdminLanguages), (''/api/admin/sidepanel'', RtAdminSidePanel)]"

lemma api_paths_clean:
  "list_all (\<lambda>(p, rt). p \<noteq> [] \<and> hd p = CHR ''/'' \<and> clean_path p = p \<and> path_segments p \<noteq> [''uploads''] \<and>
     match_route p = rt \<and> has_prefix p ''/api/'') api_paths"
  by code_simp

lemma mux_api:
  assumes "(p, rt) \<in> set api_paths" "req_escaped r = p" "req_path r = p"
  shows "mux env pub r w \<sigma> = route_handler env pub rt r w \<sigma>" "has_prefix (req_path r) ''/api/''"
  using assms api_paths_clean by (auto simp: mux_def Let_def list_all_iff)

text \<open>An update, and the read that follows it.\<close>

lemma put_then_get:
  assumes "(p, rt) \<in> set api_paths" "guarded env h (route_handler env pub rt)" "answers_json h"
    and "(q, rq) \<in> set api_paths" "route_handler env pub rq = g" "answers_json g"
    and "\<And>rl. w_status (fst (h r1 new_writer (\<sigma>\<lparr>wd_limiter := rl\<rparr>))) = Some 200 \<Longrightarrow>
      shows_that g Q (snd (h r1 new_writer (\<sigma>\<lparr>wd_limiter := rl\<rparr>)))"
    and "\<And>\<sigma> rl. shows_that g Q (\<sigma>\<lparr>wd_limiter := rl\<rparr>) = shows_that g Q \<sigma>"
    and "req_escaped r1 = p" "req_path r1 = p" "req_method r1 \<noteq> ''OPTIONS''"
    and "req_escaped r2 = q" "req_path r2 = q" "req_method r2 = ''GET''"
    and "server_handler api env allowed pub r1 new_writer \<sigma> = (w1, \<sigma>1)" "w_status w1 = Some 200"
    and "fst (rl_allow api (wd_now \<sigma>1) (realIP r2) (wd_limiter \<sigma>1))"
    and "server_handler api env allowed pub r2 new_writer \<sigma>1 = (w2, \<sigma>2)"
  shows "w_status w2 = Some 200 \<and> (\<exists>v. answered w2 = Some v \<and> Q v)"
proof -
  obtain rl1 where one: "\<sigma>1 = snd (h r1 new_writer (\<sigma>\<lparr>wd_limiter := rl1\<rparr>))"
    "w_status (fst (h r1 new_writer (\<sigma>\<lparr>wd_limiter := rl1\<rparr>))) = w_status w1"
    by (rule server_run [OF mux_api(1) [OF assms(1,9,10)] assms(2,3) mux_api(2) [OF assms(1,9,10)] assms(11,15)
        disjI1 [OF assms(16)]])
  have shown: "shows_that g Q \<sigma>1" using assms(7) [of rl1] one assms(16) by simp
  have u: "guarded env g (route_handler env pub rq)" using assms(5) by (simp add: guarded_def)
  have o: "req_method r2 \<noteq> ''OPTIONS''" using assms(14) by simp
  have l: "w_status w2 = Some 200 \<or> route_handler env pub rq = g \<and> fst (rl_allow api (wd_now \<sigma>1) (realIP r2) (wd_limiter \<sigma>1))"
    using assms(5,17) by simp
  obtain rl2 where two: "w_status (fst (g r2 new_writer (\<sigma>1\<lparr>wd_limiter := rl2\<rparr>))) = w_status w2"
    "answered w2 = answered (fst (g r2 new_writer (\<sigma>1\<lparr>wd_limiter := rl2\<rparr>)))"
    by (rule server_run [OF mux_api(1) [OF assms(4,12,13)] u assms(6) mux_api(2) [OF assms(4,12,13)] o assms(18) l])
  from shown assms(8) [of rl2 \<sigma>1] two assms(14) show ?thesis by (auto simp: shows_that_def answered_def)
qed

end
