(* ===== verification/LimiterHeap.thy ===== *)
theory LimiterHeap
  imports RateThms
begin

text \<open>
  The rate limiter with the steps that goroutines really take. \<open>getLimiter\<close> runs under the mutex of the
  \<open>RateLimiter\<close> and returns a pointer; \<open>Allow\<close> then reads the clock (\<open>AllowN(time.Now(), 1)\<close>), and only after that
  \<open>reserveN\<close> locks the mutex of the limiter. Between any two of these, other requests of the same client may take
  the lock first, with an earlier or a later clock, and \<open>cleanup\<close> may drop the limiter from the map while its pointer
  is still held. The limiters live in a store of addresses. The locale \<open>patient_limiter\<close> shows that the clients
  notice nothing of this but the order of the locks, if a request that has its pointer uses it within nine minutes.
  Requests that come one after the other are those of \<open>RateLimiter\<close> (\<open>sequential_requests\<close>).
\<close>

section \<open>State and steps\<close>

text \<open>
  \<open>lh_pending\<close>: the requests between \<open>getLimiter\<close> and the lock of the limiter, by number, with their client, their
  pointer and the clock they have read. The structs \<open>visitor\<close> are only used under the mutex and stand in the map
  as values.
\<close>

record 'l limiter_heap =
  lh_visitors :: "string \<rightharpoonup> nat \<times> int"
  lh_store :: "nat \<rightharpoonup> 'l"
  lh_fresh :: nat
  lh_pending :: "nat \<rightharpoonup> string \<times> nat \<times> int option"
  lh_rps :: rat
  lh_burst :: int

definition heap_new :: "int \<Rightarrow> 'l limiter_heap" where
  "heap_new perMinute =
     \<lparr>lh_visitors = (\<lambda>_. None), lh_store = (\<lambda>_. None), lh_fresh = 0, lh_pending = (\<lambda>_. None),
      lh_rps = limit_of perMinute, lh_burst = go_div perMinute 4\<rparr>"

datatype lim_step = GetLimiter nat string | ReadClock nat | LockLimiter nat | CleanupTick

definition heap_get :: "'l limiter_api \<Rightarrow> int \<Rightarrow> nat \<Rightarrow> string \<Rightarrow> 'l limiter_heap \<Rightarrow> 'l limiter_heap" where
  "heap_get api now i ip H =
     (let (a, H1) = (case lh_visitors H ip of
            Some (a, _) \<Rightarrow> (a, H)
          | None \<Rightarrow> (lh_fresh H,
              H\<lparr>lh_store := (lh_store H)(lh_fresh H \<mapsto> new_limiter api (lh_rps H) (lh_burst H)),
                lh_fresh := Suc (lh_fresh H)\<rparr>))
      in H1\<lparr>lh_visitors := (lh_visitors H1)(ip \<mapsto> (a, now)), lh_pending := (lh_pending H1)(i \<mapsto> (ip, a, None))\<rparr>)"

text \<open>\<open>time.Now()\<close> in \<open>Allow\<close>.\<close>

definition heap_read :: "int \<Rightarrow> nat \<Rightarrow> 'l limiter_heap \<Rightarrow> 'l limiter_heap" where
  "heap_read now i H =
     (case lh_pending H i of
        None \<Rightarrow> H
      | Some (ip, a, _) \<Rightarrow> H\<lparr>lh_pending := (lh_pending H)(i \<mapsto> (ip, a, Some now))\<rparr>)"

text \<open>The rest of \<open>Allow\<close>, under the mutex of the limiter: the client and the decision, and the store.\<close>

definition heap_ask :: "'l limiter_api \<Rightarrow> nat \<Rightarrow> 'l limiter_heap \<Rightarrow> ((string \<times> bool) \<times> 'l limiter_heap) option" where
  "heap_ask api i H =
     (case lh_pending H i of
        Some (ip, a, Some c) \<Rightarrow>
          (case lh_store H a of
             None \<Rightarrow> None
           | Some l \<Rightarrow>
               (let (ok, l1) = allow api c l
                in Some ((ip, ok), H\<lparr>lh_store := (lh_store H)(a \<mapsto> l1), lh_pending := (lh_pending H)(i := None)\<rparr>)))
      | _ \<Rightarrow> None)"

definition heap_cleanup :: "int \<Rightarrow> 'l limiter_heap \<Rightarrow> 'l limiter_heap" where
  "heap_cleanup now H =
     H\<lparr>lh_visitors := (\<lambda>ip. case lh_visitors H ip of
         None \<Rightarrow> None
       | Some (a, seen) \<Rightarrow> if now - seen > idle_time then None else Some (a, seen))\<rparr>"

text \<open>The decisions of a schedule, with the times of the locks.\<close>

fun run_heap :: "'l limiter_api \<Rightarrow> 'l limiter_heap \<Rightarrow> (int \<times> lim_step) list \<Rightarrow> (int \<times> string \<times> bool) list" where
  "run_heap api H [] = []"
| "run_heap api H ((t, GetLimiter i ip) # evs) = run_heap api (heap_get api t i ip H) evs"
| "run_heap api H ((t, ReadClock i) # evs) = run_heap api (heap_read t i H) evs"
| "run_heap api H ((t, CleanupTick) # evs) = run_heap api (heap_cleanup t H) evs"
| "run_heap api H ((t, LockLimiter i) # evs) =
     (case heap_ask api i H of
        None \<Rightarrow> run_heap api H evs
      | Some (d, H1) \<Rightarrow> (t, d) # run_heap api H1 evs)"

section \<open>Requests one after the other\<close>

text \<open>
  The rate limiter of \<open>RateLimiter\<close>, whose requests are single steps, is this one when no request comes between
  the steps of another: \<open>heap_view\<close> puts the limiters in place of their addresses.
\<close>

definition heap_view :: "'l limiter_heap \<Rightarrow> 'l rate_limiter" where
  "heap_view H =
     \<lparr>visitors = (\<lambda>ip. case lh_visitors H ip of
          None \<Rightarrow> None
        | Some (a, seen) \<Rightarrow> map_option (\<lambda>l. \<lparr>limiter = l, lastSeen = seen\<rparr>) (lh_store H a)),
      rps = lh_rps H, burst = lh_burst H\<rparr>"

definition separate :: "'l limiter_heap \<Rightarrow> bool" where
  "separate H \<longleftrightarrow>
     (\<forall>ip a seen. lh_visitors H ip = Some (a, seen) \<longrightarrow> a < lh_fresh H \<and> lh_store H a \<noteq> None) \<and>
     (\<forall>ip ip' a seen seen'. lh_visitors H ip = Some (a, seen) \<longrightarrow> lh_visitors H ip' = Some (a, seen') \<longrightarrow> ip = ip')"

fun alone :: "nat \<Rightarrow> (int \<times> rl_event) list \<Rightarrow> (int \<times> lim_step) list" where
  "alone i [] = []"
| "alone i ((t, RLCleanup) # evs) = (t, CleanupTick) # alone i evs"
| "alone i ((t, RLRequest ip) # evs) =
     (t, GetLimiter i ip) # (t, ReadClock i) # (t, LockLimiter i) # alone (Suc i) evs"

lemma view_new: "separate (heap_new perMinute)" "heap_view (heap_new perMinute) = NewRateLimiter perMinute"
  by (simp_all add: separate_def heap_view_def heap_new_def NewRateLimiter_def)

lemma view_cleanup:
  "separate H \<Longrightarrow> separate (heap_cleanup t H)"
  "separate H \<Longrightarrow> heap_view (heap_cleanup t H) = rl_cleanup t (heap_view H)"
proof -
  assume H: "separate H"
  show "separate (heap_cleanup t H)"
    using H unfolding separate_def heap_cleanup_def by (auto split: option.splits if_splits)
  have "visitors (heap_view (heap_cleanup t H)) ip = visitors (rl_cleanup t (heap_view H)) ip" for ip
    using H by (cases "lh_visitors H ip") (auto simp: heap_view_def heap_cleanup_def rl_cleanup_def separate_def split: option.split if_splits)
  then show "heap_view (heap_cleanup t H) = rl_cleanup t (heap_view H)"
    by (simp add: heap_view_def heap_cleanup_def rl_cleanup_def fun_eq_iff)
qed

lemma view_get:
  assumes "separate H" "getLimiter api t ip (heap_view H) = (l, rl)"
  obtains a where "separate (heap_get api t i ip H)" "heap_view (heap_get api t i ip H) = rl"
    "lh_visitors (heap_get api t i ip H) ip = Some (a, t)" "lh_pending (heap_get api t i ip H) i = Some (ip, a, None)"
    "lh_store (heap_get api t i ip H) a = Some l"
proof (cases "lh_visitors H ip")
  case None
  let ?a = "lh_fresh H" and ?l = "new_limiter api (lh_rps H) (lh_burst H)"
  have G: "heap_get api t i ip H = H\<lparr>lh_store := (lh_store H)(?a \<mapsto> ?l), lh_fresh := Suc ?a,
      lh_visitors := (lh_visitors H)(ip \<mapsto> (?a, t)), lh_pending := (lh_pending H)(i \<mapsto> (ip, ?a, None))\<rparr>"
    using None by (simp add: heap_get_def)
  have n: "lh_visitors H c \<noteq> Some (?a, seen)" for c seen using assms(1) unfolding separate_def by blast
  have "separate (heap_get api t i ip H)"
    using assms(1) n unfolding G separate_def by (auto simp: less_Suc_eq)
  moreover have "heap_view (heap_get api t i ip H) = rl" "?l = l"
    using assms(2) None n unfolding G
    by (auto simp: heap_view_def getLimiter_def Let_def fun_eq_iff split: option.split)
  ultimately show thesis by (intro that [of ?a]) (simp_all add: G)
next
  case (Some v)
  obtain a seen where v: "v = (a, seen)" by (rule prod.exhaust)
  obtain x where x: "lh_store H a = Some x" using assms(1) Some v unfolding separate_def by blast
  have G: "heap_get api t i ip H =
      H\<lparr>lh_visitors := (lh_visitors H)(ip \<mapsto> (a, t)), lh_pending := (lh_pending H)(i \<mapsto> (ip, a, None))\<rparr>"
    using Some v by (simp add: heap_get_def)
  have "separate (heap_get api t i ip H)"
    using assms(1) Some v unfolding G separate_def by (auto split: if_splits)
  moreover have "heap_view (heap_get api t i ip H) = rl" "x = l"
    using assms(2) Some v x unfolding G
    by (auto simp: heap_view_def getLimiter_def Let_def fun_eq_iff split: option.split)
  ultimately show thesis using x by (intro that [of a]) (simp_all add: G)
qed

lemma view_store:
  assumes "separate G" "lh_visitors G ip = Some (a, t)"
  shows "separate (G\<lparr>lh_store := (lh_store G)(a \<mapsto> l), lh_pending := P\<rparr>)"
    "heap_view (G\<lparr>lh_store := (lh_store G)(a \<mapsto> l), lh_pending := P\<rparr>) =
       (heap_view G)\<lparr>visitors := (visitors (heap_view G))(ip \<mapsto> \<lparr>limiter = l, lastSeen = t\<rparr>)\<rparr>"
proof -
  have u: "c \<noteq> ip \<Longrightarrow> lh_visitors G c \<noteq> Some (a, u)" for c u using assms unfolding separate_def by blast
  show "separate (G\<lparr>lh_store := (lh_store G)(a \<mapsto> l), lh_pending := P\<rparr>)"
    using assms(1) unfolding separate_def by auto
  show "heap_view (G\<lparr>lh_store := (lh_store G)(a \<mapsto> l), lh_pending := P\<rparr>) =
      (heap_view G)\<lparr>visitors := (visitors (heap_view G))(ip \<mapsto> \<lparr>limiter = l, lastSeen = t\<rparr>)\<rparr>"
    using assms(2) u by (auto simp: heap_view_def fun_eq_iff split: option.split)
qed

lemma view_request:
  assumes "separate H"
  obtains H1 where
    "heap_ask api i (heap_read t i (heap_get api t i ip H)) = Some ((ip, fst (rl_allow api t ip (heap_view H))), H1)"
    "separate H1" "heap_view H1 = snd (rl_allow api t ip (heap_view H))"
proof -
  obtain l rl where g: "getLimiter api t ip (heap_view H) = (l, rl)" by (rule prod.exhaust)
  obtain ok l1 where ok: "allow api t l = (ok, l1)" by (rule prod.exhaust)
  let ?G = "heap_get api t i ip H"
  from view_get [OF assms g, of i] obtain a where G: "separate ?G" "heap_view ?G = rl"
    "lh_visitors ?G ip = Some (a, t)" "lh_pending ?G i = Some (ip, a, None)" "lh_store ?G a = Some l" .
  note s = view_store [OF G(1,3), where l = l1 and P = "(lh_pending ?G)(i := None)"]
  have "heap_ask api i (heap_read t i ?G) =
      Some ((ip, ok), ?G\<lparr>lh_store := (lh_store ?G)(a \<mapsto> l1), lh_pending := (lh_pending ?G)(i := None)\<rparr>)"
    using G(4,5) ok by (simp add: heap_ask_def heap_read_def)
  with that s G(2) g ok show thesis by (simp add: rl_allow_def)
qed

lemma alone_as_sequential:
  "separate H \<Longrightarrow> map snd (run_heap api H (alone i evs)) = run_rl api (heap_view H) evs"
proof (induction evs arbitrary: H i)
  case (Cons e evs)
  obtain t s where e: "e = (t, s)" by (rule prod.exhaust)
  show ?case
  proof (cases s)
    case (RLRequest ip)
    from view_request [OF Cons.prems] obtain H1 where
      "heap_ask api i (heap_read t i (heap_get api t i ip H)) = Some ((ip, fst (rl_allow api t ip (heap_view H))), H1)"
      "separate H1" "heap_view H1 = snd (rl_allow api t ip (heap_view H))" .
    with Cons.IH [of H1 "Suc i"] show ?thesis by (simp add: e RLRequest case_prod_beta)
  next
    case RLCleanup
    with Cons.IH [OF view_cleanup(1) [OF Cons.prems]] show ?thesis by (simp add: e view_cleanup(2) [OF Cons.prems])
  qed
qed simp

theorem sequential_requests:
  "map snd (run_heap api (heap_new perMinute) (alone 0 evs)) = run_rl api (NewRateLimiter perMinute) evs"
  using alone_as_sequential [OF view_new(1), of api perMinute 0 evs] by (simp add: view_new(2))

section \<open>Schedules\<close>

text \<open>
  A schedule is what the goroutines do: a request takes its pointer once, then reads the clock, and then gets the
  lock of the limiter, no later than \<open>patience\<close> after it has the pointer and \<open>lag\<close> after it has read the clock.
  \<open>pend\<close> holds the requests in between, with their client, the time of the call and the clock that was read.
\<close>

fun prompt :: "int \<Rightarrow> int \<Rightarrow> (nat \<rightharpoonup> string \<times> int \<times> int option) \<Rightarrow> (int \<times> lim_step) list \<Rightarrow> bool" where
  "prompt patience lag pend [] = True"
| "prompt patience lag pend ((t, GetLimiter i ip) # evs) =
     (pend i = None \<and> prompt patience lag (pend(i \<mapsto> (ip, t, None))) evs)"
| "prompt patience lag pend ((t, ReadClock i) # evs) =
     (case pend i of
        Some (ip, g, None) \<Rightarrow> prompt patience lag (pend(i \<mapsto> (ip, g, Some t))) evs
      | _ \<Rightarrow> False)"
| "prompt patience lag pend ((t, CleanupTick) # evs) = prompt patience lag pend evs"
| "prompt patience lag pend ((t, LockLimiter i) # evs) =
     (case pend i of
        Some (ip, g, Some c) \<Rightarrow> t \<le> g + patience \<and> t \<le> c + lag \<and> prompt patience lag (pend(i := None)) evs
      | _ \<Rightarrow> False)"

text \<open>When a client's requests get the lock, and with which clocks.\<close>

fun ask_times :: "string \<Rightarrow> (nat \<rightharpoonup> string \<times> int \<times> int option) \<Rightarrow> (int \<times> lim_step) list \<Rightarrow> (int \<times> int) list" where
  "ask_times ip pend [] = []"
| "ask_times ip pend ((t, GetLimiter i ip') # evs) = ask_times ip (pend(i \<mapsto> (ip', t, None))) evs"
| "ask_times ip pend ((t, ReadClock i) # evs) =
     ask_times ip (case pend i of Some (ip', g, _) \<Rightarrow> pend(i \<mapsto> (ip', g, Some t)) | None \<Rightarrow> pend) evs"
| "ask_times ip pend ((t, CleanupTick) # evs) = ask_times ip pend evs"
| "ask_times ip pend ((t, LockLimiter i) # evs) =
     (case pend i of
        Some (ip', g, Some c) \<Rightarrow>
          if ip' = ip then (t, c) # ask_times ip (pend(i := None)) evs else ask_times ip (pend(i := None)) evs
      | _ \<Rightarrow> ask_times ip (pend(i := None)) evs)"

text \<open>What a client is told, and when.\<close>

definition told :: "string \<Rightarrow> (int \<times> string \<times> bool) list \<Rightarrow> (int \<times> bool) list" where
  "told ip ds = map (\<lambda>(t, c, ok). (t, ok)) (filter (\<lambda>(t, c, ok). c = ip) ds)"

lemma told_simps [simp]:
  "told ip [] = []" "told ip ((t, c, ok) # ds) = (if c = ip then (t, ok) # told ip ds else told ip ds)"
  by (simp_all add: told_def)

text \<open>The clocks are read before the locks are taken, and no longer before them than \<open>lag\<close>.\<close>

definition clocks_upto :: "int \<Rightarrow> (nat \<rightharpoonup> string \<times> int \<times> int option) \<Rightarrow> bool" where
  "clocks_upto now pend \<longleftrightarrow> (\<forall>i ip g c. pend i = Some (ip, g, Some c) \<longrightarrow> c \<le> now)"

lemma clocks_upto_steps:
  assumes "clocks_upto now pend" "now \<le> t"
  shows "clocks_upto t pend" "clocks_upto t (pend(i \<mapsto> (ip, g, None)))" "clocks_upto t (pend(i \<mapsto> (ip, g, Some t)))"
    "clocks_upto t (pend(i := None))"
  using assms unfolding clocks_upto_def by (fastforce split: if_splits)+

lemma asked_in_time:
  "sorted (now # map fst evs) \<Longrightarrow> 0 \<le> now \<Longrightarrow> prompt patience lag pend evs \<Longrightarrow> clocks_upto now pend \<Longrightarrow>
     timely_clocks lag (ask_times ip pend evs) \<and> sorted (now # map fst (ask_times ip pend evs))"
proof (induction evs arbitrary: now pend)
  case (Cons e evs)
  obtain t s where e: "e = (t, s)" by (rule prod.exhaust)
  have t: "sorted (t # map fst evs)" "0 \<le> t" "now \<le> t" using Cons.prems(1,2) e by auto
  have raise: "timely_clocks lag qs \<and> sorted (now # map fst qs)" if "timely_clocks lag qs \<and> sorted (t # map fst qs)" for qs
    using that t(3) by auto
  note clocks = clocks_upto_steps [OF Cons.prems(4) t(3)]
  show ?case
  proof (cases s)
    case (GetLimiter i ip')
    with raise [OF Cons.IH [OF t(1,2) _ clocks(2) [of i ip' t]]] Cons.prems(3) show ?thesis
      by (simp add: e del: fun_upd_apply)
  next
    case (ReadClock i)
    with Cons.prems(3) obtain ip' g where p: "pend i = Some (ip', g, None)"
      by (auto simp: e simp del: fun_upd_apply split: option.splits prod.splits)
    with raise [OF Cons.IH [OF t(1,2) _ clocks(3) [of i ip' g]]] Cons.prems(3) ReadClock show ?thesis
      by (simp add: e del: fun_upd_apply)
  next
    case (LockLimiter i)
    with Cons.prems(3) obtain ip' g c where p: "pend i = Some (ip', g, Some c)" "t \<le> c + lag"
      "prompt patience lag (pend(i := None)) evs"
      by (auto simp: e simp del: fun_upd_apply split: option.splits prod.splits)
    moreover have "c \<le> t" using p(1) clocks(1) unfolding clocks_upto_def by blast
    ultimately show ?thesis
      using Cons.IH [OF t(1,2) p(3) clocks(4)] t(2,3) LockLimiter
      by (auto simp: e timely_clocks_def read_within_def simp del: fun_upd_apply)
  next
    case CleanupTick
    with raise [OF Cons.IH [OF t(1,2) _ clocks(1)]] Cons.prems(3) show ?thesis by (simp add: e)
  qed
qed (simp add: timely_clocks_def)

section \<open>The contract\<close>

text \<open>
  A limiter that was not asked for the time \<open>refill\<close> answers as a new one; what is left of the ten minutes of
  \<open>cleanup\<close> is the time that a request may hold a pointer. It may be asked with clocks that are behind.
\<close>

locale patient_limiter = idle_limiter api r b used
  for api :: "'l limiter_api" and r b used +
  fixes refill patience :: int
  assumes used_new_at: "c \<le> t \<Longrightarrow> used (snd (allow api c (new_limiter api r b))) t"
    and used_at: "used l u \<Longrightarrow> u \<le> t \<Longrightarrow> c \<le> t \<Longrightarrow> used (snd (allow api c l)) t"
    and refill_new: "used l u \<Longrightarrow> refill < c - u \<Longrightarrow> allow api c l = allow api c (new_limiter api r b)"
    and patience: "0 \<le> refill" "0 \<le> patience" "refill + patience \<le> idle_time"
begin

text \<open>The client's own limiter, with the time of the last lock.\<close>

definition own_ok :: "int \<Rightarrow> ('l \<times> int) option \<Rightarrow> bool" where
  "own_ok now own \<longleftrightarrow> (case own of None \<Rightarrow> True | Some (l, u) \<Rightarrow> used l u \<and> u \<le> now)"

text \<open>
  A limiter of the store (\<open>x\<close>) that came there at time \<open>since\<close> answers as the client's own: it is the same, or a
  new one where the own one had been left alone for long enough then.
\<close>

definition stands_for :: "int \<Rightarrow> ('l \<times> int) option \<Rightarrow> 'l \<Rightarrow> bool" where
  "stands_for since own x \<longleftrightarrow>
     x = own_limiter own \<or> x = new_limiter api r b \<and> (\<exists>l u. own = Some (l, u) \<and> refill < since - u)"

text \<open>Request \<open>i\<close> of the client may still use its pointer.\<close>

definition in_hand ::
  "int \<Rightarrow> string \<Rightarrow> (nat \<rightharpoonup> string \<times> int \<times> int option) \<Rightarrow> nat \<Rightarrow> int \<Rightarrow> int option \<Rightarrow> bool" where
  "in_hand now ip pend i g k \<longleftrightarrow> pend i = Some (ip, g, k) \<and> now \<le> g + patience"

text \<open>Of one client at one time: what the map holds for it, and the pointers its requests still may use.\<close>

definition client_ok ::
  "int \<Rightarrow> ('l \<times> int) option \<Rightarrow> string \<Rightarrow> (nat \<rightharpoonup> string \<times> int \<times> int option) \<Rightarrow> 'l limiter_heap \<Rightarrow> bool" where
  "client_ok now own ip pend H \<longleftrightarrow>
     own_ok now own \<and>
     (case lh_visitors H ip of
        None \<Rightarrow>
          (\<forall>i g k. \<not> in_hand now ip pend i g k) \<and>
          (case own of None \<Rightarrow> True | Some (l, u) \<Rightarrow> refill < now - u)
      | Some (a, seen) \<Rightarrow>
          seen \<le> now \<and> (case own of None \<Rightarrow> True | Some (l, u) \<Rightarrow> u \<le> seen + patience) \<and>
          (\<exists>x since. lh_store H a = Some x \<and> stands_for since own x \<and> since \<le> now \<and>
             (\<forall>i g k. in_hand now ip pend i g k \<longrightarrow>
                since \<le> g \<and> g \<le> seen \<and> lh_pending H i = Some (ip, a, k))))"

text \<open>Addresses: no two clients share a limiter (\<open>owner\<close>), and the pointers are those of the schedule.\<close>

definition heap_ok :: "(nat \<Rightarrow> string) \<Rightarrow> (nat \<rightharpoonup> string \<times> int \<times> int option) \<Rightarrow> 'l limiter_heap \<Rightarrow> bool" where
  "heap_ok owner pend H \<longleftrightarrow>
     lh_rps H = r \<and> lh_burst H = b \<and>
     (\<forall>ip a seen. lh_visitors H ip = Some (a, seen) \<longrightarrow> a < lh_fresh H \<and> owner a = ip) \<and>
     (\<forall>i ip a k. lh_pending H i = Some (ip, a, k) \<longrightarrow> a < lh_fresh H \<and> owner a = ip) \<and>
     (\<forall>a. a < lh_fresh H \<longrightarrow> lh_store H a \<noteq> None) \<and>
     (\<forall>i. map_option (\<lambda>(c, _, k). (c, k)) (lh_pending H i) = map_option (\<lambda>(c, _, k). (c, k)) (pend i))"

text \<open>Clocks are read after the pointer is taken.\<close>

definition pend_ok :: "int \<Rightarrow> (nat \<rightharpoonup> string \<times> int \<times> int option) \<Rightarrow> bool" where
  "pend_ok now pend \<longleftrightarrow>
     (\<forall>i ip g k. pend i = Some (ip, g, k) \<longrightarrow> g \<le> now \<and> (case k of None \<Rightarrow> True | Some c \<Rightarrow> g \<le> c \<and> c \<le> now))"

lemma pend_ok_steps:
  assumes "pend_ok now pend" "now \<le> t"
  shows "pend_ok t pend" "pend_ok t (pend(i \<mapsto> (ip, t, None)))" "pend_ok t (pend(i := None))"
    "pend i = Some (ip, g, k) \<Longrightarrow> pend_ok t (pend(i \<mapsto> (ip, g, Some t)))"
  using assms unfolding pend_ok_def by (fastforce split: option.splits if_splits)+

lemma client_ok_later: "client_ok now own ip pend H \<Longrightarrow> now \<le> t \<Longrightarrow> client_ok t own ip pend H"
  unfolding client_ok_def own_ok_def in_hand_def
  by (fastforce split: option.splits)

text \<open>What other clients do is not noticed.\<close>

lemma client_frame:
  assumes "client_ok t own ip pend H" "lh_visitors H' ip = lh_visitors H ip"
    and "\<And>a seen. lh_visitors H ip = Some (a, seen) \<Longrightarrow> lh_store H' a = lh_store H a"
    and "\<And>j g k. in_hand t ip pend' j g k \<Longrightarrow> in_hand t ip pend j g k \<and> lh_pending H' j = lh_pending H j"
  shows "client_ok t own ip pend' H'"
proof (cases "lh_visitors H ip")
  case None
  with assms(1,2,4) show ?thesis unfolding client_ok_def by fastforce
next
  case (Some v)
  obtain a seen where v: "v = (a, seen)" by (rule prod.exhaust)
  obtain x since where "lh_store H a = Some x" "stands_for since own x" "since \<le> t"
    "\<forall>i g k. in_hand t ip pend i g k \<longrightarrow> since \<le> g \<and> g \<le> seen \<and> lh_pending H i = Some (ip, a, k)"
    using assms(1) Some v unfolding client_ok_def by auto
  then have "\<exists>x since. lh_store H' a = Some x \<and> stands_for since own x \<and> since \<le> t \<and>
      (\<forall>i g k. in_hand t ip pend' i g k \<longrightarrow> since \<le> g \<and> g \<le> seen \<and> lh_pending H' i = Some (ip, a, k))"
    using assms(3,4) Some v by metis
  with assms(1,2) Some v show ?thesis unfolding client_ok_def by simp
qed

lemma allow_stands_for:
  assumes "stands_for since own x" "own_ok t own" "since \<le> c" "c \<le> t" "allow api c x = (ok, l1)"
  shows "allow api c (own_limiter own) = (ok, l1)" "used l1 t"
proof -
  have a: "allow api c x = allow api c (own_limiter own)"
    using assms(1-3) refill_new by (fastforce simp: stands_for_def own_limiter_def own_ok_def)
  then show own: "allow api c (own_limiter own) = (ok, l1)" using assms(5) by simp
  have l1: "l1 = snd (allow api c (own_limiter own))" by (simp add: own)
  show "used l1 t"
    unfolding l1 using assms(2,4) used_new_at used_at by (cases own) (auto simp: own_limiter_def own_ok_def)
qed

lemma get_known:
  assumes "heap_ok owner pend H" "client_ok t own ip pend H" "lh_visitors H ip' = Some (a, seen)" "pend i = None"
  shows "heap_ok owner (pend(i \<mapsto> (ip', t, None))) (heap_get api t i ip' H)"
    "client_ok t own ip (pend(i \<mapsto> (ip', t, None))) (heap_get api t i ip' H)"
proof -
  have H: "heap_get api t i ip' H =
      H\<lparr>lh_visitors := (lh_visitors H)(ip' \<mapsto> (a, t)), lh_pending := (lh_pending H)(i \<mapsto> (ip', a, None))\<rparr>"
    using assms(3) by (simp add: heap_get_def)
  show "heap_ok owner (pend(i \<mapsto> (ip', t, None))) (heap_get api t i ip' H)"
    using assms(1,3) unfolding H heap_ok_def by auto
  show "client_ok t own ip (pend(i \<mapsto> (ip', t, None))) (heap_get api t i ip' H)"
  proof (cases "ip' = ip")
    case True
    obtain x since where x: "lh_store H a = Some x" "stands_for since own x" "since \<le> t" "seen \<le> t"
      "\<forall>j g k. in_hand t ip pend j g k \<longrightarrow> since \<le> g \<and> g \<le> seen \<and> lh_pending H j = Some (ip, a, k)"
      "own_ok t own" "case own of None \<Rightarrow> True | Some (l, u) \<Rightarrow> u \<le> seen + patience"
      using assms(2,3) True unfolding client_ok_def by auto
    have "since \<le> g \<and> g \<le> t \<and> (if j = i then Some (ip, a, None) else lh_pending H j) = Some (ip, a, k)"
      if "in_hand t ip (pend(i \<mapsto> (ip, t, None))) j g k" for j g k
      using that x(3-5) by (cases "j = i") (auto simp: in_hand_def dest: spec [of _ j])
    moreover have "case own of None \<Rightarrow> True | Some (l, u) \<Rightarrow> u \<le> t + patience"
      using x(4,7) by (auto split: option.splits)
    ultimately show ?thesis using True x(1-3,6) unfolding H client_ok_def by auto
  next
    case False
    then show ?thesis
      unfolding H by (intro client_frame [OF assms(2)]) (auto simp: in_hand_def assms(4) split: if_splits)
  qed
qed

lemma get_unknown:
  assumes "heap_ok owner pend H" "client_ok t own ip pend H" "lh_visitors H ip' = None" "pend i = None"
  shows "heap_ok (owner(lh_fresh H := ip')) (pend(i \<mapsto> (ip', t, None))) (heap_get api t i ip' H)"
    "client_ok t own ip (pend(i \<mapsto> (ip', t, None))) (heap_get api t i ip' H)"
proof -
  let ?a = "lh_fresh H"
  have H: "heap_get api t i ip' H = H\<lparr>lh_store := (lh_store H)(?a \<mapsto> new_limiter api r b), lh_fresh := Suc ?a,
      lh_visitors := (lh_visitors H)(ip' \<mapsto> (?a, t)), lh_pending := (lh_pending H)(i \<mapsto> (ip', ?a, None))\<rparr>"
    using assms(1,3) by (simp add: heap_get_def heap_ok_def)
  have n: "lh_visitors H c \<noteq> Some (?a, seen)" for c seen using assms(1) unfolding heap_ok_def by blast
  show "heap_ok (owner(?a := ip')) (pend(i \<mapsto> (ip', t, None))) (heap_get api t i ip' H)"
  proof -
    have "lh_pending H j \<noteq> Some (c, ?a, k)" for j c k
      using assms(1) unfolding heap_ok_def by blast
    with assms(1) n show ?thesis unfolding H heap_ok_def by (auto simp: less_Suc_eq)
  qed
  show "client_ok t own ip (pend(i \<mapsto> (ip', t, None))) (heap_get api t i ip' H)"
  proof (cases "ip' = ip")
    case True
    have o: "own_ok t own" "\<forall>j g k. \<not> in_hand t ip pend j g k"
      "case own of None \<Rightarrow> True | Some (l, u) \<Rightarrow> refill < t - u"
      using assms(2,3) True unfolding client_ok_def by simp_all
    have "stands_for t own (new_limiter api r b)"
      using o(3) by (auto simp: stands_for_def own_limiter_def split: option.splits)
    moreover have "g = t \<and> j = i \<and> k = None" if "in_hand t ip (pend(i \<mapsto> (ip, t, None))) j g k" for j g k
      using that o(2) by (cases "j = i") (auto simp: in_hand_def)
    moreover have "case own of None \<Rightarrow> True | Some (l, u) \<Rightarrow> u \<le> t + patience"
      using o(1) patience by (auto simp: own_ok_def split: option.splits)
    ultimately show ?thesis using o(1) True unfolding H client_ok_def by fastforce
  next
    case False
    then show ?thesis
      unfolding H using n by (intro client_frame [OF assms(2)]) (auto simp: in_hand_def assms(4) split: if_splits)
  qed
qed

lemma clock_read:
  assumes "heap_ok owner pend H" "client_ok t own ip pend H" "pend i = Some (ip', g, None)"
  shows "heap_ok owner (pend(i \<mapsto> (ip', g, Some t))) (heap_read t i H)"
    "client_ok t own ip (pend(i \<mapsto> (ip', g, Some t))) (heap_read t i H)"
proof -
  have "map_option (\<lambda>(c, _, k). (c, k)) (lh_pending H i) = Some (ip', None)" using assms(1,3) unfolding heap_ok_def by simp
  then obtain a where a: "lh_pending H i = Some (ip', a, None)" by auto
  then have H: "heap_read t i H = H\<lparr>lh_pending := (lh_pending H)(i \<mapsto> (ip', a, Some t))\<rparr>" by (simp add: heap_read_def)
  show "heap_ok owner (pend(i \<mapsto> (ip', g, Some t))) (heap_read t i H)"
  proof -
    have "a < lh_fresh H" "owner a = ip'" using assms(1) a unfolding heap_ok_def by blast+
    with assms(1) show ?thesis unfolding H heap_ok_def by auto
  qed
  show "client_ok t own ip (pend(i \<mapsto> (ip', g, Some t))) (heap_read t i H)"
  proof (cases "ip' = ip")
    case True
    have i: "in_hand t ip (pend(i \<mapsto> (ip', g, Some t))) j g' k \<longleftrightarrow>
        (if j = i then g' = g \<and> k = Some t \<and> in_hand t ip pend i g None else in_hand t ip pend j g' k)" for j g' k
      using True assms(3) by (auto simp: in_hand_def)
    show ?thesis
    proof (cases "lh_visitors H ip")
      case None
      with assms(2) show ?thesis unfolding H client_ok_def i by auto
    next
      case (Some v)
      obtain a' seen where v: "v = (a', seen)" by (rule prod.exhaust)
      obtain x since where x: "lh_store H a' = Some x" "stands_for since own x" "since \<le> t"
        "\<forall>j g k. in_hand t ip pend j g k \<longrightarrow> since \<le> g \<and> g \<le> seen \<and> lh_pending H j = Some (ip, a', k)"
        using assms(2) Some v unfolding client_ok_def by auto
      have "since \<le> g' \<and> g' \<le> seen \<and> ((lh_pending H)(i \<mapsto> (ip', a, Some t))) j = Some (ip, a', k)"
        if "in_hand t ip (pend(i \<mapsto> (ip', g, Some t))) j g' k" for j g' k
      proof (cases "j = i")
        case True
        with that have "in_hand t ip pend i g None" "g' = g" "k = Some t" by (simp_all add: i)
        with x(4) a True \<open>ip' = ip\<close> show ?thesis by fastforce
      next
        case False
        with that x(4) show ?thesis by (auto simp: i)
      qed
      with assms(2) Some v x(1-3) show ?thesis unfolding H client_ok_def by auto
    qed
  next
    case False
    then show ?thesis
      unfolding H by (intro client_frame [OF assms(2)]) (auto simp: in_hand_def assms(3) split: if_splits)
  qed
qed

lemma cleaned_ok:
  assumes "heap_ok owner pend H" "client_ok t own ip pend H"
  shows "heap_ok owner pend (heap_cleanup t H)" "client_ok t own ip pend (heap_cleanup t H)"
proof -
  show "heap_ok owner pend (heap_cleanup t H)"
    using assms(1) by (auto simp: heap_ok_def heap_cleanup_def split: option.splits if_splits)
  show "client_ok t own ip pend (heap_cleanup t H)"
  proof (cases "lh_visitors H ip")
    case None
    with assms(2) show ?thesis by (simp add: client_ok_def heap_cleanup_def)
  next
    case (Some p)
    obtain a seen where p: "p = (a, seen)" by (rule prod.exhaust)
    show ?thesis
    proof (cases "idle_time < t - seen")
      case True
      have "\<not> in_hand t ip pend i g k" for i g k
      proof
        assume h: "in_hand t ip pend i g k"
        then have "g \<le> seen" using assms(2) Some p unfolding client_ok_def by auto
        with True patience h show False by (simp add: in_hand_def)
      qed
      moreover have "case own of None \<Rightarrow> True | Some (l, u) \<Rightarrow> refill < t - u"
        using assms(2) Some p True patience by (auto simp: client_ok_def split: option.splits)
      ultimately show ?thesis using assms(2) Some p True by (simp add: client_ok_def heap_cleanup_def)
    next
      case False
      with assms(2) Some p show ?thesis by (simp add: client_ok_def heap_cleanup_def)
    qed
  qed
qed

lemma asked_other:
  assumes "heap_ok owner pend H" "client_ok t own ip pend H" "heap_ask api i H = Some ((ip', ok), H1)" "ip' \<noteq> ip"
  shows "heap_ok owner (pend(i := None)) H1" "client_ok t own ip (pend(i := None)) H1"
proof -
  from assms(3) obtain a l l1 c where p: "lh_pending H i = Some (ip', a, Some c)" "lh_store H a = Some l"
    and H1: "H1 = H\<lparr>lh_store := (lh_store H)(a \<mapsto> l1), lh_pending := (lh_pending H)(i := None)\<rparr>"
    by (auto simp: heap_ask_def split: option.splits prod.splits)
  show "heap_ok owner (pend(i := None)) H1" using assms(1) unfolding H1 heap_ok_def by auto
  have n: "lh_visitors H ip = Some (a', seen) \<Longrightarrow> a' \<noteq> a" for a' seen
    using assms(1,4) p(1) unfolding heap_ok_def by blast
  then show "client_ok t own ip (pend(i := None)) H1"
    unfolding H1 by (intro client_frame [OF assms(2)]) (auto simp: in_hand_def split: if_splits)
qed

lemma asked_own:
  assumes "heap_ok owner pend H" "client_ok t own ip pend H" "pend_ok t pend" "pend i = Some (ip, g, Some c)"
    and "t \<le> g + patience" "allow api c (own_limiter own) = (ok, l1)"
  obtains H1 where "heap_ask api i H = Some ((ip, ok), H1)" "heap_ok owner (pend(i := None)) H1"
    "client_ok t (Some (l1, t)) ip (pend(i := None)) H1"
proof -
  have h: "in_hand t ip pend i g (Some c)" using assms(4,5) by (simp add: in_hand_def)
  have c: "g \<le> c" "c \<le> t" using assms(3,4) unfolding pend_ok_def by fastforce+
  obtain a seen x since where v: "lh_visitors H ip = Some (a, seen)" "seen \<le> t" "lh_store H a = Some x"
    "stands_for since own x" "since \<le> t" "own_ok t own"
    and hand: "\<forall>j g k. in_hand t ip pend j g k \<longrightarrow> since \<le> g \<and> g \<le> seen \<and> lh_pending H j = Some (ip, a, k)"
    using assms(2) h unfolding client_ok_def by (fastforce split: option.splits)
  have p: "since \<le> g" "g \<le> seen" "lh_pending H i = Some (ip, a, Some c)" using hand h by blast+
  obtain ok' l' where x: "allow api c x = (ok', l')" by (rule prod.exhaust)
  have "since \<le> c" using p(1) c(1) by simp
  from allow_stands_for [OF v(4,6) this c(2) x] assms(6) have e: "ok' = ok" "l' = l1" and l: "used l1 t" by simp_all
  let ?H = "H\<lparr>lh_store := (lh_store H)(a \<mapsto> l1), lh_pending := (lh_pending H)(i := None)\<rparr>"
  have "heap_ask api i H = Some ((ip, ok), ?H)" using p(3) v(3) x e by (simp add: heap_ask_def)
  moreover have "heap_ok owner (pend(i := None)) ?H" using assms(1) unfolding heap_ok_def by auto
  moreover have "client_ok t (Some (l1, t)) ip (pend(i := None)) ?H"
  proof -
    have "since \<le> g' \<and> g' \<le> seen \<and> ((lh_pending H)(i := None)) j = Some (ip, a, k)"
      if "in_hand t ip (pend(i := None)) j g' k" for j g' k
      using that hand by (cases "j = i") (auto simp: in_hand_def)
    moreover have "stands_for since (Some (l1, t)) l1" by (simp add: stands_for_def own_limiter_def)
    moreover have "t \<le> seen + patience" using assms(5) p(2) by simp
    ultimately show ?thesis using v(1,2,5) l unfolding client_ok_def own_ok_def by auto
  qed
  ultimately show thesis by (rule that)
qed

text \<open>Every step keeps these, and only the requests of a client concern it.\<close>

lemma told_own:
  "heap_ok owner pend H \<Longrightarrow> client_ok now own ip pend H \<Longrightarrow> pend_ok now pend \<Longrightarrow> sorted (now # map fst evs) \<Longrightarrow>
     prompt patience lag pend evs \<Longrightarrow>
     told ip (run_heap api H evs) = asked api (own_limiter own) (ask_times ip pend evs)"
proof (induction evs arbitrary: owner pend H now own)
  case Nil
  then show ?case by (simp add: asked_def)
next
  case (Cons e evs)
  obtain t s where e: "e = (t, s)" by (rule prod.exhaust)
  have t: "now \<le> t" "sorted (t # map fst evs)" using Cons.prems(4) e by simp_all
  have c: "client_ok t own ip pend H" by (rule client_ok_later [OF Cons.prems(2) t(1)])
  note timed = pend_ok_steps [OF Cons.prems(3) t(1)]
  show ?case
  proof (cases s)
    case (GetLimiter i ip')
    have p: "pend i = None" "prompt patience lag (pend(i \<mapsto> (ip', t, None))) evs"
      using Cons.prems(5) e GetLimiter by simp_all
    obtain owner' where "heap_ok owner' (pend(i \<mapsto> (ip', t, None))) (heap_get api t i ip' H)"
      "client_ok t own ip (pend(i \<mapsto> (ip', t, None))) (heap_get api t i ip' H)"
    proof (cases "lh_visitors H ip'")
      case None
      show thesis by (rule that [OF get_unknown [OF Cons.prems(1) c None p(1)]])
    next
      case (Some v)
      then have "lh_visitors H ip' = Some (fst v, snd v)" by simp
      from that [OF get_known [OF Cons.prems(1) c this p(1)]] show thesis .
    qed
    from Cons.IH [OF this timed(2) t(2) p(2)] e GetLimiter show ?thesis by (simp del: fun_upd_apply)
  next
    case (ReadClock i)
    obtain ip' g where p: "pend i = Some (ip', g, None)" "prompt patience lag (pend(i \<mapsto> (ip', g, Some t))) evs"
      using Cons.prems(5) e ReadClock by (auto simp del: fun_upd_apply split: option.splits prod.splits)
    from Cons.IH [OF clock_read [OF Cons.prems(1) c p(1)] timed(4) [OF p(1)] t(2) p(2)] p(1) e ReadClock
    show ?thesis by (simp del: fun_upd_apply)
  next
    case (LockLimiter i)
    obtain ip' g k where p: "pend i = Some (ip', g, Some k)" "t \<le> g + patience" "prompt patience lag (pend(i := None)) evs"
      using Cons.prems(5) e LockLimiter by (auto simp del: fun_upd_apply split: option.splits prod.splits)
    show ?thesis
    proof (cases "ip' = ip")
      case True
      obtain ok l1 where o: "allow api k (own_limiter own) = (ok, l1)" by (rule prod.exhaust)
      from asked_own [OF Cons.prems(1) c timed(1) p(1) [unfolded True] p(2) o] obtain H1 where
        H1: "heap_ask api i H = Some ((ip, ok), H1)" "heap_ok owner (pend(i := None)) H1"
        "client_ok t (Some (l1, t)) ip (pend(i := None)) H1" .
      from Cons.IH [OF H1(2,3) timed(3) t(2) p(3)] show ?thesis
        using e LockLimiter H1(1) p(1) True o by (simp add: asked_def own_limiter_def del: fun_upd_apply)
    next
      case False
      have "map_option (\<lambda>(c, _, k). (c, k)) (lh_pending H i) = Some (ip', Some k)"
        using Cons.prems(1) p(1) unfolding heap_ok_def by simp
      then obtain a where "lh_pending H i = Some (ip', a, Some k)" by auto
      moreover from this obtain l where "lh_store H a = Some l" using Cons.prems(1) unfolding heap_ok_def by blast
      ultimately obtain ok H1 where H1: "heap_ask api i H = Some ((ip', ok), H1)"
        by (cases "allow api k l") (auto simp: heap_ask_def)
      from Cons.IH [OF asked_other [OF Cons.prems(1) c H1 False] timed(3) t(2) p(3)] show ?thesis
        using e LockLimiter H1 p(1) False by (simp del: fun_upd_apply)
    qed
  next
    case CleanupTick
    with Cons.IH [OF cleaned_ok [OF Cons.prems(1) c] timed(1) t(2)] Cons.prems(5) e show ?thesis by simp
  qed
qed

lemma told_from_new:
  assumes "lh_rps H = r" "lh_burst H = b" "lh_visitors H = (\<lambda>_. None)" "lh_pending H = (\<lambda>_. None)" "lh_fresh H = 0"
    and "sorted (map fst evs)" "prompt patience lag (\<lambda>_. None) evs"
  shows "told ip (run_heap api H evs) = asked api (new_limiter api r b) (ask_times ip (\<lambda>_. None) evs)"
proof (cases evs)
  case Nil
  then show ?thesis by (simp add: asked_def)
next
  case (Cons e evs')
  have "heap_ok (\<lambda>_. ip) (\<lambda>_. None) H" using assms(1-5) by (simp add: heap_ok_def)
  moreover have "client_ok (fst e) None ip (\<lambda>_. None) H"
    using assms(3) by (simp add: client_ok_def own_ok_def in_hand_def)
  moreover have "pend_ok (fst e) (\<lambda>_. None)" by (simp add: pend_ok_def)
  ultimately show ?thesis
    using told_own [of _ _ H "fst e" None ip evs lag] assms(6,7) Cons by (simp add: own_limiter_def)
qed

end

section \<open>The limiter of the server\<close>

definition nine_minutes :: int where
  "nine_minutes = 9 * 60 * 10 ^ 9"

interpretation patient: patient_limiter bucket_api "limit_of (sint w)" "go_div (sint w) 4"
    "tb_used (limit_of (sint w)) (go_div (sint w) 4)" "60 * 10 ^ 9" nine_minutes for w :: "64 word"
  by unfold_locales
    (use minute_as_new [of w] used_new_bucket [OF configured_pos [of w]] used_step [OF configured_pos [of w]] in
      \<open>auto simp: nine_minutes_def idle_time_def\<close>)

lemma told_bucket:
  assumes "go_int perMinute" "sorted (map fst evs)" "prompt nine_minutes lag (\<lambda>_. None) evs"
  shows "told ip (run_heap bucket_api (heap_new perMinute) evs) =
    asked bucket_api (tb_new (limit_of perMinute) (go_div perMinute 4)) (ask_times ip (\<lambda>_. None) evs)"
  using patient.told_from_new [of "heap_new perMinute" "of_int perMinute" evs lag ip] assms(2,3) go_int_word [OF assms(1)]
  by (simp add: heap_new_def)

text \<open>
  C20. Goroutines of one client and of many do not disturb the limiter: in any interleaving of the calls of
  \<open>getLimiter\<close>, of the readings of the clock, of the locks of the limiters these returned, and of ticks of \<open>cleanup\<close>,
  in which each request has the lock within nine minutes of having its pointer, a client is told what one limiter of
  its own would tell it, asked with the clocks its requests have read, in the order in which they get the lock; also
  when \<open>cleanup\<close> drops a limiter and another takes its place.
\<close>

theorem concurrent_requests_per_client:
  assumes "go_int perMinute" "sorted (map fst evs)" "prompt nine_minutes lag (\<lambda>_. None) evs"
  shows "told ip (run_heap bucket_api (heap_new perMinute) evs) =
    zip (map fst (ask_times ip (\<lambda>_. None) evs))
      (run_limiter bucket_api (tb_new (limit_of perMinute) (go_div perMinute 4)) (map snd (ask_times ip (\<lambda>_. None) evs)))"
  using told_bucket [OF assms, of ip] by (simp only: asked_def)

text \<open>Request 2 takes the lock before request 1, which has the earlier clock.\<close>

definition some_schedule :: "(int \<times> lim_step) list" where
  "some_schedule =
     [(0, GetLimiter 1 ''a''), (1, GetLimiter 2 ''a''), (2, ReadClock 1), (3, ReadClock 2), (4, LockLimiter 2),
      (5, GetLimiter 3 ''b''), (6, LockLimiter 1), (700 * 10 ^ 9, CleanupTick), (701 * 10 ^ 9, GetLimiter 4 ''a''),
      (702 * 10 ^ 9, ReadClock 4), (702 * 10 ^ 9 + 1, LockLimiter 4)]"

theorem concurrent_requests_per_client_witness:
  "told ''a'' (run_heap bucket_api (heap_new 8) some_schedule) =
     zip [4, 6, 702 * 10 ^ 9 + 1] (run_limiter bucket_api (tb_new (limit_of 8) 2) [3, 2, 702 * 10 ^ 9])"
  using concurrent_requests_per_client [of 8 some_schedule 4 "''a''"]
  by (simp add: go_int_def some_schedule_def go_div_def nine_minutes_def)



end
