(* ===== verification/Spec2Isabelle.thy ===== *)
theory Spec2Isabelle
  imports Process Legacy ErrorThms AccountThms ServerThms InterleavingThms CodecThms WholeServer LimiterHeap
begin

text \<open>
  NexLog server: a Go program that serves the content of a company site from PostgreSQL, with an admin area.

  The program. \<open>cmd/server/main.go\<close> loads the configuration, opens the database, applies the migrations,
  seeds an empty database and serves requests through a stack of middleware
  (\<open>internal/middleware\<close>) and a router (\<open>internal/handlers\<close>). The handlers keep answers in a cache
  (\<open>internal/cache\<close>) and call the service (\<open>internal/service\<close>), which puts a timeout around the
  functions of \<open>internal/repository\<close>. A Go function with results \<open>(T, error)\<close> is a function of the state that
  returns the value, a \<open>goerr option\<close> and the new state.

  Theories and sources.
    \<^item> \<open>Prelude\<close>, \<open>GoLib\<close>, \<open>Paths\<close>: errors, shared lemmas, and the functions of \<open>strings\<close>, \<open>strconv\<close> and
      \<open>path/filepath\<close> the code calls, \<open>int\<close> as integers in the 64-bit range.
    \<^item> \<open>Json\<close>, \<open>JsonText\<close>, \<open>Float64\<close>, \<open>Base64\<close>: the parts of \<open>encoding/json\<close> and \<open>encoding/base64\<close>. The scanners
      are recursive functions that terminate because each token is shorter than the text.
    \<^item> \<open>Sql\<close>, \<open>SqlInv\<close>: the tables of \<open>migrations/0001_init.up.sql\<close>, statements, transactions, and the record
      \<open>server\<close> (committed tables, the faults and delays still to come, clock, deadline). Each database call
      takes the next fault: it is fine, refused, loses its reply after the effect, or is cut off.
    \<^item> \<open>Repository\<close> (\<open>repository.go\<close>), with \<open>RepoLists\<close>, \<open>RepoSingles\<close>, \<open>RepoLanguages\<close>, \<open>RepoThms\<close>: every
      read and update. The lemmas on lists and singletons are proved once, in the locales \<open>ordered_table\<close> and
      \<open>single_table\<close>, and interpreted on each table.
    \<^item> \<open>Service\<close>, \<open>Languages\<close> (\<open>service.go\<close>, \<open>languages.go\<close>), with \<open>ServiceThms\<close>, \<open>SeedThms\<close>: timeouts, seeding,
      the languages added at every start.
    \<^item> \<open>Cache\<close> (\<open>cache.go\<close>): the contract is the locale \<open>ttl_cache\<close>. \<open>Interleaving\<close>: the cached reads, query
      by query, and the updates of requests that overlap, as the inductive relation \<open>step\<close>; the lemmas are in
      the locale \<open>cached_read\<close>, which \<open>InterleavingThms\<close> interprets on the content, the languages and the
      side panel; there are also the proofs that the handlers run alone are runs of the relation.
    \<^item> \<open>TokenBucket\<close>, \<open>RateLimiter\<close>, \<open>Jwt\<close>, \<open>Http\<close>, \<open>Middleware\<close> (\<open>auth.go\<close>, \<open>cors.go\<close>, \<open>ratelimit.go\<close>,
      \<open>security.go\<close> and what they use of \<open>golang-jwt\<close> and \<open>x/time/rate\<close>), with \<open>RateThms\<close>, \<open>LimitThms\<close>,
      \<open>MiddlewareThms\<close>. What the map of limiters needs of a limiter is the locale \<open>idle_limiter\<close>, interpreted
      on the token bucket. The state of the program is the record \<open>world\<close>. \<open>LimiterHeap\<close>: the same limiter with the
      steps of goroutines, which get a pointer to a limiter and ask it later; the limiters are in a store of addresses,
      and the locale \<open>patient_limiter\<close> reduces any interleaving to a limiter for each client; without interleaving it is the
      limiter of \<open>RateLimiter\<close>, which the server uses.
    \<^item> \<open>Handlers\<close>, \<open>Router\<close> (\<open>handlers.go\<close>), with \<open>HandlerThms\<close>, \<open>ContentThms\<close> (updates and the content),
      \<open>MapThms\<close> (the languages and the side panel), \<open>WholeServer\<close> (through the middleware and back), \<open>ErrorThms\<close> (failing databases, bad bodies, wrong methods), \<open>AccountThms\<close> (login and password),
      \<open>UploadThms\<close>. \<open>ServerInv\<close>: runs of the whole server (\<open>serve\<close>) and what handlers may do to the world, as the
      locales \<open>world_invariant\<close> and \<open>server_invariant\<close>; \<open>ServerThms\<close> interprets them for an invariant of the
      state and for the frame that carries the bound of the limiter to the answers of the server.
    \<^item> \<open>Migrate\<close>, \<open>MigrateThms\<close> (\<open>internal/migrate\<close>), \<open>Config\<close> (\<open>configs/config.go\<close>), \<open>Startup\<close>
      (\<open>internal/db\<close>, \<open>internal/logger\<close>, \<open>main.go\<close> up to the handler), \<open>Process\<close> (\<open>main.go\<close> after the
      start), \<open>Legacy\<close> (\<open>cmd/server/middleware.go\<close>, which \<open>main\<close> no longer uses).
    \<^item> \<open>JsonEncode\<close>, \<open>CodecThms\<close>: the text \<open>json.Encoder\<close> writes, the proof that the scanner of \<open>JsonText\<close> reads it
      back, and that the tags of the structs agree in both directions.
    \<^item> This theory: an update that goes through the whole server is what the server gives out next, for the parts of
      the content, the languages and the side panel, and the text that the server gave out can be put back without a
      change.

  What the lemmas show. Updates are all or nothing and read back; the tables stay well formed; no request
  without a token writes; a refused or late database call ends in time; a start or a migration that fails
  can be repeated; the limiters grant no more than their bounds, which also bounds the answers of the whole
  server to one client over any run; what the server wrote can be sent back to it; the cache serves what the database holds
  when updates do not overlap reads, and at most for its time to live something else when they do. Several
  theorems state defects: an outage, a body that is not JSON, a password that bcrypt refuses, two migrations
  of one number, a forged address, a path with an escaped \<open>..\<close>, a listener that fails.

  Parameters of the model (code that is not in the repository, or not modelled): the HMAC, bcrypt, the parser
  of multipart forms, the file server and \<open>os.Stat\<close> (record \<open>env\<close>), the effect of the SQL of a migration, the
  check of the connection string, the clock, the random numbers, the order of a Go map, and what the disk
  does. A goroutine's step is atomic where the code holds a lock; requests are sequential except in
  \<open>Interleaving\<close>, where each query, update, store and flush is a step, and in \<open>LimiterHeap\<close>, where \<open>getLimiter\<close> and
  \<open>Allow\<close> are two steps of a request (\<open>Allow\<close> reads the clock and locks its limiter in one step, and a request asks
  within nine minutes of having its pointer: \<open>cleanup\<close> keeps what was used in the last ten, and within one minute
  a bucket that was left alone is full again). The token bucket computes with
  exact rationals where the library has \<open>float64\<close>.

  Not modelled: \<open>GOMAXPROCS\<close> and what the profiler serves, the log lines of progress and the functions of \<open>slog\<close>, the
  timeouts of \<open>net/http\<close> beyond their values, the inside of \<open>ListenAndServe\<close> and \<open>Shutdown\<close>, the rest of
  \<open>vendor/\<close>, SERIAL ids and indexes of the tables, the pages under \<open>public/\<close>, nginx and Docker.
\<close>

section \<open>The parts of the content\<close>

text \<open>The parts of the content: the path of the update, the member of the content, the value of the body.\<close>

definition site_parts :: "(string \<times> route \<times> string \<times> (request \<Rightarrow> json)) list" where
  "site_parts =
     [(''/api/admin/site'', RtSite, ''site'', \<lambda>r. json_Site (body_value (decode_struct fields_Site) r zero_Site)),
      (''/api/admin/hero'', RtHero, ''hero'', \<lambda>r.
         JObj [(''slides'', JArr (map json_HeroSlide (elems (body_value decode_slides r None))))]),
      (''/api/admin/stats'', RtStats, ''stats'', \<lambda>r.
         JArr (map json_Stat (elems (body_value (decode_slice (decode_struct fields_Stat) zero_Stat) r None)))),
      (''/api/admin/about'', RtAbout, ''about'', \<lambda>r. json_About (body_value (decode_struct fields_About) r zero_About)),
      (''/api/admin/services'', RtServices, ''services'', \<lambda>r.
         JArr (map json_Service (elems (body_value (decode_slice (decode_struct fields_Service) zero_Service) r None)))),
      (''/api/admin/news'', RtNews, ''news'', \<lambda>r.
         JArr (map json_NewsItem (elems (body_value (decode_slice (decode_struct fields_NewsItem) zero_NewsItem) r None)))),
      (''/api/admin/partners'', RtPartners, ''partners'', \<lambda>r.
         JArr (map json_Partner (elems (body_value (decode_slice (decode_struct fields_Partner) zero_Partner) r None)))),
      (''/api/admin/contact'', RtContact, ''contact'', \<lambda>r.
         json_Contact (body_value (decode_struct fields_Contact) r zero_Contact))]"

text \<open>A database that answers and holds the rows of the singletons, as after the first boot.\<close>

definition ready :: "'l world \<Rightarrow> bool" where
  "ready \<sigma> \<longleftrightarrow>
     healthy (wd_srv \<sigma>) \<and> db_wf (committed (wd_srv \<sigma>)) \<and>
     (\<forall>t \<in> {''site'', ''about'', ''contact''}. committed (wd_srv \<sigma>) t \<noteq> Some [])"

lemma ready_shown:
  assumes "ready \<sigma>"
  shows "healthy (wd_srv \<sigma>)" "db_wf (committed (wd_srv \<sigma>))" "committed (wd_srv \<sigma>) ''site'' \<noteq> Some []"
    "committed (wd_srv \<sigma>) ''about'' \<noteq> Some []" "committed (wd_srv \<sigma>) ''contact'' \<noteq> Some []"
  using assms by (simp_all add: ready_def)

lemmas parts_shown = lists_shown [OF ready_shown(1)] singles_shown(1) [OF ready_shown(1,2,3)]
  singles_shown(2) [OF ready_shown(1,2,4)] singles_shown(3) [OF ready_shown(1,2,5)]

fun part_handler :: "route \<Rightarrow> 'l world handler" where
  "part_handler RtSite = AdminSite"
| "part_handler RtHero = AdminHero"
| "part_handler RtStats = AdminStats"
| "part_handler RtAbout = AdminAbout"
| "part_handler RtServices = AdminServices"
| "part_handler RtNews = AdminNews"
| "part_handler RtPartners = AdminPartners"
| "part_handler RtContact = AdminContact"
| "part_handler RtAdminLanguages = AdminLanguages"
| "part_handler RtAdminSidePanel = AdminSidePanel"
| "part_handler RtLanguages = Languages"
| "part_handler RtSidePanel = SidePanel"
| "part_handler rt = Content"

lemma site_part_handler:
  assumes "(p, rt, k, dec) \<in> set site_parts"
  shows "guarded env (part_handler rt) (route_handler env pub rt)" "answers_json (part_handler rt)"
    "ready \<sigma> \<Longrightarrow> shown_after (part_handler rt) r \<sigma> k (dec r)" "(p, rt) \<in> set api_paths"
  using assms unfolding site_parts_def
  by (auto simp: guarded_def json_admin api_paths_def parts_shown)

lemma ready_limiter [simp]: "ready (\<sigma>\<lparr>wd_limiter := rl\<rparr>) = ready \<sigma>"
  by (simp add: ready_def)

lemma served_update:
  assumes "(p, rt, k, dec) \<in> set site_parts" "ready \<sigma>"
    and "req_escaped r1 = p" "req_path r1 = p" "req_method r1 = ''PUT''"
    and "req_escaped r2 = ''/api/content''" "req_path r2 = ''/api/content''" "req_method r2 = ''GET''"
    and "server_handler api env allowed pub r1 new_writer \<sigma> = (w1, \<sigma>1)" "w_status w1 = Some 200"
    and "fst (rl_allow api (wd_now \<sigma>1) (realIP r2) (wd_limiter \<sigma>1))"
    and "server_handler api env allowed pub r2 new_writer \<sigma>1 = (w2, \<sigma>2)"
  shows "w_status w2 = Some 200 \<and> (\<exists>v. answered w2 = Some v \<and> member k v = Some (dec r1))"
proof -
  note h = site_part_handler [OF assms(1)]
  have shown: "shows_that Content (\<lambda>v. member k v = Some (dec r1)) (snd (part_handler rt r1 new_writer (\<sigma>\<lparr>wd_limiter := rl\<rparr>)))"
    if "w_status (fst (part_handler rt r1 new_writer (\<sigma>\<lparr>wd_limiter := rl\<rparr>))) = Some 200" for rl
    using h(3) [of "\<sigma>\<lparr>wd_limiter := rl\<rparr>" r1] assms(2) that by (simp add: shown_after_def content_shows_that)
  have c: "(''/api/content'', RtContent) \<in> set api_paths" by (simp add: api_paths_def)
  have o: "req_method r1 \<noteq> ''OPTIONS''" by (simp add: assms(5))
  show ?thesis
    by (rule put_then_get [OF h(4,1,2) c route_handler.simps(2) json_public(2) shown shows_limiter(1) assms(3,4) o assms(6-12)])
qed

text \<open>
  C4. From end to end: a \<open>PUT\<close> of a part of the content that goes through the whole server (rate limit, CORS,
  security headers, compression, router, token check, decoding of the body, transaction, flush of the
  cache) and is answered with status 200 is what the server gives out next: the following
  \<open>GET /api/content\<close>, if the limiter grants it, is answered with status 200 and a value whose member for
  that part is exactly the value decoded from the body of the \<open>PUT\<close>, with or without compression, for each
  of the eight parts. (The database answers, and the rows of the first boot are there.)
\<close>

theorem update_is_served:
  assumes "(p, rt, k, dec) \<in> set site_parts" "ready \<sigma>"
    and "req_escaped r1 = p" "req_path r1 = p" "req_method r1 = ''PUT''"
    and "req_escaped r2 = ''/api/content''" "req_path r2 = ''/api/content''" "req_method r2 = ''GET''"
    and "server_handler api env allowed pub r1 new_writer \<sigma> = (w1, \<sigma>1)" "w_status w1 = Some 200"
    and "fst (rl_allow api (wd_now \<sigma>1) (realIP r2) (wd_limiter \<sigma>1))"
    and "server_handler api env allowed pub r2 new_writer \<sigma>1 = (w2, \<sigma>2)"
  shows "w_status w2 = Some 200 \<and> (\<exists>v. answered w2 = Some v \<and> member k v = Some (dec r1))"
  by (rule served_update [OF assms])

lemma part_decodes_back:
  assumes "(p, rt, k, dec) \<in> set site_parts" "json_first (take body_limit (req_body r)) = Some j"
    and "member k (content_payload site (Some slides) (Some stats) about (Some services) (Some news) (Some partners)
      contact) = Some j"
  shows "dec r = j"
  using assms unfolding site_parts_def
  by (auto simp: body_value_def readBody_def member_payload json_of_slice_def decodes_back list_decodes_back [OF decodes_back(2)]
      list_decodes_back [OF decodes_back(3)] list_decodes_back [OF decodes_back(5)]
      list_decodes_back [OF decodes_back(6)] list_decodes_back [OF decodes_back(7)] slides_decode_back)

text \<open>
  C7. What the server shows can be put back: a client that sends the text the server wrote for a part of
  the content (its strings valid UTF-8, the text no longer than the 1 MiB that \<open>readBody\<close> reads) to the admin
  route of that part, and is answered with status 200, is then given the same JSON again. The encoder's text,
  the scanner, the decoder with the tags of the structs, the transaction, the queries and the cache
  together change nothing, for each of the eight parts.
\<close>

theorem shown_content_puts_back:
  assumes "(p, rt, k, dec) \<in> set site_parts" "ready \<sigma>"
    and "member k (content_payload site (Some slides) (Some stats) about (Some services) (Some news) (Some partners)
      contact) = Some j"
    and "texts 10000 j" "req_body r1 = json_text num j" "length (req_body r1) \<le> body_limit"
    and "req_escaped r1 = p" "req_path r1 = p" "req_method r1 = ''PUT''"
    and "req_escaped r2 = ''/api/content''" "req_path r2 = ''/api/content''" "req_method r2 = ''GET''"
    and "server_handler api env allowed pub r1 new_writer \<sigma> = (w1, \<sigma>1)" "w_status w1 = Some 200"
    and "fst (rl_allow api (wd_now \<sigma>1) (realIP r2) (wd_limiter \<sigma>1))"
    and "server_handler api env allowed pub r2 new_writer \<sigma>1 = (w2, \<sigma>2)"
  shows "w_status w2 = Some 200 \<and> (\<exists>v. answered w2 = Some v \<and> member k v = Some j)"
proof -
  have "json_first (take body_limit (req_body r1)) = Some j"
    using assms(5,6) json_first_text [OF assms(4), of num "[]"] by simp
  from part_decodes_back [OF assms(1) this assms(3)] served_update [OF assms(1,2,7-16)] show ?thesis by simp
qed

section \<open>The languages and the side panel\<close>

text \<open>The path of the update, the path of the read, and what is read after the body of the update.\<close>

definition map_parts :: "(string \<times> route \<times> string \<times> route \<times> (request \<Rightarrow> json)) list" where
  "map_parts =
     [(''/api/admin/languages'', RtAdminLanguages, ''/api/languages'', RtLanguages,
        \<lambda>r. JObj (lang_view (elems (body_value decode_map r None)))),
      (''/api/admin/sidepanel'', RtAdminSidePanel, ''/api/sidepanel'', RtSidePanel,
        \<lambda>r. json_of_map (body_value decode_map r None))]"

lemma map_part_handler:
  assumes "(p, rt, q, rq, view) \<in> set map_parts"
  shows "(p, rt) \<in> set api_paths" "guarded env (part_handler rt) (route_handler env pub rt)"
    "answers_json (part_handler rt)" "(q, rq) \<in> set api_paths" "route_handler env pub rq = part_handler rq"
    "answers_json (part_handler rq)" "shows_that (part_handler rq) Q (\<sigma>\<lparr>wd_limiter := rl\<rparr>) = shows_that (part_handler rq) Q \<sigma>"
    "ready \<sigma> \<Longrightarrow> committed (wd_srv \<sigma>) ''sidepanel'' \<noteq> Some [] \<Longrightarrow>
      w_status (fst (part_handler rt r new_writer \<sigma>)) = Some 200 \<Longrightarrow>
      shows_that (part_handler rq) (\<lambda>v. v = view r) (snd (part_handler rt r new_writer \<sigma>))"
  using assms unfolding map_parts_def
  by (auto simp: guarded_def json_admin json_public api_paths_def shows_limiter ready_def maps_shown)

text \<open>
  C5. The languages and the side panel end to end: a \<open>PUT\<close> of one of them that goes through the whole server and is
  answered with status 200 is what the following \<open>GET\<close> of it is answered, if the limiter grants it: the side panel
  exactly as the body was decoded (\<open>null\<close> for a body that is no object), the languages with the entries that are
  objects, their \<open>flag\<close> and \<open>name\<close> as strings. (The database answers, and the rows of the first boot are there.)
\<close>

theorem maps_are_served:
  assumes "(p, rt, q, rq, view) \<in> set map_parts" "ready \<sigma>" "committed (wd_srv \<sigma>) ''sidepanel'' \<noteq> Some []"
    and "req_escaped r1 = p" "req_path r1 = p" "req_method r1 = ''PUT''"
    and "req_escaped r2 = q" "req_path r2 = q" "req_method r2 = ''GET''"
    and "server_handler api env allowed pub r1 new_writer \<sigma> = (w1, \<sigma>1)" "w_status w1 = Some 200"
    and "fst (rl_allow api (wd_now \<sigma>1) (realIP r2) (wd_limiter \<sigma>1))"
    and "server_handler api env allowed pub r2 new_writer \<sigma>1 = (w2, \<sigma>2)"
  shows "w_status w2 = Some 200 \<and> answered w2 = Some (view r1)"
proof -
  note h = map_part_handler [OF assms(1)]
  have shown: "shows_that (part_handler rq) (\<lambda>v. v = view r1) (snd (part_handler rt r1 new_writer (\<sigma>\<lparr>wd_limiter := rl\<rparr>)))"
    if "w_status (fst (part_handler rt r1 new_writer (\<sigma>\<lparr>wd_limiter := rl\<rparr>))) = Some 200" for rl
    using h(8) [of "\<sigma>\<lparr>wd_limiter := rl\<rparr>" r1] assms(2,3) that by simp
  have o: "req_method r1 \<noteq> ''OPTIONS''" by (simp add: assms(6))
  have "w_status w2 = Some 200 \<and> (\<exists>v. answered w2 = Some v \<and> v = view r1)"
    by (rule put_then_get [OF h(1-6) shown h(7) assms(4,5) o assms(7-13)])
  then show ?thesis by simp
qed

section \<open>Examples\<close>

text \<open>A \<open>PUT\<close> with the token of a login, and a \<open>GET\<close> of another client, one second after the login.\<close>

definition admin_put :: "string \<Rightarrow> string \<Rightarrow> request" where
  "admin_put p body = (admin_request ''PUT'' p (1700000000 * nanos))\<lparr>req_body := body\<rparr>"

definition public_get :: "string \<Rightarrow> request" where
  "public_get p = forwarded (some_request ''GET'' p) ''10.0.0.2''"

abbreviation put_site :: request where
  "put_site \<equiv> admin_put ''/api/admin/site'' (req_body site_put)"

abbreviation get_content :: request where
  "get_content \<equiv> public_get ''/api/content''"

abbreviation site_server :: "bucket world handler" where
  "site_server \<equiv> server_handler bucket_api some_env [] ''./public''"

abbreviation login_world :: "bucket world" where
  "login_world \<equiv> world_at 1700000001000000000"

lemma admin_put_facts:
  "req_escaped (admin_put p b) = p" "req_path (admin_put p b) = p" "req_method (admin_put p b) = ''PUT''"
  "hget ''Authorization'' (req_headers (admin_put p b)) = ''Bearer '' @ login_token echo_mac ''s'' (1700000000 * nanos)"
  "realIP (admin_put p b) = ''10.0.0.1''" "req_body (admin_put p b) = b"
proof -
  show "req_escaped (admin_put p b) = p" "req_path (admin_put p b) = p" "req_method (admin_put p b) = ''PUT''"
    "req_body (admin_put p b) = b"
    by (simp_all add: admin_put_def admin_request_def some_request_def)
  show "hget ''Authorization'' (req_headers (admin_put p b)) = ''Bearer '' @ login_token echo_mac ''s'' (1700000000 * nanos)"
    using admin_request_header [of "''PUT''" p] by (simp add: admin_put_def)
  have "canonical ''X-Forwarded-For'' \<noteq> ''Authorization''" "canonical ''X-Real-IP'' \<noteq> ''Authorization''" by code_simp+
  moreover have "split_host ''10.0.0.1:5000'' = ''10.0.0.1''" by code_simp
  ultimately show "realIP (admin_put p b) = ''10.0.0.1''"
    by (simp add: realIP_def admin_put_def admin_request_def some_request_def hget_def)
qed

lemma public_get_facts:
  "req_escaped (public_get p) = p" "req_path (public_get p) = p" "req_method (public_get p) = ''GET''"
  "realIP (public_get p) = ''10.0.0.2''"
proof -
  show "req_escaped (public_get p) = p" "req_path (public_get p) = p" "req_method (public_get p) = ''GET''"
    by (simp_all add: public_get_def forwarded_def some_request_def)
  have "trim_space ''10.0.0.2'' = ''10.0.0.2''" by code_simp
  then show "realIP (public_get p) = ''10.0.0.2''"
    unfolding public_get_def by (intro forwarded_address) simp_all
qed

lemma login_world_srv: "wd_srv login_world = seeded_server\<lparr>clock := 1700000001000000000\<rparr>"
  by (simp add: world_at_def empty_world_def)

lemma put_admitted:
  assumes "(p, rt) \<in> set api_paths" "\<And>pub. route_handler some_env pub rt = Auth (e_mac some_env) (e_secret some_env) h"
    and "wd_now \<sigma> = 1700000001000000000"
  shows "mux some_env pub (admin_put p b) w \<sigma> = h (admin_put p b) w \<sigma>"
proof -
  have "token_admits some_env (login_token echo_mac ''s'' (1700000000 * nanos)) (wd_now \<sigma>)"
    using login_token_parse [of "1700000000 * nanos" echo_mac "''s''" "wd_now \<sigma>"] assms(3)
    by (simp add: token_admits_def some_env_def unix_def nanos_def)
  note admitted = Auth_admits [OF this admin_put_facts(4) [of p b], of h w]
  show ?thesis unfolding mux_api(1) [OF assms(1) admin_put_facts(1,2)] assms(2) admitted by (rule refl)
qed

text \<open>A \<open>PUT\<close> that the handler accepts goes through the server, and the \<open>GET\<close> after it is granted.\<close>

lemma put_run:
  assumes "(p, rt) \<in> set api_paths" "\<And>pub. route_handler some_env pub rt = Auth (e_mac some_env) (e_secret some_env) h"
    and "answers_json h" "\<And>r w \<sigma>. wd_limiter (snd (h r w \<sigma>)) = wd_limiter \<sigma>"
    and "\<And>\<sigma> :: bucket world. wd_srv \<sigma> = wd_srv login_world \<Longrightarrow> w_status (fst (h (admin_put p b) new_writer \<sigma>)) = Some 200"
  obtains w1 \<sigma>1 w2 \<sigma>2 where
    "site_server (admin_put p b) new_writer login_world = (w1, \<sigma>1)" "w_status w1 = Some 200"
    "fst (rl_allow bucket_api (wd_now \<sigma>1) (realIP (public_get q)) (wd_limiter \<sigma>1))"
    "site_server (public_get q) new_writer \<sigma>1 = (w2, \<sigma>2)"
proof -
  let ?\<sigma> = "login_world" and ?r = "admin_put p b"
  obtain w1 \<sigma>1 where one: "site_server ?r new_writer ?\<sigma> = (w1, \<sigma>1)" by (rule prod.exhaust)
  obtain w2 \<sigma>2 where two: "site_server (public_get q) new_writer \<sigma>1 = (w2, \<sigma>2)" by (rule prod.exhaust)
  have l0: "visitors (wd_limiter ?\<sigma>) = (\<lambda>_. None)" "burst (wd_limiter ?\<sigma>) = 30"
    by (simp_all add: world_at_def empty_world_def NewRateLimiter_def go_div_def)
  obtain ok rl where a: "rl_allow bucket_api (wd_now ?\<sigma>) (realIP ?r) (wd_limiter ?\<sigma>) = (ok, rl)" by (rule prod.exhaust)
  have f: "ok" "burst rl = 30" "visitors rl ''10.0.0.2'' = None"
    using fresh_granted [OF _ _ l0(2) a] l0(1) by (simp_all add: admin_put_facts(5))
  have m: "mux some_env ''./public'' ?r w \<sigma>' = h ?r w \<sigma>'" if "wd_now \<sigma>' = wd_now ?\<sigma>" for w \<sigma>'
    using that put_admitted [OF assms(1,2)] by (simp add: world_at_srv(4))
  have g: "guarded some_env h h" by (simp add: guarded_def)
  have o: "req_method ?r \<noteq> ''OPTIONS''" by (simp add: admin_put_facts(3))
  have s: "w_status w1 = Some 200 \<or> h = h \<and> fst (rl_allow bucket_api (wd_now ?\<sigma>) (realIP ?r) (wd_limiter ?\<sigma>))"
    using a f(1) by simp
  obtain rl1 where r: "\<sigma>1 = snd (h ?r new_writer (?\<sigma>\<lparr>wd_limiter := rl1\<rparr>))"
    "w_status (fst (h ?r new_writer (?\<sigma>\<lparr>wd_limiter := rl1\<rparr>))) = w_status w1" "rl1 = rl"
    using server_run [OF m g assms(3) mux_api(2) [OF assms(1) admin_put_facts(1,2)] o one s] a by force
  have ok1: "w_status w1 = Some 200" using assms(5) [of "?\<sigma>\<lparr>wd_limiter := rl1\<rparr>"] r(2) by simp
  have "wd_limiter \<sigma>1 = rl" using assms(4) r(1,3) by simp
  then have grant: "fst (rl_allow bucket_api (wd_now \<sigma>1) (realIP (public_get q)) (wd_limiter \<sigma>1))"
    using fresh_granted(1) [OF _ f(3) f(2), of "wd_now \<sigma>1"] unfolding public_get_facts(4) by (metis one_le_numeral prod.collapse)
  from that [OF one ok1 grant two] show thesis .
qed

lemma adminPUT_limiter: "wd_limiter (snd (adminPUT fn r w \<sigma>)) = wd_limiter \<sigma>"
  by (auto simp: adminPUT_def with_srv_def split: prod.splits option.splits)

lemma put_site_body:
  "body_value (decode_struct fields_Site) put_site zero_Site = \<lparr>site_companyName = ''Acme'', site_tagline = ''t''\<rparr>"
proof -
  have "body_value (decode_struct fields_Site) put_site zero_Site =
      fst (case json_first (req_body site_put) of None \<Rightarrow> (zero_Site, True) | Some j \<Rightarrow> decode_struct fields_Site j zero_Site)"
    using short_put by (simp add: body_value_def admin_put_facts(6) readBody_short)
  also have "\<dots> = \<lparr>site_companyName = ''Acme'', site_tagline = ''t''\<rparr>" by code_simp
  finally show ?thesis .
qed

lemma put_site_accepted:
  assumes "wd_srv \<sigma> = wd_srv login_world"
  shows "w_status (fst (AdminSite put_site new_writer \<sigma>)) = Some 200"
proof -
  have "fst (Svc_UpdateSite \<lparr>site_companyName = ''Acme'', site_tagline = ''t''\<rparr>
      (seeded_server\<lparr>clock := 1700000001000000000\<rparr>)) = None" by code_simp
  then show ?thesis unfolding AdminSite_def put_site_body
    by (intro adminPUT_accepts) (simp_all add: assms login_world_srv admin_put_facts(3))
qed

lemma put_site_run:
  obtains w1 \<sigma>1 w2 \<sigma>2 where
    "site_server put_site new_writer login_world = (w1, \<sigma>1)" "w_status w1 = Some 200"
    "fst (rl_allow bucket_api (wd_now \<sigma>1) (realIP get_content) (wd_limiter \<sigma>1))"
    "site_server get_content new_writer \<sigma>1 = (w2, \<sigma>2)"
proof (rule put_run [of "''/api/admin/site''" RtSite AdminSite])
  show "(''/api/admin/site'', RtSite) \<in> set api_paths" by (simp add: api_paths_def)
  show "wd_limiter (snd (AdminSite r w \<sigma>)) = wd_limiter \<sigma>" for r w and \<sigma> :: "bucket world"
    unfolding AdminSite_def by (rule adminPUT_limiter)
qed (auto intro: json_admin(1) put_site_accepted)

lemma world_at_ready: "ready login_world"
proof -
  show ?thesis by (simp add: ready_def world_at_srv) (simp add: login_world_srv, simp add: seeded_server_def seeded_db_def)
qed

lemma site_part:
  "(''/api/admin/site'', RtSite, ''site'', \<lambda>r. json_Site (body_value (decode_struct fields_Site) r zero_Site)) \<in> set site_parts"
  by (simp add: site_parts_def)

theorem update_is_served_witness:
  "\<exists>w1 \<sigma>1 v. site_server put_site new_writer login_world = (w1, \<sigma>1) \<and> w_status w1 = Some 200 \<and>
     answered (fst (site_server get_content new_writer \<sigma>1)) = Some v \<and>
     member ''site'' v = Some (json_Site \<lparr>site_companyName = ''Acme'', site_tagline = ''t''\<rparr>)"
proof -
  obtain w1 \<sigma>1 w2 \<sigma>2 where run: "site_server put_site new_writer login_world = (w1, \<sigma>1)"
    "w_status w1 = Some 200" "fst (rl_allow bucket_api (wd_now \<sigma>1) (realIP get_content) (wd_limiter \<sigma>1))"
    "site_server get_content new_writer \<sigma>1 = (w2, \<sigma>2)" by (rule put_site_run)
  from update_is_served [OF site_part world_at_ready admin_put_facts(1-3) public_get_facts(1-3) run] run
  show ?thesis unfolding put_site_body by auto
qed

theorem shown_content_puts_back_witness:
  "\<exists>w1 \<sigma>1 v. site_server put_site new_writer login_world = (w1, \<sigma>1) \<and> w_status w1 = Some 200 \<and>
     req_body put_site = json_text (\<lambda>_. []) (json_Site \<lparr>site_companyName = ''Acme'', site_tagline = ''t''\<rparr>) \<and>
     answered (fst (site_server get_content new_writer \<sigma>1)) = Some v \<and>
     member ''site'' v = Some (json_Site \<lparr>site_companyName = ''Acme'', site_tagline = ''t''\<rparr>)"
proof -
  let ?j = "json_Site \<lparr>site_companyName = ''Acme'', site_tagline = ''t''\<rparr>"
  obtain w1 \<sigma>1 w2 \<sigma>2 where run: "site_server put_site new_writer login_world = (w1, \<sigma>1)"
    "w_status w1 = Some 200" "fst (rl_allow bucket_api (wd_now \<sigma>1) (realIP get_content) (wd_limiter \<sigma>1))"
    "site_server get_content new_writer \<sigma>1 = (w2, \<sigma>2)" by (rule put_site_run)
  have b: "req_body put_site = json_text (\<lambda>_. []) ?j"
  proof -
    have "req_body site_put = json_text (\<lambda>_. []) ?j" by code_simp
    then show ?thesis by (simp add: admin_put_facts(6))
  qed
  have l: "length (req_body put_site) \<le> body_limit" using short_put by (simp add: admin_put_facts(6))
  have u: "texts 10000 ?j" by code_simp
  note m = member_payload(1) [of "\<lparr>site_companyName = ''Acme'', site_tagline = ''t''\<rparr>" "Some []" "Some []" zero_About
    "Some []" "Some []" "Some []" zero_Contact]
  from shown_content_puts_back [OF site_part world_at_ready m u b l admin_put_facts(1-3) public_get_facts(1-3) run] run b
  show ?thesis by auto
qed

text \<open>The side panel, from an empty object to one member.\<close>

abbreviation put_panel :: request where
  "put_panel \<equiv> admin_put ''/api/admin/sidepanel'' (''{'' @ quoted ''on'' @ '':true}'')"

lemma put_panel_body: "body_value decode_map put_panel None = Some [(''on'', JBool True)]"
proof -
  have l: "length (req_body put_panel) \<le> body_limit"
    by (simp add: admin_put_facts(6) quoted_def body_limit_def)
  have "fst (case json_first (''{'' @ quoted ''on'' @ '':true}'') of None \<Rightarrow> (None, True) | Some j \<Rightarrow> decode_map j None)
      = Some [(''on'', JBool True)]" by code_simp
  with l show ?thesis by (simp add: body_value_def readBody_short admin_put_facts(6))
qed

lemma put_panel_run:
  obtains w1 \<sigma>1 w2 \<sigma>2 where
    "site_server put_panel new_writer login_world = (w1, \<sigma>1)" "w_status w1 = Some 200"
    "fst (rl_allow bucket_api (wd_now \<sigma>1) (realIP (public_get ''/api/sidepanel'')) (wd_limiter \<sigma>1))"
    "site_server (public_get ''/api/sidepanel'') new_writer \<sigma>1 = (w2, \<sigma>2)"
proof (rule put_run [of "''/api/admin/sidepanel''" RtAdminSidePanel AdminSidePanel])
  show "(''/api/admin/sidepanel'', RtAdminSidePanel) \<in> set api_paths" by (simp add: api_paths_def)
  show "wd_limiter (snd (AdminSidePanel r w \<sigma>)) = wd_limiter \<sigma>" for r w and \<sigma> :: "bucket world"
    unfolding AdminSidePanel_def by (rule adminPUT_limiter)
  have "fst (Svc_UpdateSidePanel (Some [(''on'', JBool True)]) (seeded_server\<lparr>clock := 1700000001000000000\<rparr>)) = None"
    by code_simp
  then show "w_status (fst (AdminSidePanel put_panel new_writer \<sigma>)) = Some 200" if "wd_srv \<sigma> = wd_srv login_world"
    for \<sigma> :: "bucket world"
    unfolding AdminSidePanel_def put_panel_body
    using that by (intro adminPUT_accepts) (simp_all add: login_world_srv admin_put_facts(3))
qed (auto intro: json_admin)

theorem maps_are_served_witness:
  "\<exists>w1 \<sigma>1. site_server put_panel new_writer login_world = (w1, \<sigma>1) \<and> w_status w1 = Some 200 \<and>
     answered (fst (site_server (public_get ''/api/sidepanel'') new_writer \<sigma>1)) = Some (JObj [(''on'', JBool True)])"
proof -
  obtain w1 \<sigma>1 w2 \<sigma>2 where run: "site_server put_panel new_writer login_world = (w1, \<sigma>1)"
    "w_status w1 = Some 200" "fst (rl_allow bucket_api (wd_now \<sigma>1) (realIP (public_get ''/api/sidepanel'')) (wd_limiter \<sigma>1))"
    "site_server (public_get ''/api/sidepanel'') new_writer \<sigma>1 = (w2, \<sigma>2)" by (rule put_panel_run)
  have part: "(''/api/admin/sidepanel'', RtAdminSidePanel, ''/api/sidepanel'', RtSidePanel,
      \<lambda>r. json_of_map (body_value decode_map r None)) \<in> set map_parts" by (simp add: map_parts_def)
  have row: "committed (wd_srv login_world) ''sidepanel'' \<noteq> Some []"
    by (simp add: login_world_srv, simp add: seeded_server_def seeded_db_def)
  from maps_are_served [OF part world_at_ready row admin_put_facts(1-3) public_get_facts(1-3) run] run
  show ?thesis unfolding put_panel_body by (simp add: json_of_map_def)
qed

end
